(* ===== verification/PFF_Prelude.thy ===== *)
theory PFF_Prelude
  imports Main "HOL-Library.Word" "HOL-Library.Multiset"
begin

text \<open>
  Shared vocabulary of the development: the machine types of the C++ sources, the theorem
  collections the component theories fill, and generic facts on lists and words that
  several components use.

  \<^item> Unsigned fixed-width integers are words; \<open>+\<close> wraps as in C++.
  \<^item> \<open>i64\<close> is the same 64-bit word read through \<^const>\<open>sint\<close>; no operation of the model adds
    or multiplies two \<open>i64\<close> values without the source's overflow check.
  \<^item> \<open>size_t\<close> values that only count elements of containers are \<open>nat\<close>.
\<close>

type_synonym u8 = "8 word"
type_synonym u16 = "16 word"
type_synonym u32 = "32 word"
type_synonym u64 = "64 word"
type_synonym i64 = "64 word"
type_synonym size_t = nat
type_synonym byte = u8

text \<open>
  Collections. \<open>validation\<close>: the structural checks of supplied input. \<open>codec\<close>: equations
  of readers and writers on well-formed input. \<open>locked\<close>: the frame facts of the
  coordinator's internal helpers (what an operation leaves alone).
\<close>

named_theorems validation
named_theorems codec
named_theorems locked

section \<open>Lists\<close>

lemma sorted_wrt_unique:
  assumes irrefl: "\<And>x. \<not> P x x" and trans: "\<And>x y z. P x y \<Longrightarrow> P y z \<Longrightarrow> P x z"
    and "sorted_wrt P xs" "sorted_wrt P ys" "set xs = set ys"
  shows "xs = ys"
  using assms(3-5)
proof (induction xs arbitrary: ys)
  case Nil
  then show ?case by simp
next
  case (Cons x xs)
  then obtain y ys' where ys: "ys = y # ys'" by (cases ys) auto
  have "x = y"
  proof (rule ccontr)
    assume "x \<noteq> y"
    with Cons.prems ys have "P x y" "P y x" by auto
    then show False using irrefl trans by blast
  qed
  moreover have "x \<notin> set xs" "y \<notin> set ys'" using Cons.prems ys irrefl by auto
  ultimately have "set xs = set ys'" using Cons.prems(3) ys by auto
  with Cons.IH [of ys'] Cons.prems ys \<open>x = y\<close> show ?case by simp
qed

lemma distinct_map_filter: "distinct (map f xs) \<Longrightarrow> distinct (map f (filter P xs))"
  by (induction xs) auto

lemma take_drop_append3 [simp]:
  "length a = n \<Longrightarrow> take n (a @ b) = a" "length a = n \<Longrightarrow> drop n (a @ b) = b"
  by auto

lemma find_Some_mem: "List.find P xs = Some x \<Longrightarrow> x \<in> set xs \<and> P x"
  by (induction xs) (auto split: if_splits)

lemma find_None_all: "List.find P xs = None \<Longrightarrow> x \<in> set xs \<Longrightarrow> \<not> P x"
  by (induction xs) (auto split: if_splits)

section \<open>Words\<close>

lemma unat_plus1_64: "(x :: u64) \<noteq> - 1 \<Longrightarrow> unat (x + 1) = Suc (unat x)"
  by (metis add.commute add_eq_0_iff minus_equation_iff unatSuc)

end
