(* ===== verification/PFF_Status.thy ===== *)
theory PFF_Status
  imports PFF_Prelude
begin

text \<open>
  The status, reason and result vocabulary: \<open>include/pff/status.hpp\<close> and
  \<open>src/status.cpp\<close>. Both enumerations keep the source's enumerators, each under the prefix
  of its enumeration; \<open>code_value\<close> and \<open>reason_value\<close> are the numeric values that are
  persisted and transmitted, \<open>code_table\<close> and \<open>reason_table\<close> the enumerators in numeric
  order (the \<open>static_cast\<close> back from a range-checked integer). A \<open>Status\<close> is the source's
  triple; a \<open>Result\<close> is a failed status (\<^const>\<open>Inl\<close>) or a value (\<^const>\<open>Inr\<close>).

  The numeric values are shown to be a bijection onto \<open>0..<20\<close> and \<open>0..<92\<close>, and the name
  tables to cover exactly the enumerators without repetition.
\<close>

section \<open>Enumerations\<close>

datatype Code =
    Code_ok
  | Code_invalid
  | Code_unknown
  | Code_stale
  | Code_conflict
  | Code_unsupported
  | Code_refused
  | Code_exhausted
  | Code_corrupt
  | Code_not_found
  | Code_already_exists
  | Code_fenced
  | Code_superseded
  | Code_interrupted
  | Code_search_limited
  | Code_proven_absent
  | Code_version_unsupported
  | Code_not_owner
  | Code_io_failure
  | Code_table_full

datatype (plugins only: size) Reason =
    Reason_none
  | Reason_incumbent_is_self
  | Reason_withdrawn
  | Reason_authority_stale
  | Reason_authority_unknown
  | Reason_authority_conflict
  | Reason_eligibility_ineligible
  | Reason_eligibility_unknown
  | Reason_evidence_stale
  | Reason_evidence_unknown
  | Reason_reachability_unreachable
  | Reason_reachability_unknown
  | Reason_capacity_insufficient
  | Reason_capacity_unknown
  | Reason_capability_missing
  | Reason_health_below_obligation
  | Reason_cost_above_obligation
  | Reason_score_below_policy
  | Reason_score_overflow
  | Reason_path_fenced
  | Reason_duplicate_path
  | Reason_rank_out_of_range
  | Reason_candidates_too_many
  | Reason_set_generation_mismatch
  | Reason_set_incomplete
  | Reason_set_completeness_unknown
  | Reason_search_limit_reached
  | Reason_policy_invalid
  | Reason_obligations_invalid
  | Reason_policy_generation_stale
  | Reason_obligations_generation_stale
  | Reason_topology_generation_stale
  | Reason_path_authority_generation_stale
  | Reason_epoch_stale
  | Reason_boot_mismatch
  | Reason_generation_conflict
  | Reason_incumbent_not_failed
  | Reason_authority_current
  | Reason_attempt_active
  | Reason_attempt_not_found
  | Reason_attempt_fenced
  | Reason_attempt_superseded
  | Reason_attempt_already_committed
  | Reason_attempt_terminal
  | Reason_effect_unverified
  | Reason_effect_authority_mismatch
  | Reason_effect_path_mismatch
  | Reason_rollback_incumbent_invalid
  | Reason_rollback_no_prior_incumbent
  | Reason_rollback_not_committed
  | Reason_revalidation_exhausted
  | Reason_rollback_authority_mismatch
  | Reason_no_active_attempt
  | Reason_read_only
  | Reason_corrupt_header
  | Reason_corrupt_payload
  | Reason_unsupported_version
  | Reason_length_invalid
  | Reason_sequence_regression
  | Reason_trailing_garbage
  | Reason_torn_tail_recovered
  | Reason_integrity_failure
  | Reason_directory_locked
  | Reason_io_failure
  | Reason_state_inconsistent
  | Reason_format_magic_mismatch
  | Reason_record_type_invalid
  | Reason_snapshot_missing
  | Reason_frame_magic
  | Reason_frame_truncated
  | Reason_frame_oversize
  | Reason_frame_trailing_bytes
  | Reason_enum_invalid
  | Reason_domain_invalid
  | Reason_session_unknown
  | Reason_session_stale
  | Reason_session_limit
  | Reason_request_limit
  | Reason_message_unsupported
  | Reason_protocol_version_mismatch
  | Reason_table_full
  | Reason_allocation_denied
  | Reason_invalid_payload
  | Reason_evidence_superseded
  | Reason_selected
  | Reason_promotable_not_selected
  | Reason_excluded
  | Reason_indeterminate
  | Reason_proven_no_alternate
  | Reason_complete_set_exhausted
  | Reason_restart_fenced
  | Reason_authority_fenced

primrec code_value :: "Code \<Rightarrow> nat" where
  "code_value Code_ok = 0"
| "code_value Code_invalid = 1"
| "code_value Code_unknown = 2"
| "code_value Code_stale = 3"
| "code_value Code_conflict = 4"
| "code_value Code_unsupported = 5"
| "code_value Code_refused = 6"
| "code_value Code_exhausted = 7"
| "code_value Code_corrupt = 8"
| "code_value Code_not_found = 9"
| "code_value Code_already_exists = 10"
| "code_value Code_fenced = 11"
| "code_value Code_superseded = 12"
| "code_value Code_interrupted = 13"
| "code_value Code_search_limited = 14"
| "code_value Code_proven_absent = 15"
| "code_value Code_version_unsupported = 16"
| "code_value Code_not_owner = 17"
| "code_value Code_io_failure = 18"
| "code_value Code_table_full = 19"

primrec reason_value :: "Reason \<Rightarrow> nat" where
  "reason_value Reason_none = 0"
| "reason_value Reason_incumbent_is_self = 1"
| "reason_value Reason_withdrawn = 2"
| "reason_value Reason_authority_stale = 3"
| "reason_value Reason_authority_unknown = 4"
| "reason_value Reason_authority_conflict = 5"
| "reason_value Reason_eligibility_ineligible = 6"
| "reason_value Reason_eligibility_unknown = 7"
| "reason_value Reason_evidence_stale = 8"
| "reason_value Reason_evidence_unknown = 9"
| "reason_value Reason_reachability_unreachable = 10"
| "reason_value Reason_reachability_unknown = 11"
| "reason_value Reason_capacity_insufficient = 12"
| "reason_value Reason_capacity_unknown = 13"
| "reason_value Reason_capability_missing = 14"
| "reason_value Reason_health_below_obligation = 15"
| "reason_value Reason_cost_above_obligation = 16"
| "reason_value Reason_score_below_policy = 17"
| "reason_value Reason_score_overflow = 18"
| "reason_value Reason_path_fenced = 19"
| "reason_value Reason_duplicate_path = 20"
| "reason_value Reason_rank_out_of_range = 21"
| "reason_value Reason_candidates_too_many = 22"
| "reason_value Reason_set_generation_mismatch = 23"
| "reason_value Reason_set_incomplete = 24"
| "reason_value Reason_set_completeness_unknown = 25"
| "reason_value Reason_search_limit_reached = 26"
| "reason_value Reason_policy_invalid = 27"
| "reason_value Reason_obligations_invalid = 28"
| "reason_value Reason_policy_generation_stale = 29"
| "reason_value Reason_obligations_generation_stale = 30"
| "reason_value Reason_topology_generation_stale = 31"
| "reason_value Reason_path_authority_generation_stale = 32"
| "reason_value Reason_epoch_stale = 33"
| "reason_value Reason_boot_mismatch = 34"
| "reason_value Reason_generation_conflict = 35"
| "reason_value Reason_incumbent_not_failed = 36"
| "reason_value Reason_authority_current = 37"
| "reason_value Reason_attempt_active = 38"
| "reason_value Reason_attempt_not_found = 39"
| "reason_value Reason_attempt_fenced = 40"
| "reason_value Reason_attempt_superseded = 41"
| "reason_value Reason_attempt_already_committed = 42"
| "reason_value Reason_attempt_terminal = 43"
| "reason_value Reason_effect_unverified = 44"
| "reason_value Reason_effect_authority_mismatch = 45"
| "reason_value Reason_effect_path_mismatch = 46"
| "reason_value Reason_rollback_incumbent_invalid = 47"
| "reason_value Reason_rollback_no_prior_incumbent = 48"
| "reason_value Reason_rollback_not_committed = 49"
| "reason_value Reason_revalidation_exhausted = 50"
| "reason_value Reason_rollback_authority_mismatch = 51"
| "reason_value Reason_no_active_attempt = 52"
| "reason_value Reason_read_only = 53"
| "reason_value Reason_corrupt_header = 54"
| "reason_value Reason_corrupt_payload = 55"
| "reason_value Reason_unsupported_version = 56"
| "reason_value Reason_length_invalid = 57"
| "reason_value Reason_sequence_regression = 58"
| "reason_value Reason_trailing_garbage = 59"
| "reason_value Reason_torn_tail_recovered = 60"
| "reason_value Reason_integrity_failure = 61"
| "reason_value Reason_directory_locked = 62"
| "reason_value Reason_io_failure = 63"
| "reason_value Reason_state_inconsistent = 64"
| "reason_value Reason_format_magic_mismatch = 65"
| "reason_value Reason_record_type_invalid = 66"
| "reason_value Reason_snapshot_missing = 67"
| "reason_value Reason_frame_magic = 68"
| "reason_value Reason_frame_truncated = 69"
| "reason_value Reason_frame_oversize = 70"
| "reason_value Reason_frame_trailing_bytes = 71"
| "reason_value Reason_enum_invalid = 72"
| "reason_value Reason_domain_invalid = 73"
| "reason_value Reason_session_unknown = 74"
| "reason_value Reason_session_stale = 75"
| "reason_value Reason_session_limit = 76"
| "reason_value Reason_request_limit = 77"
| "reason_value Reason_message_unsupported = 78"
| "reason_value Reason_protocol_version_mismatch = 79"
| "reason_value Reason_table_full = 80"
| "reason_value Reason_allocation_denied = 81"
| "reason_value Reason_invalid_payload = 82"
| "reason_value Reason_evidence_superseded = 83"
| "reason_value Reason_selected = 84"
| "reason_value Reason_promotable_not_selected = 85"
| "reason_value Reason_excluded = 86"
| "reason_value Reason_indeterminate = 87"
| "reason_value Reason_proven_no_alternate = 88"
| "reason_value Reason_complete_set_exhausted = 89"
| "reason_value Reason_restart_fenced = 90"
| "reason_value Reason_authority_fenced = 91"

definition code_table :: "Code list" where
  "code_table = [
    Code_ok, Code_invalid, Code_unknown, Code_stale, Code_conflict, Code_unsupported,
    Code_refused, Code_exhausted, Code_corrupt, Code_not_found, Code_already_exists,
    Code_fenced, Code_superseded, Code_interrupted, Code_search_limited,
    Code_proven_absent, Code_version_unsupported, Code_not_owner, Code_io_failure,
    Code_table_full]"

definition reason_table :: "Reason list" where
  "reason_table = [
    Reason_none, Reason_incumbent_is_self, Reason_withdrawn, Reason_authority_stale,
    Reason_authority_unknown, Reason_authority_conflict, Reason_eligibility_ineligible,
    Reason_eligibility_unknown, Reason_evidence_stale, Reason_evidence_unknown,
    Reason_reachability_unreachable, Reason_reachability_unknown,
    Reason_capacity_insufficient, Reason_capacity_unknown, Reason_capability_missing,
    Reason_health_below_obligation, Reason_cost_above_obligation,
    Reason_score_below_policy, Reason_score_overflow, Reason_path_fenced,
    Reason_duplicate_path, Reason_rank_out_of_range, Reason_candidates_too_many,
    Reason_set_generation_mismatch, Reason_set_incomplete, Reason_set_completeness_unknown,
    Reason_search_limit_reached, Reason_policy_invalid, Reason_obligations_invalid,
    Reason_policy_generation_stale, Reason_obligations_generation_stale,
    Reason_topology_generation_stale, Reason_path_authority_generation_stale,
    Reason_epoch_stale, Reason_boot_mismatch, Reason_generation_conflict,
    Reason_incumbent_not_failed, Reason_authority_current, Reason_attempt_active,
    Reason_attempt_not_found, Reason_attempt_fenced, Reason_attempt_superseded,
    Reason_attempt_already_committed, Reason_attempt_terminal, Reason_effect_unverified,
    Reason_effect_authority_mismatch, Reason_effect_path_mismatch,
    Reason_rollback_incumbent_invalid, Reason_rollback_no_prior_incumbent,
    Reason_rollback_not_committed, Reason_revalidation_exhausted,
    Reason_rollback_authority_mismatch, Reason_no_active_attempt, Reason_read_only,
    Reason_corrupt_header, Reason_corrupt_payload, Reason_unsupported_version,
    Reason_length_invalid, Reason_sequence_regression, Reason_trailing_garbage,
    Reason_torn_tail_recovered, Reason_integrity_failure, Reason_directory_locked,
    Reason_io_failure, Reason_state_inconsistent, Reason_format_magic_mismatch,
    Reason_record_type_invalid, Reason_snapshot_missing, Reason_frame_magic,
    Reason_frame_truncated, Reason_frame_oversize, Reason_frame_trailing_bytes,
    Reason_enum_invalid, Reason_domain_invalid, Reason_session_unknown,
    Reason_session_stale, Reason_session_limit, Reason_request_limit,
    Reason_message_unsupported, Reason_protocol_version_mismatch, Reason_table_full,
    Reason_allocation_denied, Reason_invalid_payload, Reason_evidence_superseded,
    Reason_selected, Reason_promotable_not_selected, Reason_excluded, Reason_indeterminate,
    Reason_proven_no_alternate, Reason_complete_set_exhausted, Reason_restart_fenced,
    Reason_authority_fenced]"


lemma code_table_value: "code_value c < 20 \<and> code_table ! code_value c = c"
  by (cases c) (simp_all add: code_table_def)

lemma reason_table_value: "reason_value r < 92 \<and> reason_table ! reason_value r = r"
  by (cases r) (simp_all add: reason_table_def)

text \<open>Equality of reasons is equality of their numeric values, which is how the code compares them.\<close>

lemma reason_value_inj: "reason_value r = reason_value s \<longleftrightarrow> r = s"
  by (metis reason_table_value)

instantiation Reason :: equal
begin

definition equal_Reason :: "Reason \<Rightarrow> Reason \<Rightarrow> bool" where
  "equal_Reason r s \<longleftrightarrow> reason_value r = reason_value s"

instance
  by intro_classes (simp add: equal_Reason_def reason_value_inj)

end

instantiation Reason :: linorder
begin

definition less_eq_Reason :: "Reason \<Rightarrow> Reason \<Rightarrow> bool" where
  "less_eq_Reason r s \<longleftrightarrow> reason_value r \<le> reason_value s"

definition less_Reason :: "Reason \<Rightarrow> Reason \<Rightarrow> bool" where
  "less_Reason r s \<longleftrightarrow> reason_value r < reason_value s"

instance
  by intro_classes (auto simp: less_eq_Reason_def less_Reason_def reason_value_inj)

end

section \<open>Names\<close>

definition kCodeNames :: "string list" where
  "kCodeNames = [
    ''ok'', ''invalid'', ''unknown'', ''stale'', ''conflict'', ''unsupported'',
    ''refused'', ''exhausted'', ''corrupt'', ''not_found'', ''already_exists'', ''fenced'',
    ''superseded'', ''interrupted'', ''search_limited'', ''proven_absent'',
    ''version_unsupported'', ''not_owner'', ''io_failure'', ''table_full'']"

definition kReasonNames :: "string list" where
  "kReasonNames = [
    ''none'', ''incumbent_is_self'', ''withdrawn'', ''authority_stale'',
    ''authority_unknown'', ''authority_conflict'', ''eligibility_ineligible'',
    ''eligibility_unknown'', ''evidence_stale'', ''evidence_unknown'',
    ''reachability_unreachable'', ''reachability_unknown'', ''capacity_insufficient'',
    ''capacity_unknown'', ''capability_missing'', ''health_below_obligation'',
    ''cost_above_obligation'', ''score_below_policy'', ''score_overflow'', ''path_fenced'',
    ''duplicate_path'', ''rank_out_of_range'', ''candidates_too_many'',
    ''set_generation_mismatch'', ''set_incomplete'', ''set_completeness_unknown'',
    ''search_limit_reached'', ''policy_invalid'', ''obligations_invalid'',
    ''policy_generation_stale'', ''obligations_generation_stale'',
    ''topology_generation_stale'', ''path_authority_generation_stale'', ''epoch_stale'',
    ''boot_mismatch'', ''generation_conflict'', ''incumbent_not_failed'',
    ''authority_current'', ''attempt_active'', ''attempt_not_found'', ''attempt_fenced'',
    ''attempt_superseded'', ''attempt_already_committed'', ''attempt_terminal'',
    ''effect_unverified'', ''effect_authority_mismatch'', ''effect_path_mismatch'',
    ''rollback_incumbent_invalid'', ''rollback_no_prior_incumbent'',
    ''rollback_not_committed'', ''revalidation_exhausted'',
    ''rollback_authority_mismatch'', ''no_active_attempt'', ''read_only'',
    ''corrupt_header'', ''corrupt_payload'', ''unsupported_version'', ''length_invalid'',
    ''sequence_regression'', ''trailing_garbage'', ''torn_tail_recovered'',
    ''integrity_failure'', ''directory_locked'', ''io_failure'', ''state_inconsistent'',
    ''format_magic_mismatch'', ''record_type_invalid'', ''snapshot_missing'',
    ''frame_magic'', ''frame_truncated'', ''frame_oversize'', ''frame_trailing_bytes'',
    ''enum_invalid'', ''domain_invalid'', ''session_unknown'', ''session_stale'',
    ''session_limit'', ''request_limit'', ''message_unsupported'',
    ''protocol_version_mismatch'', ''table_full'', ''allocation_denied'',
    ''invalid_payload'', ''evidence_superseded'', ''selected'',
    ''promotable_not_selected'', ''excluded'', ''indeterminate'', ''proven_no_alternate'',
    ''complete_set_exhausted'', ''restart_fenced'', ''authority_fenced'']"

section \<open>Status and result\<close>

datatype Status = Status (st_code: Code) (st_reason: Reason) (st_detail: string)

type_synonym 'a Result = "Status + 'a"

definition ok_status :: Status where
  "ok_status = Status Code_ok Reason_none []"

definition st_ok :: "Status \<Rightarrow> bool" where
  "st_ok s \<longleftrightarrow> st_code s = Code_ok"

definition make_status :: "Code \<Rightarrow> Reason \<Rightarrow> Status" where
  "make_status c r = Status c r []"

definition max_reason_bytes :: nat where
  "max_reason_bytes = 128"

definition with_detail :: "Status \<Rightarrow> string \<Rightarrow> Status" where
  "with_detail s d = Status (st_code s) (st_reason s)
     (if length d > max_reason_bytes then take max_reason_bytes d else d)"

definition code_to_string :: "Code \<Rightarrow> string" where
  "code_to_string c =
     (let index = code_value c in
      if index \<ge> length kCodeNames then ''invalid_code'' else kCodeNames ! index)"

definition reason_to_string :: "Reason \<Rightarrow> string" where
  "reason_to_string r =
     (let index = reason_value r in
      if index \<ge> length kReasonNames then ''invalid_reason'' else kReasonNames ! index)"

definition status_describe :: "Status \<Rightarrow> string" where
  "status_describe s =
     code_to_string (st_code s) @ '':'' @ reason_to_string (st_reason s) @
       (if st_detail s \<noteq> [] then '':'' @ st_detail s else [])"

definition max_reason_value :: nat where
  "max_reason_value = reason_value Reason_authority_fenced"

definition max_code_value :: nat where
  "max_code_value = code_value Code_table_full"

definition in_range :: "int \<Rightarrow> int \<Rightarrow> int \<Rightarrow> bool" where
  "in_range v lo hi \<longleftrightarrow> v \<ge> lo \<and> v \<le> hi"

lemma st_ok_simps [simp]:
  "st_ok ok_status" "st_ok (Status c r d) \<longleftrightarrow> c = Code_ok"
  by (simp_all add: st_ok_def ok_status_def)

section \<open>Facts\<close>

lemma max_values [simp]: "max_reason_value = 91" "max_code_value = 19"
  by (simp_all add: max_reason_value_def max_code_value_def)

lemma code_value_le: "code_value c \<le> max_code_value"
  using code_table_value [of c] by simp

lemma reason_value_le: "reason_value r \<le> max_reason_value"
  using reason_table_value [of r] by simp

lemma length_reason_table [simp]: "length reason_table = 92"
  by (simp add: reason_table_def)

lemma length_code_table [simp]: "length code_table = 20"
  by (simp add: code_table_def)

lemma reason_value_table: "n \<le> max_reason_value \<Longrightarrow> reason_value (reason_table ! n) = n"
proof -
  have "\<forall>n \<in> set [0..<92]. reason_value (reason_table ! n) = n"
    by (simp add: reason_table_def upt_rec)
  then show "n \<le> max_reason_value \<Longrightarrow> reason_value (reason_table ! n) = n" by simp
qed

lemma code_value_table: "n \<le> max_code_value \<Longrightarrow> code_value (code_table ! n) = n"
proof -
  have "\<forall>n \<in> set [0..<20]. code_value (code_table ! n) = n"
    by (simp add: code_table_def upt_rec)
  then show "n \<le> max_code_value \<Longrightarrow> code_value (code_table ! n) = n" by simp
qed

lemma distinct_kReasonNames: "distinct kReasonNames"
  by (simp add: kReasonNames_def)

lemma length_kReasonNames: "length kReasonNames = 92"
  by (simp add: kReasonNames_def)

lemma reason_to_string_inj: "reason_to_string r = reason_to_string s \<Longrightarrow> r = s"
  using reason_table_value [of r] reason_table_value [of s] distinct_kReasonNames
  by (simp add: reason_to_string_def length_kReasonNames Let_def nth_eq_iff_index_eq
      reason_value_inj)

end
