(* ===== verification/PFF_Checked.thy ===== *)
theory PFF_Checked
  imports PFF_Status
begin

text \<open>
  Identities (\<open>include/pff/ids.hpp\<close>), resource bounds (\<open>include/pff/limits.hpp\<close>) and checked
  integer arithmetic (\<open>include/pff/checked.hpp\<close>).

  An identity \<open>Id<Tag>\<close> is its 64-bit value; zero means absent. The C++ tags only keep
  identities of different kinds apart at compile time, so here they are type synonyms.

  The checked operations take and return \<open>i64\<close> words and give \<^const>\<open>None\<close> where the source
  returns \<open>false\<close>. They are shown to succeed exactly when the mathematical result fits a
  signed 64-bit integer, and then to return it.
\<close>

unbundle bit_operations_syntax

section \<open>Identities\<close>

type_synonym PathId = u64
type_synonym AlternateSetId = u64
type_synonym Generation = u64
type_synonym Epoch = u64
type_synonym BootId = u64
type_synonym AttemptId = u64
type_synonym EvidenceId = u64
type_synonym FenceId = u64
type_synonym DecisionId = u64
type_synonym SessionId = u64
type_synonym GrantId = u64
type_synonym IncarnationId = u64

definition valid :: "u64 \<Rightarrow> bool" where
  "valid i \<longleftrightarrow> i \<noteq> 0"

definition absent :: u64 where
  "absent = 0"

lemma valid_absent [simp]: "\<not> valid absent" "\<not> valid 0"
  by (simp_all add: valid_def absent_def)

section \<open>Bounds\<close>

definition max_candidates_per_set :: nat where "max_candidates_per_set = 4096"
definition max_alternate_sets :: nat where "max_alternate_sets = 64"
definition default_search_limit :: u32 where "default_search_limit = 4096"
definition max_search_limit :: u32 where "max_search_limit = 1048576"
definition max_fences :: nat where "max_fences = 4096"
definition max_lineage :: nat where "max_lineage = 4096"
definition max_attempts :: nat where "max_attempts = 1024"
definition max_assessments_reported :: nat where "max_assessments_reported = 4096"
definition max_indeterminate_reported :: nat where "max_indeterminate_reported = 256"
definition max_explanation_steps :: nat where "max_explanation_steps = 64"
definition max_name_bytes :: nat where "max_name_bytes = 96"
definition max_record_payload :: nat where "max_record_payload = 1048576"
definition max_journal_bytes :: nat where "max_journal_bytes = 67108864"
definition max_snapshot_bytes :: nat where "max_snapshot_bytes = 67108864"
definition max_snapshot_records :: nat where "max_snapshot_records = 100000"
definition max_frame_payload :: nat where "max_frame_payload = 1048576"
definition frame_header_bytes :: nat where "frame_header_bytes = 28"
definition frame_trailer_bytes :: nat where "frame_trailer_bytes = 4"
definition max_sessions :: nat where "max_sessions = 64"
definition default_max_requests_per_session :: u64 where
  "default_max_requests_per_session = 100000"
definition max_evidence_entries :: nat where "max_evidence_entries = 8192"
definition max_weight :: int where "max_weight = 1000000"
definition cost_scale :: int where "cost_scale = 1000000000"
definition rank_scale :: int where "rank_scale = 65535"
definition health_scale :: int where "health_scale = 1000000"

definition max_frame_bytes :: nat where
  "max_frame_bytes = frame_header_bytes + max_frame_payload + frame_trailer_bytes"

section \<open>Checked arithmetic\<close>

definition INT64_MAX :: int where "INT64_MAX = 2 ^ 63 - 1"
definition INT64_MIN :: int where "INT64_MIN = - (2 ^ 63)"
definition UINT64_MAX :: u64 where "UINT64_MAX = - 1"

definition checked_add :: "i64 \<Rightarrow> i64 \<Rightarrow> i64 option" where
  "checked_add a b =
     (if sint b > 0 \<and> sint a > INT64_MAX - sint b then None
      else if sint b < 0 \<and> sint a < INT64_MIN - sint b then None
      else Some (a + b))"

definition checked_sub :: "i64 \<Rightarrow> i64 \<Rightarrow> i64 option" where
  "checked_sub a b = (if sint b = INT64_MIN then None else checked_add a (- b))"

definition checked_mul :: "i64 \<Rightarrow> i64 \<Rightarrow> i64 option" where
  "checked_mul a b =
     (if sint a = 0 \<or> sint b = 0 then Some 0
      else
        let negative = ((sint a < 0) \<noteq> (sint b < 0));
            ua = (if sint a < 0 then 0 - a else a) :: u64;
            ub = (if sint b < 0 then 0 - b else b) :: u64;
            limit = (if negative then push_bit 63 1 else push_bit 63 1 - 1) :: u64
        in if ub > limit div ua then None
           else let ur = ua * ub in Some (if negative then 0 - ur else ur))"

definition clamp_i64 :: "int \<Rightarrow> int \<Rightarrow> int \<Rightarrow> int" where
  "clamp_i64 v lo hi = (if v < lo then lo else if v > hi then hi else v)"

definition checked_u32 :: "size_t \<Rightarrow> u32 option" where
  "checked_u32 v = (if v > 0xFFFFFFFF then None else Some (word_of_nat v))"

definition popcount :: "u32 \<Rightarrow> nat" where
  "popcount w = length (filter (bit w) [0..<32])"

section \<open>Range facts\<close>

lemmas int64_defs = INT64_MAX_def INT64_MIN_def

lemma sint_i64_bounds: "INT64_MIN \<le> sint (a :: i64)" "sint (a :: i64) \<le> INT64_MAX"
  using sint_range_size [of a] by (simp_all add: int64_defs word_size)

lemma sint_word_of_int_fits:
  "INT64_MIN \<le> k \<Longrightarrow> k \<le> INT64_MAX \<Longrightarrow> sint (word_of_int k :: i64) = k"
  by (simp add: int64_defs signed_of_int signed_take_bit_int_eq_self)

lemma i64_eqI: "sint (a :: i64) = sint b \<Longrightarrow> a = b"
  by (rule signed_word_eqI)

lemma checked_add_iff:
  "checked_add a b = Some c \<longleftrightarrow>
     INT64_MIN \<le> sint a + sint b \<and> sint a + sint b \<le> INT64_MAX \<and> sint c = sint a + sint b"
proof (cases "INT64_MIN \<le> sint a + sint b \<and> sint a + sint b \<le> INT64_MAX")
  case True
  then have "checked_add a b = Some (a + b)"
    by (auto simp: checked_add_def)
  moreover have "a + b = word_of_int (sint a + sint b)"
    by simp
  then have "sint (a + b) = sint a + sint b"
    using True sint_word_of_int_fits by metis
  ultimately show ?thesis using True by (auto intro: i64_eqI)
next
  case False
  then have "checked_add a b = None"
    using sint_i64_bounds [of a] by (auto simp: checked_add_def not_le int64_defs)
  with False show ?thesis by auto
qed

lemma uint_word_of_int_fits:
  "0 \<le> k \<Longrightarrow> k < 2 ^ 64 \<Longrightarrow> uint (word_of_int k :: u64) = k"
  by (simp add: unsigned_of_int take_bit_int_eq_self)

lemma uint_magnitude:
  "uint (if sint a < 0 then 0 - a else a :: i64) = \<bar>sint a\<bar>"
proof (cases "sint a < 0")
  case True
  have "uint (word_of_int (- sint a) :: u64) = - sint a"
    using True sint_i64_bounds [of a] by (intro uint_word_of_int_fits) (simp_all add: int64_defs)
  with True show ?thesis by simp
next
  case False
  have "uint (word_of_int (sint a) :: u64) = sint a"
    using False sint_i64_bounds [of a] by (intro uint_word_of_int_fits) (simp_all add: int64_defs)
  with False show ?thesis by simp
qed

text \<open>The source's guard \<open>ub > limit / ua\<close> is exactly \<open>ua * ub > limit\<close>.\<close>

lemma div_guard: "0 < (x :: int) \<Longrightarrow> L div x < y \<longleftrightarrow> L < x * y"
proof -
  assume x: "0 < x"
  have "(L + (- y) * x) div x = - y + L div x"
    by (rule div_mult_self1) (use x in simp)
  then have "L div x < y \<longleftrightarrow> (L + (- y) * x) div x < 0" by linarith
  also have "\<dots> \<longleftrightarrow> L < x * y"
    using pos_imp_zdiv_neg_iff [OF x, of "L + (- y) * x"] by (simp add: mult.commute)
  finally show ?thesis .
qed

lemma checked_mul_iff:
  "checked_mul a b = Some c \<longleftrightarrow>
     INT64_MIN \<le> sint a * sint b \<and> sint a * sint b \<le> INT64_MAX \<and> sint c = sint a * sint b"
proof (cases "sint a = 0 \<or> sint b = 0")
  case True
  then show ?thesis
    by (auto simp: checked_mul_def int64_defs intro: i64_eqI)
next
  case False
  define neg where "neg = ((sint a < 0) \<noteq> (sint b < 0))"
  define ua where "ua = (if sint a < 0 then 0 - a else a)"
  define ub where "ub = (if sint b < 0 then 0 - b else b)"
  define L :: u64 where "L = (if neg then push_bit 63 1 else push_bit 63 1 - 1)"
  define M where "M = \<bar>sint a\<bar> * \<bar>sint b\<bar>"
  have ua: "uint ua = \<bar>sint a\<bar>" and ub: "uint ub = \<bar>sint b\<bar>"
    unfolding ua_def ub_def by (rule uint_magnitude)+
  have L: "uint L = (if neg then 2 ^ 63 else 2 ^ 63 - 1)"
    by (simp add: L_def push_bit_eq_mult)
  have prod: "sint a * sint b = (if neg then - M else M)"
    using False by (auto simp: neg_def M_def abs_if)
  have Mpos: "0 < M" using False by (simp add: M_def)
  have guard: "ub > L div ua \<longleftrightarrow> uint L < M"
    using False by (simp add: word_less_def uint_div ua ub M_def div_guard)
  have res: "checked_mul a b =
      (if uint L < M then None else Some (if neg then 0 - ua * ub else ua * ub))"
    using False guard by (simp add: checked_mul_def Let_def neg_def ua_def ub_def L_def)
  show ?thesis
  proof (cases "uint L < M")
    case True
    with res prod L show ?thesis by (auto simp: int64_defs split: if_splits)
  next
    case fits: False
    have "ua * ub = word_of_int M"
      by (simp add: M_def wi_hom_mult flip: ua ub)
    then have "(if neg then 0 - ua * ub else ua * ub) = word_of_int (sint a * sint b)"
      by (simp add: prod)
    moreover have range: "INT64_MIN \<le> sint a * sint b" "sint a * sint b \<le> INT64_MAX"
      using fits L Mpos by (auto simp: prod int64_defs split: if_splits)
    ultimately have "checked_mul a b = Some (word_of_int (sint a * sint b))"
      using res fits by simp
    moreover have "sint (word_of_int (sint a * sint b) :: i64) = sint a * sint b"
      using range by (rule sint_word_of_int_fits)
    ultimately show ?thesis using range by (auto simp del: of_int_mult intro: i64_eqI)
  qed
qed

lemma checked_sub_iff:
  "checked_sub a b = Some c \<longleftrightarrow>
     sint b \<noteq> INT64_MIN \<and> INT64_MIN \<le> sint a - sint b \<and> sint a - sint b \<le> INT64_MAX \<and>
     sint c = sint a - sint b"
proof (cases "sint b = INT64_MIN")
  case True
  then show ?thesis by (simp add: checked_sub_def)
next
  case False
  have "sint (word_of_int (- sint b) :: i64) = - sint b"
    using False sint_i64_bounds [of b] by (intro sint_word_of_int_fits) (auto simp: int64_defs)
  then have "sint (- b) = - sint b" by simp
  with False show ?thesis by (simp add: checked_sub_def checked_add_iff)
qed

lemma clamp_i64_range: "lo \<le> hi \<Longrightarrow> lo \<le> clamp_i64 v lo hi \<and> clamp_i64 v lo hi \<le> hi"
  by (simp add: clamp_i64_def)

lemma popcount_le: "popcount w \<le> 32"
  unfolding popcount_def by (metis length_filter_le length_upt diff_zero)

end
