(* ===== verification/PFF_Model.thy ===== *)
theory PFF_Model
  imports PFF_Authority
begin

text \<open>
  The supplied inputs of a promotion decision: \<open>include/pff/model.hpp\<close> and
  \<open>src/model.cpp\<close>. Structs are records whose fields carry a struct prefix (\<open>pe_\<close> evidence,
  \<open>ee_\<close> effect evidence, \<open>so_\<close> obligations, \<open>fp_\<close> policy, \<open>sc_\<close> score terms, \<open>ca_\<close> candidate,
  \<open>as_\<close> alternate set, \<open>pr_\<close> request); the \<open>validate\<close> members are the \<open>validate_*\<close> functions
  and return the source's status, detail text included.

  Shown: what each validation accepts; that the objective of a validated policy never
  overflows and is the documented integer formula.
\<close>

unbundle bit_operations_syntax

section \<open>Enumerations\<close>

datatype Provenance = Provenance_real | Provenance_synthetic | Provenance_unsupported
datatype Freshness = Freshness_fresh | Freshness_stale | Freshness_unknown
datatype Eligibility = Eligibility_eligible | Eligibility_ineligible | Eligibility_unknown
datatype Reachability =
  Reachability_reachable | Reachability_unreachable | Reachability_unknown
datatype CapacityClass =
  CapacityClass_sufficient | CapacityClass_insufficient | CapacityClass_unknown
datatype SetCompleteness =
  SetCompleteness_complete | SetCompleteness_partial | SetCompleteness_unknown
datatype IncumbentCondition =
  IncumbentCondition_failed | IncumbentCondition_invalidated | IncumbentCondition_degraded

primrec provenance_value :: "Provenance \<Rightarrow> nat" where
  "provenance_value Provenance_real = 0"
| "provenance_value Provenance_synthetic = 1"
| "provenance_value Provenance_unsupported = 2"

definition weakest :: "Provenance \<Rightarrow> Provenance \<Rightarrow> Provenance" where
  "weakest a b = (if provenance_value a \<ge> provenance_value b then a else b)"

primrec provenance_to_string :: "Provenance \<Rightarrow> string" where
  "provenance_to_string Provenance_real = ''REAL''"
| "provenance_to_string Provenance_synthetic = ''SYNTHETIC''"
| "provenance_to_string Provenance_unsupported = ''UNSUPPORTED''"

primrec freshness_to_string :: "Freshness \<Rightarrow> string" where
  "freshness_to_string Freshness_fresh = ''FRESH''"
| "freshness_to_string Freshness_stale = ''STALE''"
| "freshness_to_string Freshness_unknown = ''UNKNOWN''"

primrec eligibility_to_string :: "Eligibility \<Rightarrow> string" where
  "eligibility_to_string Eligibility_eligible = ''ELIGIBLE''"
| "eligibility_to_string Eligibility_ineligible = ''INELIGIBLE''"
| "eligibility_to_string Eligibility_unknown = ''UNKNOWN''"

primrec reachability_to_string :: "Reachability \<Rightarrow> string" where
  "reachability_to_string Reachability_reachable = ''REACHABLE''"
| "reachability_to_string Reachability_unreachable = ''UNREACHABLE''"
| "reachability_to_string Reachability_unknown = ''UNKNOWN''"

primrec capacity_to_string :: "CapacityClass \<Rightarrow> string" where
  "capacity_to_string CapacityClass_sufficient = ''SUFFICIENT''"
| "capacity_to_string CapacityClass_insufficient = ''INSUFFICIENT''"
| "capacity_to_string CapacityClass_unknown = ''UNKNOWN''"

primrec completeness_to_string :: "SetCompleteness \<Rightarrow> string" where
  "completeness_to_string SetCompleteness_complete = ''COMPLETE''"
| "completeness_to_string SetCompleteness_partial = ''PARTIAL''"
| "completeness_to_string SetCompleteness_unknown = ''UNKNOWN''"

primrec condition_to_string :: "IncumbentCondition \<Rightarrow> string" where
  "condition_to_string IncumbentCondition_failed = ''FAILED''"
| "condition_to_string IncumbentCondition_invalidated = ''INVALIDATED''"
| "condition_to_string IncumbentCondition_degraded = ''DEGRADED''"

section \<open>Structs\<close>

type_synonym CapabilityMask = u32

record PathEvidence =
  pe_id :: EvidenceId
  pe_path :: PathId
  pe_freshness :: Freshness
  pe_eligibility :: Eligibility
  pe_reachability :: Reachability
  pe_capacity :: CapacityClass
  pe_capabilities :: CapabilityMask
  pe_health_ppm :: i64
  pe_cost_units :: i64
  pe_observation_seq :: u64
  pe_observed_under :: AuthorityVector
  pe_provenance :: Provenance

record EffectEvidence =
  ee_id :: EvidenceId
  ee_path :: PathId
  ee_observation_seq :: u64
  ee_effect_verified :: bool
  ee_observed_under :: AuthorityVector
  ee_provenance :: Provenance

record ServiceObligations =
  so_generation :: Generation
  so_required_capabilities :: CapabilityMask
  so_min_health_ppm :: i64
  so_max_cost_units :: i64
  so_require_reachable :: bool
  so_require_capacity :: bool
  so_require_fresh_evidence :: bool

record FailoverPolicy =
  fp_generation :: Generation
  fp_w_health :: i64
  fp_w_cost :: i64
  fp_w_rank :: i64
  fp_w_capability :: i64
  fp_min_score :: i64
  fp_search_limit :: u32
  fp_max_retained_attempts :: u32
  fp_max_revalidations :: u32
  fp_allow_unknown_skip :: bool
  fp_require_verified_effect :: bool

record ScoreTerms =
  sc_health :: i64
  sc_cost :: i64
  sc_rank :: i64
  sc_capability :: i64
  sc_total :: i64

record AlternateCandidate =
  ca_path :: PathId
  ca_upstream_rank :: u32
  ca_withdrawn :: bool
  ca_evidence :: PathEvidence
  ca_authority :: AuthorityVector

record AlternateSet =
  as_id :: AlternateSetId
  as_generation :: Generation
  as_completeness :: SetCompleteness
  as_candidates :: "AlternateCandidate list"

record PromotionRequest =
  pr_incumbent :: PathId
  pr_condition :: IncumbentCondition
  pr_set :: AlternateSetId
  pr_set_generation :: Generation
  pr_policy_generation :: Generation
  pr_obligations_generation :: Generation
  pr_topology_generation :: Generation
  pr_path_authority_generation :: Generation
  pr_epoch :: Epoch
  pr_boot :: BootId
  pr_attempt :: AttemptId

definition request_basis :: "PromotionRequest \<Rightarrow> AuthorityVector" where
  "request_basis r =
     \<lparr>av_topology = pr_topology_generation r,
      av_path_authority = pr_path_authority_generation r,
      av_policy = pr_policy_generation r, av_obligations = pr_obligations_generation r,
      av_epoch = pr_epoch r, av_boot = pr_boot r\<rparr>"

text \<open>Member initialisers of the structs that the code default-constructs.\<close>

definition default_obligations :: ServiceObligations where
  "default_obligations =
     \<lparr>so_generation = 0, so_required_capabilities = 0, so_min_health_ppm = 0,
      so_max_cost_units = word_of_int cost_scale, so_require_reachable = True,
      so_require_capacity = True, so_require_fresh_evidence = True\<rparr>"

definition default_policy :: FailoverPolicy where
  "default_policy =
     \<lparr>fp_generation = 0, fp_w_health = 1, fp_w_cost = 1, fp_w_rank = 1, fp_w_capability = 1,
      fp_min_score = 0, fp_search_limit = default_search_limit,
      fp_max_retained_attempts = 256, fp_max_revalidations = 4,
      fp_allow_unknown_skip = False, fp_require_verified_effect = True\<rparr>"

definition zero_terms :: ScoreTerms where
  "zero_terms = \<lparr>sc_health = 0, sc_cost = 0, sc_rank = 0, sc_capability = 0, sc_total = 0\<rparr>"

section \<open>Validation\<close>

definition validate_evidence :: "PathEvidence \<Rightarrow> Status" where
  "validate_evidence e =
     (if \<not> valid (pe_path e) then
        Status Code_invalid Reason_domain_invalid ''evidence path identity absent''
      else if \<not> in_range (sint (pe_health_ppm e)) 0 health_scale then
        Status Code_invalid Reason_domain_invalid ''health_ppm out of range''
      else if \<not> in_range (sint (pe_cost_units e)) 0 cost_scale then
        Status Code_invalid Reason_domain_invalid ''cost_units out of range''
      else ok_status)"

definition validate_effect :: "EffectEvidence \<Rightarrow> Status" where
  "validate_effect e =
     (if \<not> valid (ee_path e) then
        Status Code_invalid Reason_domain_invalid ''effect path identity absent''
      else if \<not> ee_effect_verified e then
        Status Code_invalid Reason_effect_unverified
          ''effect evidence must be verified by an external observer''
      else ok_status)"

definition validate_obligations :: "ServiceObligations \<Rightarrow> Status" where
  "validate_obligations ob =
     (if \<not> valid (so_generation ob) then
        Status Code_invalid Reason_obligations_invalid ''obligations generation absent''
      else if \<not> in_range (sint (so_min_health_ppm ob)) 0 health_scale then
        Status Code_invalid Reason_obligations_invalid ''min_health_ppm out of range''
      else if \<not> in_range (sint (so_max_cost_units ob)) 0 cost_scale then
        Status Code_invalid Reason_obligations_invalid ''max_cost_units out of range''
      else ok_status)"

definition policy_weights :: "FailoverPolicy \<Rightarrow> i64 list" where
  "policy_weights p = [fp_w_health p, fp_w_cost p, fp_w_rank p, fp_w_capability p]"

definition validate_policy :: "FailoverPolicy \<Rightarrow> Status" where
  "validate_policy p =
     (if \<not> valid (fp_generation p) then
        Status Code_invalid Reason_policy_invalid ''policy generation absent''
      else if list_ex (\<lambda>w. sint w < - max_weight \<or> sint w > max_weight) (policy_weights p) then
        Status Code_invalid Reason_policy_invalid ''policy weight out of range''
      else if fp_search_limit p = 0 \<or> fp_search_limit p > max_search_limit then
        Status Code_invalid Reason_policy_invalid ''search_limit out of range''
      else if fp_max_retained_attempts p = 0 \<or>
              unat (fp_max_retained_attempts p) > max_attempts then
        Status Code_invalid Reason_policy_invalid ''max_retained_attempts out of range''
      else if fp_max_revalidations p > 1024 then
        Status Code_invalid Reason_policy_invalid ''max_revalidations out of range''
      else if sint (fp_min_score p) < - (INT64_MAX div 4) \<or>
              sint (fp_min_score p) > INT64_MAX div 4 then
        Status Code_invalid Reason_policy_invalid ''min_score out of range''
      else ok_status)"

definition validate_candidate :: "AlternateCandidate \<Rightarrow> Status" where
  "validate_candidate c =
     (if \<not> valid (ca_path c) then
        Status Code_invalid Reason_domain_invalid ''candidate path identity absent''
      else if ca_upstream_rank c > word_of_int rank_scale then
        Status Code_invalid Reason_rank_out_of_range ''upstream rank out of range''
      else if pe_path (ca_evidence c) \<noteq> ca_path c then
        Status Code_invalid Reason_domain_invalid
          ''candidate evidence does not belong to the candidate path''
      else validate_evidence (ca_evidence c))"

primrec validate_candidates :: "AlternateCandidate list \<Rightarrow> Status" where
  "validate_candidates [] = ok_status"
| "validate_candidates (c # cs) =
     (let status = validate_candidate c in
      if \<not> st_ok status then status else validate_candidates cs)"

primrec duplicate_member :: "AlternateCandidate list \<Rightarrow> bool" where
  "duplicate_member [] = False"
| "duplicate_member (c # cs) =
     (list_ex (\<lambda>d. ca_path c = ca_path d) cs \<or> duplicate_member cs)"

definition validate_set :: "AlternateSet \<Rightarrow> Status" where
  "validate_set s =
     (if \<not> valid (as_id s) then
        Status Code_invalid Reason_domain_invalid ''alternate set identity absent''
      else if \<not> valid (as_generation s) then
        Status Code_invalid Reason_domain_invalid ''alternate set generation absent''
      else if length (as_candidates s) > max_candidates_per_set then
        Status Code_invalid Reason_candidates_too_many ''alternate set exceeds bound''
      else
        let status = validate_candidates (as_candidates s) in
        if \<not> st_ok status then status
        else if duplicate_member (as_candidates s) then
          Status Code_invalid Reason_duplicate_path ''duplicate candidate path''
        else ok_status)"

section \<open>Objective\<close>

definition compute_score ::
  "FailoverPolicy \<Rightarrow> ServiceObligations \<Rightarrow> PathEvidence \<Rightarrow> u32 \<Rightarrow> ScoreTerms Result" where
  "compute_score p ob e upstream_rank =
     (let health = clamp_i64 (sint (pe_health_ppm e)) 0 health_scale;
          cost = clamp_i64 (sint (pe_cost_units e)) 0 cost_scale;
          rank = clamp_i64 (uint upstream_rank) 0 rank_scale;
          capability = int (popcount (pe_capabilities e AND so_required_capabilities ob))
      in case (checked_mul (fp_w_health p) (word_of_int health),
               checked_mul (fp_w_cost p) (word_of_int (cost_scale - cost)),
               checked_mul (fp_w_rank p) (word_of_int (rank_scale - rank)),
               checked_mul (fp_w_capability p) (word_of_int capability)) of
           (Some th, Some tc, Some tr, Some tk) \<Rightarrow>
             (case Option.bind (checked_add th tc)
                (\<lambda>tot. Option.bind (checked_add tot tr)
                (\<lambda>tot. checked_add tot tk)) of
                Some tot \<Rightarrow>
                  Inr \<lparr>sc_health = th, sc_cost = tc, sc_rank = tr, sc_capability = tk,
                       sc_total = tot\<rparr>
              | None \<Rightarrow> Inl (Status Code_invalid Reason_score_overflow ''objective total overflow''))
         | _ \<Rightarrow> Inl (Status Code_invalid Reason_score_overflow ''objective term overflow''))"

section \<open>Facts\<close>

subsection \<open>What validation accepts\<close>

lemma validate_evidence_ok [validation]:
  "st_ok (validate_evidence e) \<longleftrightarrow>
     valid (pe_path e) \<and> 0 \<le> sint (pe_health_ppm e) \<and> sint (pe_health_ppm e) \<le> health_scale \<and>
     0 \<le> sint (pe_cost_units e) \<and> sint (pe_cost_units e) \<le> cost_scale"
  by (auto simp: validate_evidence_def in_range_def)

lemma validate_effect_ok [validation]:
  "st_ok (validate_effect e) \<longleftrightarrow> valid (ee_path e) \<and> ee_effect_verified e"
  by (simp add: validate_effect_def)

lemma validate_obligations_ok [validation]:
  "st_ok (validate_obligations ob) \<longleftrightarrow>
     valid (so_generation ob) \<and>
     0 \<le> sint (so_min_health_ppm ob) \<and> sint (so_min_health_ppm ob) \<le> health_scale \<and>
     0 \<le> sint (so_max_cost_units ob) \<and> sint (so_max_cost_units ob) \<le> cost_scale"
  by (auto simp: validate_obligations_def in_range_def)

lemma validate_policy_ok [validation]:
  "st_ok (validate_policy p) \<longleftrightarrow>
     valid (fp_generation p) \<and>
     (\<forall>w \<in> set (policy_weights p). - max_weight \<le> sint w \<and> sint w \<le> max_weight) \<and>
     fp_search_limit p \<noteq> 0 \<and> fp_search_limit p \<le> max_search_limit \<and>
     fp_max_retained_attempts p \<noteq> 0 \<and> unat (fp_max_retained_attempts p) \<le> max_attempts \<and>
     fp_max_revalidations p \<le> 1024 \<and>
     - (INT64_MAX div 4) \<le> sint (fp_min_score p) \<and> sint (fp_min_score p) \<le> INT64_MAX div 4"
  by (auto simp: validate_policy_def list_ex_iff not_less not_le)

lemma validate_candidate_ok [validation]:
  "st_ok (validate_candidate c) \<longleftrightarrow>
     valid (ca_path c) \<and> uint (ca_upstream_rank c) \<le> rank_scale \<and>
     pe_path (ca_evidence c) = ca_path c \<and> st_ok (validate_evidence (ca_evidence c))"
  by (simp add: validate_candidate_def rank_scale_def word_less_def not_less)

lemma validate_candidates_ok [validation]:
  "st_ok (validate_candidates cs) \<longleftrightarrow> (\<forall>c \<in> set cs. st_ok (validate_candidate c))"
  by (induction cs) (auto simp: Let_def)

lemma duplicate_member_iff: "duplicate_member cs \<longleftrightarrow> \<not> distinct (map ca_path cs)"
  by (induction cs) (auto simp: list_ex_iff)

lemma validate_set_ok [validation]:
  "st_ok (validate_set s) \<longleftrightarrow>
     valid (as_id s) \<and> valid (as_generation s) \<and>
     length (as_candidates s) \<le> max_candidates_per_set \<and>
     (\<forall>c \<in> set (as_candidates s). st_ok (validate_candidate c)) \<and>
     distinct (map ca_path (as_candidates s))"
  by (auto simp: validate_set_def Let_def validate_candidates_ok duplicate_member_iff not_less)

subsection \<open>The objective of a validated policy\<close>

definition objective :: "FailoverPolicy \<Rightarrow> ServiceObligations \<Rightarrow> PathEvidence \<Rightarrow> u32 \<Rightarrow> int" where
  "objective p ob e rank =
     sint (fp_w_health p) * clamp_i64 (sint (pe_health_ppm e)) 0 health_scale +
     sint (fp_w_cost p) * (cost_scale - clamp_i64 (sint (pe_cost_units e)) 0 cost_scale) +
     sint (fp_w_rank p) * (rank_scale - clamp_i64 (uint rank) 0 rank_scale) +
     sint (fp_w_capability p) * int (popcount (pe_capabilities e AND so_required_capabilities ob))"

text \<open>A weighted term with a bounded weight and a bounded non-negative quantity fits.\<close>

lemma checked_term:
  assumes w: "- max_weight \<le> sint w" "sint w \<le> max_weight" and q: "0 \<le> q" "q \<le> cost_scale"
  obtains t where "checked_mul w (word_of_int q) = Some t" "sint t = sint w * q"
    "\<bar>sint w * q\<bar> \<le> max_weight * q"
proof -
  have q': "sint (word_of_int q :: i64) = q"
    using q by (intro sint_word_of_int_fits) (simp_all add: int64_defs cost_scale_def)
  have b: "\<bar>sint w * q\<bar> \<le> max_weight * q"
    using w q by (auto simp: abs_mult intro!: mult_right_mono)
  also have "\<dots> \<le> max_weight * cost_scale"
    using q by (intro mult_left_mono) (simp_all add: max_weight_def)
  finally have "\<bar>sint w * q\<bar> \<le> 1000000000000000"
    by (simp add: max_weight_def cost_scale_def)
  then have r: "INT64_MIN \<le> sint w * q" "sint w * q \<le> INT64_MAX"
    by (simp_all add: int64_defs)
  then have "checked_mul w (word_of_int q) = Some (word_of_int (sint w * q))"
    unfolding checked_mul_iff q' by (simp only: sint_word_of_int_fits)
  moreover have "sint (word_of_int (sint w * q) :: i64) = sint w * q"
    using r by (rule sint_word_of_int_fits)
  ultimately show thesis using b that by blast
qed

lemma checked_add_small:
  assumes "\<bar>sint a\<bar> \<le> A" "\<bar>sint b\<bar> \<le> B" "A + B \<le> INT64_MAX"
  obtains c where "checked_add a b = Some c" "sint c = sint a + sint b" "\<bar>sint c\<bar> \<le> A + B"
proof -
  have r: "INT64_MIN \<le> sint a + sint b" "sint a + sint b \<le> INT64_MAX"
    using assms by (auto simp: int64_defs abs_le_iff)
  then have "sint (word_of_int (sint a + sint b) :: i64) = sint a + sint b"
    by (rule sint_word_of_int_fits)
  with r have "checked_add a b = Some (word_of_int (sint a + sint b))"
    by (simp only: checked_add_iff)
  with \<open>sint (word_of_int _ :: i64) = _\<close> assms(1,2) that show thesis
    by (metis abs_triangle_ineq add_mono order_trans)
qed

lemma compute_score_valid:
  assumes "st_ok (validate_policy p)"
  obtains terms where "compute_score p ob e rank = Inr terms"
    "sint (sc_total terms) = objective p ob e rank"
    "sint (sc_total terms) = sint (sc_health terms) + sint (sc_cost terms) +
       sint (sc_rank terms) + sint (sc_capability terms)"
proof -
  note w = assms [unfolded validate_policy_ok policy_weights_def, simplified]
  define h where "h = clamp_i64 (sint (pe_health_ppm e)) 0 health_scale"
  define c where "c = cost_scale - clamp_i64 (sint (pe_cost_units e)) 0 cost_scale"
  define r where "r = rank_scale - clamp_i64 (uint rank) 0 rank_scale"
  define k where "k = int (popcount (pe_capabilities e AND so_required_capabilities ob))"
  note scales = health_scale_def cost_scale_def rank_scale_def max_weight_def
  have h: "0 \<le> h" "h \<le> health_scale" and c: "0 \<le> c" "c \<le> cost_scale"
    and r: "0 \<le> r" "r \<le> rank_scale" and k: "0 \<le> k" "k \<le> 32"
    using popcount_le by (auto simp: h_def c_def r_def k_def clamp_i64_def scales)
  obtain th where th: "checked_mul (fp_w_health p) (word_of_int h) = Some th"
    "sint th = sint (fp_w_health p) * h" "\<bar>sint (fp_w_health p) * h\<bar> \<le> max_weight * h"
    using checked_term [of "fp_w_health p" h] w h by (auto simp: scales)
  obtain tc where tc: "checked_mul (fp_w_cost p) (word_of_int c) = Some tc"
    "sint tc = sint (fp_w_cost p) * c" "\<bar>sint (fp_w_cost p) * c\<bar> \<le> max_weight * c"
    using checked_term [of "fp_w_cost p" c] w c by auto
  obtain tr where tr: "checked_mul (fp_w_rank p) (word_of_int r) = Some tr"
    "sint tr = sint (fp_w_rank p) * r" "\<bar>sint (fp_w_rank p) * r\<bar> \<le> max_weight * r"
    using checked_term [of "fp_w_rank p" r] w r by (auto simp: scales)
  obtain tk where tk: "checked_mul (fp_w_capability p) (word_of_int k) = Some tk"
    "sint tk = sint (fp_w_capability p) * k" "\<bar>sint (fp_w_capability p) * k\<bar> \<le> max_weight * k"
    using checked_term [of "fp_w_capability p" k] w k by (auto simp: scales)
  have b: "\<bar>sint th\<bar> \<le> 1000000000000" "\<bar>sint tc\<bar> \<le> 1000000000000000"
    "\<bar>sint tr\<bar> \<le> 65535000000" "\<bar>sint tk\<bar> \<le> 32000000"
    using th tc tr tk h c r k by (auto simp: scales)
  obtain t1 where t1: "checked_add th tc = Some t1" "sint t1 = sint th + sint tc"
    "\<bar>sint t1\<bar> \<le> 1001000000000000"
    using checked_add_small [OF b(1,2)] by (auto simp: int64_defs)
  obtain t2 where t2: "checked_add t1 tr = Some t2" "sint t2 = sint t1 + sint tr"
    "\<bar>sint t2\<bar> \<le> 1001065535000000"
    using checked_add_small [OF t1(3) b(3)] by (auto simp: int64_defs)
  obtain t3 where t3: "checked_add t2 tk = Some t3" "sint t3 = sint t2 + sint tk"
    using checked_add_small [OF t2(3) b(4)] by (auto simp: int64_defs)
  have sc: "compute_score p ob e rank =
      Inr \<lparr>sc_health = th, sc_cost = tc, sc_rank = tr, sc_capability = tk, sc_total = t3\<rparr>"
    using th(1) tc(1) tr(1) tk(1) t1(1) t2(1) t3(1)
    by (simp add: compute_score_def Let_def del: of_int_diff flip: h_def c_def r_def k_def)
  have obj: "sint t3 = objective p ob e rank"
    using th tc tr tk t1 t2 t3 by (simp add: objective_def h_def c_def r_def k_def)
  show thesis by (rule that [OF sc]) (use obj t1(2) t2(2) t3(2) in simp_all)
qed

end
