(* ===== verification/PFF_Records.thy ===== *)
theory PFF_Records
  imports PFF_Decision
begin

text \<open>
  Durable record shapes: \<open>include/pff/records.hpp\<close> and \<open>src/records.cpp\<close>. Prefixes:
  \<open>ar_\<close> attempt, \<open>fr_\<close> fence, \<open>li_\<close> lineage entry, \<open>ds_\<close> durable state, \<open>fi_\<close> identity,
  \<open>fs_\<close> statistics, \<open>rr_\<close> recovery report.
\<close>

datatype AttemptState =
    AttemptState_claimed
  | AttemptState_authorized
  | AttemptState_effect_recorded
  | AttemptState_committed
  | AttemptState_refused
  | AttemptState_fenced
  | AttemptState_superseded
  | AttemptState_abandoned
  | AttemptState_rolled_back
  | AttemptState_interrupted

primrec attempt_state_to_string :: "AttemptState \<Rightarrow> string" where
  "attempt_state_to_string AttemptState_claimed = ''CLAIMED''"
| "attempt_state_to_string AttemptState_authorized = ''AUTHORIZED''"
| "attempt_state_to_string AttemptState_effect_recorded = ''EFFECT_RECORDED''"
| "attempt_state_to_string AttemptState_committed = ''COMMITTED''"
| "attempt_state_to_string AttemptState_refused = ''REFUSED''"
| "attempt_state_to_string AttemptState_fenced = ''FENCED''"
| "attempt_state_to_string AttemptState_superseded = ''SUPERSEDED''"
| "attempt_state_to_string AttemptState_abandoned = ''ABANDONED''"
| "attempt_state_to_string AttemptState_rolled_back = ''ROLLED_BACK''"
| "attempt_state_to_string AttemptState_interrupted = ''INTERRUPTED''"

primrec is_terminal_state :: "AttemptState \<Rightarrow> bool" where
  "is_terminal_state AttemptState_claimed = False"
| "is_terminal_state AttemptState_authorized = False"
| "is_terminal_state AttemptState_effect_recorded = False"
| "is_terminal_state AttemptState_committed = True"
| "is_terminal_state AttemptState_refused = True"
| "is_terminal_state AttemptState_fenced = True"
| "is_terminal_state AttemptState_superseded = True"
| "is_terminal_state AttemptState_abandoned = True"
| "is_terminal_state AttemptState_rolled_back = True"
| "is_terminal_state AttemptState_interrupted = True"

definition is_active_state :: "AttemptState \<Rightarrow> bool" where
  "is_active_state s \<longleftrightarrow> \<not> is_terminal_state s"

definition is_grant_state :: "AttemptState \<Rightarrow> bool" where
  "is_grant_state s \<longleftrightarrow> s = AttemptState_authorized \<or> s = AttemptState_effect_recorded"

record AttemptRecord =
  ar_id :: AttemptId
  ar_epoch :: Epoch
  ar_boot :: BootId
  ar_incumbent :: PathId
  ar_selected :: PathId
  ar_set :: AlternateSetId
  ar_set_generation :: Generation
  ar_basis :: AuthorityVector
  ar_state :: AttemptState
  ar_terminal_reason :: Reason
  ar_begin_sequence :: u64
  ar_terminal_sequence :: u64
  ar_revalidations :: u32

record FenceRecord =
  fr_id :: FenceId
  fr_epoch :: Epoch
  fr_boot :: BootId
  fr_attempt :: AttemptId
  fr_path :: PathId
  fr_reason :: Reason
  fr_at :: AuthorityVector
  fr_sequence :: u64

record LineageEntry =
  li_decision :: DecisionId
  li_attempt :: AttemptId
  li_epoch :: Epoch
  li_boot :: BootId
  li_outcome :: PromotionOutcome
  li_incumbent :: PathId
  li_selected :: PathId
  li_set :: AlternateSetId
  li_basis :: AuthorityVector
  li_reason :: Reason
  li_sequence :: u64

record DurableState =
  ds_authority :: AuthorityVector
  ds_has_policy :: bool
  ds_policy :: FailoverPolicy
  ds_has_obligations :: bool
  ds_obligations :: ServiceObligations
  ds_sets :: "AlternateSet list"
  ds_fences :: "FenceRecord list"
  ds_attempts :: "AttemptRecord list"
  ds_lineage :: "LineageEntry list"
  ds_attempt_sequence :: u64
  ds_fence_sequence :: u64
  ds_decision_sequence :: u64
  ds_last_sequence :: u64
  ds_restart_count :: u64
  ds_lineage_truncated :: bool
  ds_fence_overflow :: u64
  ds_attempts_dropped :: u64

definition empty_state :: DurableState where
  "empty_state =
     \<lparr>ds_authority = av_absent, ds_has_policy = False, ds_policy = default_policy,
      ds_has_obligations = False, ds_obligations = default_obligations, ds_sets = [],
      ds_fences = [], ds_attempts = [], ds_lineage = [], ds_attempt_sequence = 0,
      ds_fence_sequence = 0, ds_decision_sequence = 0, ds_last_sequence = 0,
      ds_restart_count = 0, ds_lineage_truncated = False, ds_fence_overflow = 0,
      ds_attempts_dropped = 0\<rparr>"

record FabricIdentity =
  fi_incarnation :: IncarnationId
  fi_boot :: BootId
  fi_epoch :: Epoch
  fi_process_id :: u64
  fi_start_unix_micros :: u64
  fi_restart_count :: u64

record FabricStats =
  fs_promotions_authorized :: u64
  fs_promotions_committed :: u64
  fs_promotions_refused :: u64
  fs_promotions_indeterminate :: u64
  fs_fences_recorded :: u64
  fs_stale_completions_rejected :: u64
  fs_rollbacks :: u64
  fs_reversions :: u64
  fs_revalidations :: u64
  fs_journal_records :: u64
  fs_snapshots_written :: u64
  fs_restarts :: u64
  fs_evidence_accepted :: u64
  fs_evidence_rejected :: u64
  fs_attempts_dropped :: u64

definition zero_fabric_stats :: FabricStats where
  "zero_fabric_stats =
     \<lparr>fs_promotions_authorized = 0, fs_promotions_committed = 0, fs_promotions_refused = 0,
      fs_promotions_indeterminate = 0, fs_fences_recorded = 0, fs_stale_completions_rejected = 0,
      fs_rollbacks = 0, fs_reversions = 0, fs_revalidations = 0, fs_journal_records = 0,
      fs_snapshots_written = 0, fs_restarts = 0, fs_evidence_accepted = 0,
      fs_evidence_rejected = 0, fs_attempts_dropped = 0\<rparr>"

record RecoveryReport =
  rr_snapshot_loaded :: bool
  rr_snapshot_sequence :: u64
  rr_records_replayed :: size_t
  rr_records_skipped :: size_t
  rr_torn_tail_present :: bool
  rr_torn_tail_recovered :: bool
  rr_truncated_bytes :: u64
  rr_inspection_only :: bool
  rr_journal_absent :: bool
  rr_journal_bytes :: u64

definition empty_report :: RecoveryReport where
  "empty_report =
     \<lparr>rr_snapshot_loaded = False, rr_snapshot_sequence = 0, rr_records_replayed = 0,
      rr_records_skipped = 0, rr_torn_tail_present = False, rr_torn_tail_recovered = False,
      rr_truncated_bytes = 0, rr_inspection_only = False, rr_journal_absent = False,
      rr_journal_bytes = 0\<rparr>"

section \<open>Facts\<close>

lemma active_not_terminal [simp]:
  "is_active_state AttemptState_claimed" "is_active_state AttemptState_authorized"
  "is_active_state AttemptState_effect_recorded" "\<not> is_active_state AttemptState_committed"
  "\<not> is_active_state AttemptState_refused" "\<not> is_active_state AttemptState_fenced"
  "\<not> is_active_state AttemptState_superseded" "\<not> is_active_state AttemptState_abandoned"
  "\<not> is_active_state AttemptState_rolled_back" "\<not> is_active_state AttemptState_interrupted"
  by (simp_all add: is_active_state_def)

lemma grant_active: "is_grant_state s \<Longrightarrow> is_active_state s"
  by (auto simp: is_grant_state_def)

lemma attempt_state_to_string_inj: "attempt_state_to_string a = attempt_state_to_string b \<Longrightarrow> a = b"
  by (cases a; cases b; simp)

end
