(* ===== verification/PFF_Canonical.thy ===== *)
theory PFF_Canonical
  imports PFF_Checked "HOL-Library.State_Monad"
begin

text \<open>
  The canonical byte encoding: \<open>include/pff/canonical.hpp\<close> and \<open>src/canonical.cpp\<close>.

  A \<open>ByteWriter\<close> is its buffer, its size bound and its sticky status; a \<open>ByteReader\<close> is the
  data, the offset and its sticky status. Writer operations are functions on the writer, reader
  operations are state-monad computations on the reader, so that a decoder reads like the
  source: a sequence of reads, each of which does nothing once the reader has failed.

  Shown: the little-endian encodings invert each other; \<open>writes\<close> and \<open>reads\<close> state what a
  writer appends and what a reader consumes and are preserved by sequencing, which is what the
  codecs of the domain values rest on.
\<close>

unbundle bit_operations_syntax

section \<open>Little-endian integers\<close>

definition append_u16 :: "byte list \<Rightarrow> u16 \<Rightarrow> byte list" where
  "append_u16 out value = out @ [ucast (value AND 0xFF), ucast (drop_bit 8 value AND 0xFF)]"

definition append_u32 :: "byte list \<Rightarrow> u32 \<Rightarrow> byte list" where
  "append_u32 out value =
     foldl (\<lambda>o1 shift. o1 @ [ucast (drop_bit shift value AND 0xFF)]) out [0, 8, 16, 24]"

definition append_u64 :: "byte list \<Rightarrow> u64 \<Rightarrow> byte list" where
  "append_u64 out value =
     foldl (\<lambda>o1 shift. o1 @ [ucast (drop_bit shift value AND 0xFF)]) out
       [0, 8, 16, 24, 32, 40, 48, 56]"

definition read_u16_at :: "byte list \<Rightarrow> size_t \<Rightarrow> u16" where
  "read_u16_at data offset = ucast (data ! offset) OR push_bit 8 (ucast (data ! (offset + 1)))"

definition read_u32_at :: "byte list \<Rightarrow> size_t \<Rightarrow> u32" where
  "read_u32_at data offset =
     foldl (\<lambda>value i. value OR push_bit (8 * i) (ucast (data ! (offset + i)))) 0 [0, 1, 2, 3]"

definition read_u64_at :: "byte list \<Rightarrow> size_t \<Rightarrow> u64" where
  "read_u64_at data offset =
     foldl (\<lambda>value i. value OR push_bit (8 * i) (ucast (data ! (offset + i)))) 0
       [0, 1, 2, 3, 4, 5, 6, 7]"

section \<open>Writer\<close>

record ByteWriter =
  bw_buffer :: "byte list"
  bw_max_size :: size_t
  bw_status :: Status

definition byte_writer :: "size_t \<Rightarrow> ByteWriter" where
  "byte_writer max_size = \<lparr>bw_buffer = [], bw_max_size = max_size, bw_status = ok_status\<rparr>"

definition bw_ok :: "ByteWriter \<Rightarrow> bool" where
  "bw_ok w = st_ok (bw_status w)"

definition w_fail :: "Code \<Rightarrow> Reason \<Rightarrow> ByteWriter \<Rightarrow> ByteWriter" where
  "w_fail code reason w = (if bw_ok w then w\<lparr>bw_status := Status code reason []\<rparr> else w)"

definition w_u8 :: "u8 \<Rightarrow> ByteWriter \<Rightarrow> ByteWriter" where
  "w_u8 v w =
     (if \<not> bw_ok w then w
      else if length (bw_buffer w) + 1 > bw_max_size w
      then w_fail Code_exhausted Reason_allocation_denied w
      else w\<lparr>bw_buffer := bw_buffer w @ [v]\<rparr>)"

definition w_u16 :: "u16 \<Rightarrow> ByteWriter \<Rightarrow> ByteWriter" where
  "w_u16 v w =
     (if \<not> bw_ok w then w
      else if length (bw_buffer w) + 2 > bw_max_size w
      then w_fail Code_exhausted Reason_allocation_denied w
      else w\<lparr>bw_buffer := append_u16 (bw_buffer w) v\<rparr>)"

definition w_u32 :: "u32 \<Rightarrow> ByteWriter \<Rightarrow> ByteWriter" where
  "w_u32 v w =
     (if \<not> bw_ok w then w
      else if length (bw_buffer w) + 4 > bw_max_size w
      then w_fail Code_exhausted Reason_allocation_denied w
      else w\<lparr>bw_buffer := append_u32 (bw_buffer w) v\<rparr>)"

definition w_u64 :: "u64 \<Rightarrow> ByteWriter \<Rightarrow> ByteWriter" where
  "w_u64 v w =
     (if \<not> bw_ok w then w
      else if length (bw_buffer w) + 8 > bw_max_size w
      then w_fail Code_exhausted Reason_allocation_denied w
      else w\<lparr>bw_buffer := append_u64 (bw_buffer w) v\<rparr>)"

definition w_i64 :: "i64 \<Rightarrow> ByteWriter \<Rightarrow> ByteWriter" where
  "w_i64 v = w_u64 v"

definition w_boolean :: "bool \<Rightarrow> ByteWriter \<Rightarrow> ByteWriter" where
  "w_boolean v = w_u8 (if v then 1 else 0)"

text \<open>
  \<open>max_size_ - buffer_.size()\<close> is an unsigned difference; it cannot wrap, since no operation
  lets the buffer exceed the bound.
\<close>

definition w_bytes :: "byte list \<Rightarrow> ByteWriter \<Rightarrow> ByteWriter" where
  "w_bytes v w =
     (if \<not> bw_ok w then w
      else if length v > bw_max_size w - length (bw_buffer w)
      then w_fail Code_exhausted Reason_allocation_denied w
      else w\<lparr>bw_buffer := bw_buffer w @ v\<rparr>)"

definition w_string :: "byte list \<Rightarrow> size_t \<Rightarrow> ByteWriter \<Rightarrow> ByteWriter" where
  "w_string v max_bytes w =
     (if \<not> bw_ok w then w
      else if length v > max_bytes \<or> length v > 0xFFFF \<or>
              length v > bw_max_size w - length (bw_buffer w)
      then w_fail Code_invalid Reason_length_invalid w
      else
        let w = w_u16 (word_of_nat (length v)) w in
        if \<not> bw_ok w then w else w_bytes v w)"

section \<open>Reader\<close>

record ByteReader =
  br_data :: "byte list"
  br_offset :: size_t
  br_status :: Status

type_synonym 'a reader = "(ByteReader, 'a) state"

definition byte_reader :: "byte list \<Rightarrow> ByteReader" where
  "byte_reader data = \<lparr>br_data = data, br_offset = 0, br_status = ok_status\<rparr>"

definition br_ok :: "ByteReader \<Rightarrow> bool" where
  "br_ok r = st_ok (br_status r)"

definition remaining :: "ByteReader \<Rightarrow> size_t" where
  "remaining r = length (br_data r) - br_offset r"

definition at_end :: "ByteReader \<Rightarrow> bool" where
  "at_end r \<longleftrightarrow> br_offset r = length (br_data r)"

definition r_fail :: "Code \<Rightarrow> Reason \<Rightarrow> string \<Rightarrow> ByteReader \<Rightarrow> ByteReader" where
  "r_fail code reason detail r =
     (if br_ok r then r\<lparr>br_status := Status code reason detail\<rparr> else r)"

text \<open>The common shape of the fixed-width reads.\<close>

definition r_fixed :: "size_t \<Rightarrow> string \<Rightarrow> (byte list \<Rightarrow> size_t \<Rightarrow> 'a :: zero) \<Rightarrow> 'a reader" where
  "r_fixed n detail f = State (\<lambda>r.
     if \<not> br_ok r then (0, r)
     else if remaining r < n then (0, r_fail Code_invalid Reason_length_invalid detail r)
     else (f (br_data r) (br_offset r), r\<lparr>br_offset := br_offset r + n\<rparr>))"

definition r_u8 :: "u8 reader" where
  "r_u8 = r_fixed 1 ''short read: u8'' (\<lambda>data offset. data ! offset)"

definition r_u16 :: "u16 reader" where
  "r_u16 = r_fixed 2 ''short read: u16'' read_u16_at"

definition r_u32 :: "u32 reader" where
  "r_u32 = r_fixed 4 ''short read: u32'' read_u32_at"

definition r_u64 :: "u64 reader" where
  "r_u64 = r_fixed 8 ''short read: u64'' read_u64_at"

definition r_i64 :: "i64 reader" where
  "r_i64 = r_u64"

definition r_boolean :: "bool reader" where
  "r_boolean = do {
     raw \<leftarrow> r_u8;
     r \<leftarrow> State_Monad.get;
     if \<not> br_ok r then State_Monad.return False
     else if raw > 1 then do {
       State_Monad.set (r_fail Code_invalid Reason_enum_invalid ''boolean out of range'' r);
       State_Monad.return False }
     else State_Monad.return (raw = 1) }"

definition r_bytes :: "size_t \<Rightarrow> byte list Result reader" where
  "r_bytes n = State (\<lambda>r.
     if \<not> br_ok r then (Inl (br_status r), r)
     else if n > remaining r then
       (let r' = r_fail Code_invalid Reason_length_invalid ''short read: bytes'' r
        in (Inl (br_status r'), r'))
     else (Inr (take n (drop (br_offset r) (br_data r))), r\<lparr>br_offset := br_offset r + n\<rparr>))"

definition r_string :: "size_t \<Rightarrow> byte list Result reader" where
  "r_string max_bytes = do {
     r \<leftarrow> State_Monad.get;
     if \<not> br_ok r then State_Monad.return (Inl (br_status r))
     else do {
       len \<leftarrow> r_u16;
       r \<leftarrow> State_Monad.get;
       if \<not> br_ok r then State_Monad.return (Inl (br_status r))
       else if unat len > max_bytes then
         (let r' = r_fail Code_invalid Reason_length_invalid ''string too long'' r in do {
            State_Monad.set r';
            State_Monad.return (Inl (br_status r')) })
       else r_bytes (unat len) } }"

definition require_end :: "Status reader" where
  "require_end = State (\<lambda>r.
     if \<not> br_ok r then (br_status r, r)
     else if \<not> at_end r then
       (let r' = r_fail Code_invalid Reason_trailing_garbage ''trailing bytes after value'' r
        in (br_status r', r'))
     else (ok_status, r))"

text \<open>\<open>if (!r.ok()) return r.status();\<close> followed by a value.\<close>

definition r_status :: "Status reader" where
  "r_status = State (\<lambda>r. (br_status r, r))"

definition kDigits :: string where
  "kDigits = ''0123456789abcdef''"

definition to_hex :: "byte list \<Rightarrow> string" where
  "to_hex data =
     concat (map (\<lambda>v. [kDigits ! unat (drop_bit 4 v), kDigits ! unat (v AND 0x0F)]) data)"

text \<open>\<open>id_hex\<close> of \<open>src/ids.cpp\<close> fills the string from its last position to its first.\<close>

primrec id_hex_from :: "nat \<Rightarrow> u64 \<Rightarrow> string \<Rightarrow> string" where
  "id_hex_from 0 value out = out"
| "id_hex_from (Suc i) value out =
     id_hex_from i (drop_bit 4 value) (kDigits ! unat (value AND 0xF) # out)"

definition id_hex :: "u64 \<Rightarrow> string" where
  "id_hex value = id_hex_from 16 value []"

section \<open>Little-endian round trips\<close>

definition le :: "nat \<Rightarrow> 'a :: len word \<Rightarrow> byte list" where
  "le n v = map (\<lambda>i. ucast (drop_bit (8 * i) v)) [0..<n]"

lemma length_le [simp]: "length (le n v) = n"
  by (simp add: le_def)

lemma nth_le [simp]: "i < n \<Longrightarrow> le n v ! i = ucast (drop_bit (8 * i) v)"
  by (simp add: le_def)

lemma ucast_byte_mask: "ucast (v AND 0xFF) = (ucast v :: byte)"
proof -
  have "v AND 0xFF = take_bit 8 v"
    by (simp add: take_bit_eq_mask mask_eq_exp_minus_1)
  then show ?thesis
    by (auto intro!: bit_eqI simp: bit_simps possible_bit_def)
qed

lemma append_le:
  "append_u16 out a = out @ le 2 a" "append_u32 out b = out @ le 4 b"
  "append_u64 out c = out @ le 8 c"
  by (simp_all add: append_u16_def append_u32_def append_u64_def le_def ucast_byte_mask
      upt_rec numeral_eq_Suc)

text \<open>Reading \<open>n\<close> bytes with shifts and \<open>OR\<close> gives the low \<open>8 * n\<close> bits back.\<close>

lemma fold_read:
  assumes "\<forall>i < n. f i = (ucast (drop_bit (8 * i) v) :: byte)"
  shows "foldl (\<lambda>value i. value OR push_bit (8 * i) (ucast (f i))) 0 [0..<n] = take_bit (8 * n) v"
  using assms
proof (induction n)
  case (Suc n)
  have "take_bit (8 * n) v OR push_bit (8 * n) (ucast (f n)) = take_bit (8 * Suc n) v"
  proof (rule bit_eqI)
    fix k assume k: "possible_bit TYPE('a word) k"
    have f: "f n = ucast (drop_bit (8 * n) v)" using Suc.prems by simp
    show "bit (take_bit (8 * n) v OR push_bit (8 * n) (ucast (f n))) k =
        bit (take_bit (8 * Suc n) v) k"
      using k unfolding f by (auto simp: bit_simps possible_bit_def)
  qed
  then show ?case using Suc by simp
qed simp

lemma read_le:
  "\<forall>i < 2. data ! (off + i) = le 2 a ! i \<Longrightarrow> read_u16_at data off = a"
  "\<forall>i < 4. data ! (off + i) = le 4 b ! i \<Longrightarrow> read_u32_at data off = b"
  "\<forall>i < 8. data ! (off + i) = le 8 c ! i \<Longrightarrow> read_u64_at data off = c"
proof -
  assume "\<forall>i < 2. data ! (off + i) = le 2 a ! i"
  then have "foldl (\<lambda>value i. value OR push_bit (8 * i) (ucast (data ! (off + i)))) 0 [0..<2]
      = take_bit (8 * 2) a" by (intro fold_read) simp
  moreover have "[0..<2] = [0, 1 :: nat]" by (simp add: upt_rec)
  ultimately show "read_u16_at data off = a"
    by (simp add: read_u16_at_def take_bit_word_eq_self)
next
  assume "\<forall>i < 4. data ! (off + i) = le 4 b ! i"
  then have "foldl (\<lambda>value i. value OR push_bit (8 * i) (ucast (data ! (off + i)))) 0 [0..<4]
      = take_bit (8 * 4) b" by (intro fold_read) simp
  moreover have "[0..<4] = [0, 1, 2, 3 :: nat]" by (simp add: upt_rec)
  ultimately show "read_u32_at data off = b"
    by (simp only: read_u32_at_def) (simp add: take_bit_word_eq_self)
next
  assume "\<forall>i < 8. data ! (off + i) = le 8 c ! i"
  then have "foldl (\<lambda>value i. value OR push_bit (8 * i) (ucast (data ! (off + i)))) 0 [0..<8]
      = take_bit (8 * 8) c" by (intro fold_read) simp
  moreover have "[0..<8] = [0, 1, 2, 3, 4, 5, 6, 7 :: nat]" by (simp add: upt_rec)
  ultimately show "read_u64_at data off = c"
    by (simp only: read_u64_at_def) (simp add: take_bit_word_eq_self)
qed

section \<open>What a writer appends\<close>

definition bw_fits :: "ByteWriter \<Rightarrow> bool" where
  "bw_fits w \<longleftrightarrow> length (bw_buffer w) \<le> bw_max_size w"

text \<open>
  \<open>writes f bs\<close>: on a writer within its bound, \<open>f\<close> succeeds exactly when the writer has not
  failed and \<open>bs\<close> still fits, and then it appends exactly \<open>bs\<close>; it never exceeds the bound.
\<close>

definition writes :: "(ByteWriter \<Rightarrow> ByteWriter) \<Rightarrow> byte list \<Rightarrow> bool" where
  "writes f bs \<longleftrightarrow> (\<forall>w. bw_fits w \<longrightarrow> bw_fits (f w) \<and> bw_max_size (f w) = bw_max_size w \<and>
     (bw_ok (f w) \<longleftrightarrow> bw_ok w \<and> length (bw_buffer w) + length bs \<le> bw_max_size w) \<and>
     (bw_ok (f w) \<longrightarrow> f w = w\<lparr>bw_buffer := bw_buffer w @ bs\<rparr>))"

lemma writesI:
  assumes "\<And>w. f w = (if \<not> bw_ok w then w
      else if length (bw_buffer w) + length bs > bw_max_size w
      then w_fail Code_exhausted Reason_allocation_denied w
      else w\<lparr>bw_buffer := bw_buffer w @ bs\<rparr>)"
  shows "writes f bs"
  by (simp add: writes_def assms w_fail_def bw_fits_def bw_ok_def)

lemma writes_comp:
  assumes "writes f a" "writes g b"
  shows "writes (\<lambda>w. g (f w)) (a @ b)"
  unfolding writes_def
proof (intro allI impI)
  fix w assume w: "bw_fits w"
  note f = assms(1) [unfolded writes_def, rule_format, OF w]
  note g = assms(2) [unfolded writes_def, rule_format, OF f [THEN conjunct1]]
  show "bw_fits (g (f w)) \<and> bw_max_size (g (f w)) = bw_max_size w \<and>
      (bw_ok (g (f w)) \<longleftrightarrow>
        bw_ok w \<and> length (bw_buffer w) + length (a @ b) \<le> bw_max_size w) \<and>
      (bw_ok (g (f w)) \<longrightarrow> g (f w) = w\<lparr>bw_buffer := bw_buffer w @ a @ b\<rparr>)"
  proof (cases "bw_ok (f w)")
    case True
    then have fw: "f w = w\<lparr>bw_buffer := bw_buffer w @ a\<rparr>" using f by simp
    have "bw_ok w" using True f by simp
    then show ?thesis using True f g unfolding fw by (auto simp: bw_ok_def)
  next
    case False
    then show ?thesis using f g by auto
  qed
qed

lemma writes_id: "writes (\<lambda>w. w) []"
  by (simp add: writes_def bw_fits_def)

lemma writes_prims:
  "writes (w_u8 a) [a]" "writes (w_u16 b) (le 2 b)" "writes (w_u32 c) (le 4 c)"
  "writes (w_u64 d) (le 8 d)" "writes (w_i64 d) (le 8 d)"
  "writes (w_boolean e) [if e then 1 else 0]"
  unfolding w_i64_def w_boolean_def
  by (rule writesI; simp add: w_u8_def w_u16_def w_u32_def w_u64_def append_le)+

lemma writes_bytes: "writes (w_bytes v) v"
  by (auto simp: writes_def w_bytes_def w_fail_def bw_fits_def bw_ok_def)

primrec w_each :: "('a \<Rightarrow> ByteWriter \<Rightarrow> ByteWriter) \<Rightarrow> 'a list \<Rightarrow> ByteWriter \<Rightarrow> ByteWriter" where
  "w_each put [] w = w"
| "w_each put (v # vs) w = w_each put vs (put v w)"

lemma writes_each:
  "(\<And>v. writes (put v) (enc v)) \<Longrightarrow> writes (w_each put vs) (concat (map enc vs))"
proof (induction vs)
  case (Cons v vs)
  then show ?case using writes_comp [of "put v" "enc v"] by simp
qed (auto simp: writes_def bw_fits_def)

section \<open>What a reader consumes\<close>

definition reader_at :: "byte list \<Rightarrow> byte list \<Rightarrow> ByteReader" where
  "reader_at pre bs = \<lparr>br_data = pre @ bs, br_offset = length pre, br_status = ok_status\<rparr>"

lemma reader_at_simps [simp]:
  "br_ok (reader_at pre bs)" "br_status (reader_at pre bs) = ok_status"
  "remaining (reader_at pre bs) = length bs" "at_end (reader_at pre bs) \<longleftrightarrow> bs = []"
  by (simp_all add: reader_at_def br_ok_def remaining_def at_end_def)

lemma byte_reader_at: "byte_reader bs = reader_at [] bs"
  by (simp add: byte_reader_def reader_at_def)

lemma r_fixed_at:
  assumes "length bs = n" "f (pre @ bs @ rest) (length pre) = x"
  shows "run_state (r_fixed n d f) (reader_at pre (bs @ rest)) = (x, reader_at (pre @ bs) rest)"
  using assms by (simp add: r_fixed_def br_ok_def remaining_def reader_at_def)

lemma r_prims_at [codec]:
  "run_state r_u8 (reader_at pre (a # rest)) = (a, reader_at (pre @ [a]) rest)"
  "run_state r_u16 (reader_at pre (le 2 b @ rest)) = (b, reader_at (pre @ le 2 b) rest)"
  "run_state r_u32 (reader_at pre (le 4 c @ rest)) = (c, reader_at (pre @ le 4 c) rest)"
  "run_state r_u64 (reader_at pre (le 8 e @ rest)) = (e, reader_at (pre @ le 8 e) rest)"
  "run_state r_i64 (reader_at pre (le 8 e @ rest)) = (e, reader_at (pre @ le 8 e) rest)"
proof -
  show "run_state r_u8 (reader_at pre (a # rest)) = (a, reader_at (pre @ [a]) rest)"
    unfolding r_u8_def using r_fixed_at [of "[a]" 1 "\<lambda>data offset. data ! offset"] by simp
  show "run_state r_u16 (reader_at pre (le 2 b @ rest)) = (b, reader_at (pre @ le 2 b) rest)"
    unfolding r_u16_def by (intro r_fixed_at read_le) (simp_all add: nth_append)
  show "run_state r_u32 (reader_at pre (le 4 c @ rest)) = (c, reader_at (pre @ le 4 c) rest)"
    unfolding r_u32_def by (intro r_fixed_at read_le) (simp_all add: nth_append)
  show "run_state r_u64 (reader_at pre (le 8 e @ rest)) = (e, reader_at (pre @ le 8 e) rest)"
    unfolding r_u64_def by (intro r_fixed_at read_le) (simp_all add: nth_append)
  then show "run_state r_i64 (reader_at pre (le 8 e @ rest)) = (e, reader_at (pre @ le 8 e) rest)"
    unfolding r_i64_def .
qed

lemmas r_prims_end [codec] = r_prims_at(2-5) [where rest = "[]", simplified]

lemma r_boolean_at [codec]:
  "run_state r_boolean (reader_at pre ((if b then 1 else 0) # rest)) =
     (b, reader_at (pre @ [if b then 1 else 0]) rest)"
  by (simp add: r_boolean_def r_prims_at)

lemma require_end_at [codec]: "run_state require_end (reader_at pre []) = (ok_status, reader_at pre [])"
  by (simp add: require_end_def)

lemma r_bytes_at [codec]:
  "length bs = n \<Longrightarrow>
     run_state (r_bytes n) (reader_at pre (bs @ rest)) = (Inr bs, reader_at (pre @ bs) rest)"
  by (simp add: r_bytes_def br_ok_def remaining_def reader_at_def)

end
