(* ===== verification/PFF_Wire.thy ===== *)
theory PFF_Wire
  imports PFF_Records PFF_Canonical
begin

text \<open>
  Canonical encoders and decoders of the domain values: \<open>include/pff/wire.hpp\<close> and
  \<open>src/wire.cpp\<close>. A \<open>put\<close> is the list of its writes in source order; a \<open>get\<close> is a
  state-monad computation on the reader whose early returns are \<open>r_try\<close> (a failed sub-decoder)
  and \<open>r_checked\<close> (\<open>if (!r.ok()) return r.status();\<close>).

  The locale \<open>codec\<close> is the contract of a pair: what the encoder writes, and that the decoder
  reads exactly that back from any position and in front of any following bytes. Inside it:
  the round trip through a writer and a reader, that the encoding determines the value and is
  self-delimiting, and the codec of counted sequences. It is interpreted on every pair.
\<close>

section \<open>Shared steps\<close>

definition w_seq :: "(ByteWriter \<Rightarrow> ByteWriter) list \<Rightarrow> ByteWriter \<Rightarrow> ByteWriter" where
  "w_seq fs w = foldl (\<lambda>w f. f w) w fs"

definition r_try :: "'a Result reader \<Rightarrow> ('a \<Rightarrow> 'b Result reader) \<Rightarrow> 'b Result reader" where
  "r_try m k = do {
     x \<leftarrow> m;
     case x of Inl status \<Rightarrow> State_Monad.return (Inl status) | Inr v \<Rightarrow> k v }"

definition r_checked :: "'a Result reader \<Rightarrow> 'a Result reader" where
  "r_checked k = do {
     r \<leftarrow> State_Monad.get;
     if \<not> br_ok r then State_Monad.return (Inl (br_status r)) else k }"

definition r_done :: "'a \<Rightarrow> 'a Result reader" where
  "r_done v = State_Monad.return (Inr v)"

definition r_refuse :: "Status \<Rightarrow> 'a Result reader" where
  "r_refuse status = State_Monad.return (Inl status)"

definition r_validated :: "Status \<Rightarrow> 'a \<Rightarrow> 'a Result reader" where
  "r_validated status v = (if \<not> st_ok status then r_refuse status else r_done v)"

primrec get_many :: "nat \<Rightarrow> 'a Result reader \<Rightarrow> 'a list Result reader" where
  "get_many 0 get1 = r_done []"
| "get_many (Suc n) get1 = r_try get1 (\<lambda>v. r_try (get_many n get1) (\<lambda>vs. r_done (v # vs)))"

text \<open>Enumerations travel as one byte holding their numeric value.\<close>

definition put_enum :: "nat \<Rightarrow> ByteWriter \<Rightarrow> ByteWriter" where
  "put_enum value = w_u8 (word_of_nat value)"

definition get_enum :: "'e list \<Rightarrow> nat \<Rightarrow> Reason \<Rightarrow> 'e Result reader" where
  "get_enum enumerators max_inclusive invalid_reason = do {
     raw \<leftarrow> r_u8;
     r_checked
       (if unat raw > max_inclusive then r_refuse (Status Code_invalid invalid_reason [])
        else r_done (enumerators ! unat raw)) }"

definition get_count :: "size_t \<Rightarrow> size_t Result reader" where
  "get_count max_count = do {
     raw \<leftarrow> r_u32;
     r_checked
       (if unat raw > max_count
        then r_refuse (Status Code_invalid Reason_length_invalid ''declared count exceeds bound'')
        else r_done (unat raw)) }"

definition put_reason :: "Reason \<Rightarrow> ByteWriter \<Rightarrow> ByteWriter" where
  "put_reason r = w_u16 (word_of_nat (reason_value r))"

definition get_reason :: "string \<Rightarrow> Reason Result reader" where
  "get_reason detail = do {
     raw_reason \<leftarrow> r_u16;
     r_checked
       (if unat raw_reason > max_reason_value
        then r_refuse (Status Code_invalid Reason_enum_invalid detail)
        else r_done (reason_table ! unat raw_reason)) }"

definition get_value :: "'a reader \<Rightarrow> 'a Result reader" where
  "get_value m = do { x \<leftarrow> m; r_done x }"

section \<open>Numeric values of the enumerations\<close>

primrec freshness_value :: "Freshness \<Rightarrow> nat" where
  "freshness_value Freshness_fresh = 0"
| "freshness_value Freshness_stale = 1"
| "freshness_value Freshness_unknown = 2"

primrec eligibility_value :: "Eligibility \<Rightarrow> nat" where
  "eligibility_value Eligibility_eligible = 0"
| "eligibility_value Eligibility_ineligible = 1"
| "eligibility_value Eligibility_unknown = 2"

primrec reachability_value :: "Reachability \<Rightarrow> nat" where
  "reachability_value Reachability_reachable = 0"
| "reachability_value Reachability_unreachable = 1"
| "reachability_value Reachability_unknown = 2"

primrec capacity_value :: "CapacityClass \<Rightarrow> nat" where
  "capacity_value CapacityClass_sufficient = 0"
| "capacity_value CapacityClass_insufficient = 1"
| "capacity_value CapacityClass_unknown = 2"

primrec completeness_value :: "SetCompleteness \<Rightarrow> nat" where
  "completeness_value SetCompleteness_complete = 0"
| "completeness_value SetCompleteness_partial = 1"
| "completeness_value SetCompleteness_unknown = 2"

primrec condition_value :: "IncumbentCondition \<Rightarrow> nat" where
  "condition_value IncumbentCondition_failed = 0"
| "condition_value IncumbentCondition_invalidated = 1"
| "condition_value IncumbentCondition_degraded = 2"

primrec authority_kind_value :: "AuthorityKind \<Rightarrow> nat" where
  "authority_kind_value AuthorityKind_observation = 0"
| "authority_kind_value AuthorityKind_eligibility = 1"
| "authority_kind_value AuthorityKind_recommendation = 2"
| "authority_kind_value AuthorityKind_acknowledgement = 3"
| "authority_kind_value AuthorityKind_grant = 4"
| "authority_kind_value AuthorityKind_verified_effect = 5"

primrec verdict_value :: "CandidateVerdict \<Rightarrow> nat" where
  "verdict_value CandidateVerdict_selected = 0"
| "verdict_value CandidateVerdict_promotable_not_selected = 1"
| "verdict_value CandidateVerdict_excluded = 2"
| "verdict_value CandidateVerdict_indeterminate = 3"

primrec attempt_state_value :: "AttemptState \<Rightarrow> nat" where
  "attempt_state_value AttemptState_claimed = 0"
| "attempt_state_value AttemptState_authorized = 1"
| "attempt_state_value AttemptState_effect_recorded = 2"
| "attempt_state_value AttemptState_committed = 3"
| "attempt_state_value AttemptState_refused = 4"
| "attempt_state_value AttemptState_fenced = 5"
| "attempt_state_value AttemptState_superseded = 6"
| "attempt_state_value AttemptState_abandoned = 7"
| "attempt_state_value AttemptState_rolled_back = 8"
| "attempt_state_value AttemptState_interrupted = 9"

definition freshness_table :: "Freshness list" where
  "freshness_table =
    [Freshness_fresh, Freshness_stale, Freshness_unknown]"

definition eligibility_table :: "Eligibility list" where
  "eligibility_table =
    [Eligibility_eligible, Eligibility_ineligible, Eligibility_unknown]"

definition reachability_table :: "Reachability list" where
  "reachability_table =
    [Reachability_reachable, Reachability_unreachable, Reachability_unknown]"

definition capacity_table :: "CapacityClass list" where
  "capacity_table =
    [CapacityClass_sufficient, CapacityClass_insufficient, CapacityClass_unknown]"

definition completeness_table :: "SetCompleteness list" where
  "completeness_table =
    [SetCompleteness_complete, SetCompleteness_partial, SetCompleteness_unknown]"

definition condition_table :: "IncumbentCondition list" where
  "condition_table =
    [IncumbentCondition_failed, IncumbentCondition_invalidated, IncumbentCondition_degraded]"

definition authority_kind_table :: "AuthorityKind list" where
  "authority_kind_table =
    [AuthorityKind_observation, AuthorityKind_eligibility, AuthorityKind_recommendation,
     AuthorityKind_acknowledgement, AuthorityKind_grant, AuthorityKind_verified_effect]"

definition verdict_table :: "CandidateVerdict list" where
  "verdict_table =
    [CandidateVerdict_selected, CandidateVerdict_promotable_not_selected,
     CandidateVerdict_excluded, CandidateVerdict_indeterminate]"

definition attempt_state_table :: "AttemptState list" where
  "attempt_state_table =
    [AttemptState_claimed, AttemptState_authorized, AttemptState_effect_recorded,
     AttemptState_committed, AttemptState_refused, AttemptState_fenced,
     AttemptState_superseded, AttemptState_abandoned, AttemptState_rolled_back,
     AttemptState_interrupted]"

definition provenance_table :: "Provenance list" where
  "provenance_table =
    [Provenance_real, Provenance_synthetic, Provenance_unsupported]"

definition outcome_table :: "PromotionOutcome list" where
  "outcome_table =
    [PromotionOutcome_authorized, PromotionOutcome_promoted,
     PromotionOutcome_refused_proven_no_alternate, PromotionOutcome_refused_invalid_input,
     PromotionOutcome_refused_policy_invalid, PromotionOutcome_refused_obligations_invalid,
     PromotionOutcome_refused_stale_authority, PromotionOutcome_refused_conflict,
     PromotionOutcome_refused_fenced, PromotionOutcome_refused_resource_exhausted,
     PromotionOutcome_refused_read_only, PromotionOutcome_refused_already_owned,
     PromotionOutcome_refused_superseded_attempt,
     PromotionOutcome_indeterminate_incomplete_set,
     PromotionOutcome_indeterminate_unknown_member,
     PromotionOutcome_indeterminate_search_limit, PromotionOutcome_unsupported,
     PromotionOutcome_reverted, PromotionOutcome_rolled_back]"

definition authority_class_table :: "AuthorityClass list" where
  "authority_class_table =
    [AuthorityClass_current, AuthorityClass_stale, AuthorityClass_unknown,
     AuthorityClass_conflict]"

definition kFreshnessMax :: nat where "kFreshnessMax = freshness_value Freshness_unknown"
definition kEligibilityMax :: nat where "kEligibilityMax = eligibility_value Eligibility_unknown"
definition kReachabilityMax :: nat where "kReachabilityMax = reachability_value Reachability_unknown"
definition kCapacityMax :: nat where "kCapacityMax = capacity_value CapacityClass_unknown"
definition kCompletenessMax :: nat where "kCompletenessMax = completeness_value SetCompleteness_unknown"
definition kConditionMax :: nat where "kConditionMax = condition_value IncumbentCondition_degraded"
definition kAuthorityKindMax :: nat where "kAuthorityKindMax = authority_kind_value AuthorityKind_verified_effect"
definition kVerdictMax :: nat where "kVerdictMax = verdict_value CandidateVerdict_indeterminate"
definition kAttemptStateMax :: nat where "kAttemptStateMax = attempt_state_value AttemptState_interrupted"
definition kProvenanceMax :: nat where "kProvenanceMax = provenance_value Provenance_unsupported"
definition kOutcomeMax :: nat where "kOutcomeMax = outcome_value PromotionOutcome_rolled_back"
definition kAuthorityClassMax :: nat where "kAuthorityClassMax = severity AuthorityClass_conflict"

section \<open>Encoders and decoders\<close>

definition put_authority :: "AuthorityVector \<Rightarrow> ByteWriter \<Rightarrow> ByteWriter" where
  "put_authority v = w_seq
     [w_u64 (av_topology v), w_u64 (av_path_authority v), w_u64 (av_policy v),
      w_u64 (av_obligations v), w_u64 (av_epoch v), w_u64 (av_boot v)]"

definition get_authority :: "AuthorityVector Result reader" where
  "get_authority = do {
     topology \<leftarrow> r_u64;
     path_authority \<leftarrow> r_u64;
     policy \<leftarrow> r_u64;
     obligations \<leftarrow> r_u64;
     epoch \<leftarrow> r_u64;
     boot \<leftarrow> r_u64;
     r_checked (r_done
       \<lparr>av_topology = topology, av_path_authority = path_authority, av_policy = policy,
            av_obligations = obligations, av_epoch = epoch, av_boot = boot\<rparr>) }"

definition put_evidence :: "PathEvidence \<Rightarrow> ByteWriter \<Rightarrow> ByteWriter" where
  "put_evidence v = w_seq
     [w_u64 (pe_id v), w_u64 (pe_path v), put_enum (freshness_value (pe_freshness v)),
      put_enum (eligibility_value (pe_eligibility v)),
      put_enum (reachability_value (pe_reachability v)),
      put_enum (capacity_value (pe_capacity v)), w_u32 (pe_capabilities v),
      w_i64 (pe_health_ppm v), w_i64 (pe_cost_units v), w_u64 (pe_observation_seq v),
      put_authority (pe_observed_under v), put_enum (provenance_value (pe_provenance v))]"

definition get_evidence :: "PathEvidence Result reader" where
  "get_evidence = do {
     id \<leftarrow> r_u64;
     path \<leftarrow> r_u64;
     r_try (get_enum freshness_table kFreshnessMax Reason_enum_invalid) (\<lambda>freshness. do {
     r_try (get_enum eligibility_table kEligibilityMax Reason_enum_invalid) (\<lambda>eligibility. do {
     r_try (get_enum reachability_table kReachabilityMax Reason_enum_invalid) (\<lambda>reachability. do {
     r_try (get_enum capacity_table kCapacityMax Reason_enum_invalid) (\<lambda>capacity. do {
     capabilities \<leftarrow> r_u32;
     health_ppm \<leftarrow> r_i64;
     cost_units \<leftarrow> r_i64;
     observation_seq \<leftarrow> r_u64;
     r_try get_authority (\<lambda>observed_under. do {
     r_try (get_enum provenance_table kProvenanceMax Reason_enum_invalid) (\<lambda>provenance. do {
     r_checked (r_done
       \<lparr>pe_id = id, pe_path = path, pe_freshness = freshness, pe_eligibility = eligibility,
            pe_reachability = reachability, pe_capacity = capacity,
            pe_capabilities = capabilities, pe_health_ppm = health_ppm,
            pe_cost_units = cost_units, pe_observation_seq = observation_seq,
            pe_observed_under = observed_under, pe_provenance = provenance\<rparr>) }) }) }) }) }) }) }"

definition put_effect :: "EffectEvidence \<Rightarrow> ByteWriter \<Rightarrow> ByteWriter" where
  "put_effect v = w_seq
     [w_u64 (ee_id v), w_u64 (ee_path v), w_u64 (ee_observation_seq v),
      w_boolean (ee_effect_verified v), put_authority (ee_observed_under v),
      put_enum (provenance_value (ee_provenance v))]"

definition get_effect :: "EffectEvidence Result reader" where
  "get_effect = do {
     id \<leftarrow> r_u64;
     path \<leftarrow> r_u64;
     observation_seq \<leftarrow> r_u64;
     effect_verified \<leftarrow> r_boolean;
     r_try get_authority (\<lambda>observed_under. do {
     r_try (get_enum provenance_table kProvenanceMax Reason_enum_invalid) (\<lambda>provenance. do {
     r_checked (r_done
       \<lparr>ee_id = id, ee_path = path, ee_observation_seq = observation_seq,
            ee_effect_verified = effect_verified, ee_observed_under = observed_under,
            ee_provenance = provenance\<rparr>) }) }) }"

definition put_obligations :: "ServiceObligations \<Rightarrow> ByteWriter \<Rightarrow> ByteWriter" where
  "put_obligations v = w_seq
     [w_u64 (so_generation v), w_u32 (so_required_capabilities v), w_i64 (so_min_health_ppm v),
      w_i64 (so_max_cost_units v), w_boolean (so_require_reachable v),
      w_boolean (so_require_capacity v), w_boolean (so_require_fresh_evidence v)]"

definition get_obligations :: "ServiceObligations Result reader" where
  "get_obligations = do {
     generation \<leftarrow> r_u64;
     required_capabilities \<leftarrow> r_u32;
     min_health_ppm \<leftarrow> r_i64;
     max_cost_units \<leftarrow> r_i64;
     require_reachable \<leftarrow> r_boolean;
     require_capacity \<leftarrow> r_boolean;
     require_fresh_evidence \<leftarrow> r_boolean;
     r_checked
       (let v = \<lparr>so_generation = generation, so_required_capabilities = required_capabilities,
            so_min_health_ppm = min_health_ppm, so_max_cost_units = max_cost_units,
            so_require_reachable = require_reachable, so_require_capacity = require_capacity,
            so_require_fresh_evidence = require_fresh_evidence\<rparr>
        in r_validated (validate_obligations v) v) }"

definition put_policy :: "FailoverPolicy \<Rightarrow> ByteWriter \<Rightarrow> ByteWriter" where
  "put_policy v = w_seq
     [w_u64 (fp_generation v), w_i64 (fp_w_health v), w_i64 (fp_w_cost v), w_i64 (fp_w_rank v),
      w_i64 (fp_w_capability v), w_i64 (fp_min_score v), w_u32 (fp_search_limit v),
      w_u32 (fp_max_retained_attempts v), w_u32 (fp_max_revalidations v),
      w_boolean (fp_allow_unknown_skip v), w_boolean (fp_require_verified_effect v)]"

definition get_policy :: "FailoverPolicy Result reader" where
  "get_policy = do {
     generation \<leftarrow> r_u64;
     w_health \<leftarrow> r_i64;
     w_cost \<leftarrow> r_i64;
     w_rank \<leftarrow> r_i64;
     w_capability \<leftarrow> r_i64;
     min_score \<leftarrow> r_i64;
     search_limit \<leftarrow> r_u32;
     max_retained_attempts \<leftarrow> r_u32;
     max_revalidations \<leftarrow> r_u32;
     allow_unknown_skip \<leftarrow> r_boolean;
     require_verified_effect \<leftarrow> r_boolean;
     r_checked
       (let v = \<lparr>fp_generation = generation, fp_w_health = w_health, fp_w_cost = w_cost,
            fp_w_rank = w_rank, fp_w_capability = w_capability, fp_min_score = min_score,
            fp_search_limit = search_limit, fp_max_retained_attempts = max_retained_attempts,
            fp_max_revalidations = max_revalidations,
            fp_allow_unknown_skip = allow_unknown_skip,
            fp_require_verified_effect = require_verified_effect\<rparr>
        in r_validated (validate_policy v) v) }"

definition put_candidate :: "AlternateCandidate \<Rightarrow> ByteWriter \<Rightarrow> ByteWriter" where
  "put_candidate v = w_seq
     [w_u64 (ca_path v), w_u32 (ca_upstream_rank v), w_boolean (ca_withdrawn v),
      put_evidence (ca_evidence v), put_authority (ca_authority v)]"

definition get_candidate :: "AlternateCandidate Result reader" where
  "get_candidate = do {
     path \<leftarrow> r_u64;
     upstream_rank \<leftarrow> r_u32;
     withdrawn \<leftarrow> r_boolean;
     r_try get_evidence (\<lambda>evidence. do {
     r_try get_authority (\<lambda>authority. do {
     r_checked
       (let v = \<lparr>ca_path = path, ca_upstream_rank = upstream_rank, ca_withdrawn = withdrawn,
            ca_evidence = evidence, ca_authority = authority\<rparr>
        in r_validated (validate_candidate v) v) }) }) }"

definition put_request :: "PromotionRequest \<Rightarrow> ByteWriter \<Rightarrow> ByteWriter" where
  "put_request v = w_seq
     [w_u64 (pr_incumbent v), put_enum (condition_value (pr_condition v)), w_u64 (pr_set v),
      w_u64 (pr_set_generation v), w_u64 (pr_policy_generation v),
      w_u64 (pr_obligations_generation v), w_u64 (pr_topology_generation v),
      w_u64 (pr_path_authority_generation v), w_u64 (pr_epoch v), w_u64 (pr_boot v),
      w_u64 (pr_attempt v)]"

definition get_request :: "PromotionRequest Result reader" where
  "get_request = do {
     incumbent \<leftarrow> r_u64;
     r_try (get_enum condition_table kConditionMax Reason_enum_invalid) (\<lambda>condition. do {
     set \<leftarrow> r_u64;
     set_generation \<leftarrow> r_u64;
     policy_generation \<leftarrow> r_u64;
     obligations_generation \<leftarrow> r_u64;
     topology_generation \<leftarrow> r_u64;
     path_authority_generation \<leftarrow> r_u64;
     epoch \<leftarrow> r_u64;
     boot \<leftarrow> r_u64;
     attempt \<leftarrow> r_u64;
     r_checked (r_done
       \<lparr>pr_incumbent = incumbent, pr_condition = condition, pr_set = set,
            pr_set_generation = set_generation, pr_policy_generation = policy_generation,
            pr_obligations_generation = obligations_generation,
            pr_topology_generation = topology_generation,
            pr_path_authority_generation = path_authority_generation, pr_epoch = epoch,
            pr_boot = boot, pr_attempt = attempt\<rparr>) }) }"

definition put_attempt :: "AttemptRecord \<Rightarrow> ByteWriter \<Rightarrow> ByteWriter" where
  "put_attempt v = w_seq
     [w_u64 (ar_id v), w_u64 (ar_epoch v), w_u64 (ar_boot v), w_u64 (ar_incumbent v),
      w_u64 (ar_selected v), w_u64 (ar_set v), w_u64 (ar_set_generation v),
      put_authority (ar_basis v), put_enum (attempt_state_value (ar_state v)),
      put_reason (ar_terminal_reason v), w_u64 (ar_begin_sequence v),
      w_u64 (ar_terminal_sequence v), w_u32 (ar_revalidations v)]"

definition get_attempt :: "AttemptRecord Result reader" where
  "get_attempt = do {
     id \<leftarrow> r_u64;
     epoch \<leftarrow> r_u64;
     boot \<leftarrow> r_u64;
     incumbent \<leftarrow> r_u64;
     selected \<leftarrow> r_u64;
     set \<leftarrow> r_u64;
     set_generation \<leftarrow> r_u64;
     r_try get_authority (\<lambda>basis. do {
     r_try (get_enum attempt_state_table kAttemptStateMax Reason_enum_invalid) (\<lambda>state. do {
     r_try (get_reason ''attempt reason out of range'') (\<lambda>terminal_reason. do {
     begin_sequence \<leftarrow> r_u64;
     terminal_sequence \<leftarrow> r_u64;
     revalidations \<leftarrow> r_u32;
     r_checked (r_done
       \<lparr>ar_id = id, ar_epoch = epoch, ar_boot = boot, ar_incumbent = incumbent,
            ar_selected = selected, ar_set = set, ar_set_generation = set_generation,
            ar_basis = basis, ar_state = state, ar_terminal_reason = terminal_reason,
            ar_begin_sequence = begin_sequence, ar_terminal_sequence = terminal_sequence,
            ar_revalidations = revalidations\<rparr>) }) }) }) }"

definition put_fence :: "FenceRecord \<Rightarrow> ByteWriter \<Rightarrow> ByteWriter" where
  "put_fence v = w_seq
     [w_u64 (fr_id v), w_u64 (fr_epoch v), w_u64 (fr_boot v), w_u64 (fr_attempt v),
      w_u64 (fr_path v), put_reason (fr_reason v), put_authority (fr_at v),
      w_u64 (fr_sequence v)]"

definition get_fence :: "FenceRecord Result reader" where
  "get_fence = do {
     id \<leftarrow> r_u64;
     epoch \<leftarrow> r_u64;
     boot \<leftarrow> r_u64;
     attempt \<leftarrow> r_u64;
     path \<leftarrow> r_u64;
     r_try (get_reason ''fence reason out of range'') (\<lambda>reason. do {
     r_try get_authority (\<lambda>at. do {
     sequence \<leftarrow> r_u64;
     r_checked (r_done
       \<lparr>fr_id = id, fr_epoch = epoch, fr_boot = boot, fr_attempt = attempt, fr_path = path,
            fr_reason = reason, fr_at = at, fr_sequence = sequence\<rparr>) }) }) }"

definition put_lineage :: "LineageEntry \<Rightarrow> ByteWriter \<Rightarrow> ByteWriter" where
  "put_lineage v = w_seq
     [w_u64 (li_decision v), w_u64 (li_attempt v), w_u64 (li_epoch v), w_u64 (li_boot v),
      put_enum (outcome_value (li_outcome v)), w_u64 (li_incumbent v), w_u64 (li_selected v),
      w_u64 (li_set v), put_authority (li_basis v), put_reason (li_reason v),
      w_u64 (li_sequence v)]"

definition get_lineage :: "LineageEntry Result reader" where
  "get_lineage = do {
     decision \<leftarrow> r_u64;
     attempt \<leftarrow> r_u64;
     epoch \<leftarrow> r_u64;
     boot \<leftarrow> r_u64;
     r_try (get_enum outcome_table kOutcomeMax Reason_enum_invalid) (\<lambda>outcome. do {
     incumbent \<leftarrow> r_u64;
     selected \<leftarrow> r_u64;
     set \<leftarrow> r_u64;
     r_try get_authority (\<lambda>basis. do {
     r_try (get_reason ''lineage reason out of range'') (\<lambda>reason. do {
     sequence \<leftarrow> r_u64;
     r_checked (r_done
       \<lparr>li_decision = decision, li_attempt = attempt, li_epoch = epoch, li_boot = boot,
            li_outcome = outcome, li_incumbent = incumbent, li_selected = selected,
            li_set = set, li_basis = basis, li_reason = reason, li_sequence = sequence\<rparr>) }) }) }) }"

definition put_set :: "AlternateSet \<Rightarrow> ByteWriter \<Rightarrow> ByteWriter" where
  "put_set v = w_seq
     [w_u64 (as_id v), w_u64 (as_generation v), put_enum (completeness_value (as_completeness v)),
      w_u32 (word_of_nat (length (as_candidates v))), w_each put_candidate (as_candidates v)]"

definition get_set :: "AlternateSet Result reader" where
  "get_set = do {
     id \<leftarrow> r_u64;
     generation \<leftarrow> r_u64;
     r_try (get_enum completeness_table kCompletenessMax Reason_enum_invalid) (\<lambda>completeness.
     r_try (get_count max_candidates_per_set) (\<lambda>count.
     r_try (get_many count get_candidate) (\<lambda>candidates.
     r_checked
       (let v = \<lparr>as_id = id, as_generation = generation, as_completeness = completeness,
                as_candidates = candidates\<rparr>
        in r_validated (validate_set v) v)))) }"

definition put_terms :: "ScoreTerms \<Rightarrow> ByteWriter \<Rightarrow> ByteWriter" where
  "put_terms t = w_seq
     [w_i64 (sc_health t), w_i64 (sc_cost t), w_i64 (sc_rank t), w_i64 (sc_capability t),
      w_i64 (sc_total t)]"

definition sum_terms :: "i64 \<Rightarrow> i64 \<Rightarrow> i64 \<Rightarrow> i64 \<Rightarrow> i64 option" where
  "sum_terms health cost rank capability =
     Option.bind (checked_add health cost)
       (\<lambda>s. Option.bind (checked_add s rank) (\<lambda>s. checked_add s capability))"

definition get_terms :: "ScoreTerms Result reader" where
  "get_terms = do {
     health \<leftarrow> r_i64;
     cost \<leftarrow> r_i64;
     rank \<leftarrow> r_i64;
     capability \<leftarrow> r_i64;
     tot \<leftarrow> r_i64;
     r_checked
       (case sum_terms health cost rank capability of
          None \<Rightarrow> r_refuse (Status Code_invalid Reason_domain_invalid ''score terms overflow'')
        | Some s \<Rightarrow>
            if s \<noteq> tot then
              r_refuse (Status Code_invalid Reason_domain_invalid
                ''score total inconsistent with terms'')
            else r_done \<lparr>sc_health = health, sc_cost = cost, sc_rank = rank,
                         sc_capability = capability, sc_total = tot\<rparr>) }"

definition put_assessment :: "CandidateAssessment \<Rightarrow> ByteWriter \<Rightarrow> ByteWriter" where
  "put_assessment v = w_seq
     [w_u64 (cas_path v), w_u32 (cas_upstream_rank v), put_terms (cas_terms v),
      put_enum (verdict_value (cas_verdict v)), put_reason (cas_reason v),
      put_enum (severity (cas_authority v))]"

definition get_assessment :: "CandidateAssessment Result reader" where
  "get_assessment = do {
     path \<leftarrow> r_u64;
     upstream_rank \<leftarrow> r_u32;
     r_try get_terms (\<lambda>terms.
     r_try (get_enum verdict_table kVerdictMax Reason_enum_invalid) (\<lambda>verdict.
     r_try (get_reason ''assessment reason out of range'') (\<lambda>reason.
     r_try (get_enum authority_class_table kAuthorityClassMax Reason_enum_invalid) (\<lambda>authority.
     r_checked (r_done
       \<lparr>cas_path = path, cas_upstream_rank = upstream_rank, cas_terms = terms,
        cas_verdict = verdict, cas_reason = reason, cas_authority = authority\<rparr>))))) }"

text \<open>One entry of the explanation; both words are read before the reason is checked.\<close>

definition put_step :: "Reason \<times> i64 \<Rightarrow> ByteWriter \<Rightarrow> ByteWriter" where
  "put_step s = w_seq [put_reason (fst s), w_i64 (snd s)]"

definition get_step :: "(Reason \<times> i64) Result reader" where
  "get_step = do {
     raw_reason \<leftarrow> r_u16;
     value \<leftarrow> r_i64;
     r_checked
       (if unat raw_reason > max_reason_value
        then r_refuse (Status Code_invalid Reason_enum_invalid ''explanation reason out of range'')
        else r_done (reason_table ! unat raw_reason, value)) }"

definition put_decision :: "PromotionDecision \<Rightarrow> ByteWriter \<Rightarrow> ByteWriter" where
  "put_decision v = w_seq
     [w_u64 (pd_id v), put_enum (outcome_value (pd_outcome v)),
      put_enum (authority_kind_value (pd_authority_kind v)),
      w_u64 (pd_incumbent v), w_u64 (pd_set v), w_u64 (pd_set_generation v),
      w_u64 (pd_policy_generation v), w_u64 (pd_obligations_generation v),
      put_authority (pd_basis v), w_u64 (pd_attempt v), w_u64 (pd_selected v),
      w_u32 (word_of_nat (length (pd_ranked v))), w_each put_assessment (pd_ranked v),
      w_u32 (word_of_nat (length (pd_indeterminate_above v))),
      w_each w_u64 (pd_indeterminate_above v),
      w_u32 (word_of_nat (length (pd_explanation v))), w_each put_step (pd_explanation v),
      w_u64 (word_of_nat (pd_examined v)), w_u64 (word_of_nat (pd_supplied v)),
      w_boolean (pd_search_limited v), w_boolean (pd_set_complete v),
      put_reason (pd_reason v), put_enum (provenance_value (pd_provenance v))]"

text \<open>The tail of \<open>get_decision\<close>, from the counted sequences on.\<close>

definition get_decision_tail :: "PromotionDecision \<Rightarrow> PromotionDecision Result reader" where
  "get_decision_tail v =
     r_try (get_count max_assessments_reported) (\<lambda>n.
     r_try (get_many n get_assessment) (\<lambda>ranked.
     r_try (get_count max_indeterminate_reported) (\<lambda>m.
     r_try (get_many m (get_value r_u64)) (\<lambda>indeterminate.
     r_try (get_count max_explanation_steps) (\<lambda>k.
     r_try (get_many k get_step) (\<lambda>explanation. do {
     examined \<leftarrow> r_u64;
     supplied \<leftarrow> r_u64;
     search_limited \<leftarrow> r_boolean;
     set_complete \<leftarrow> r_boolean;
     r_try (get_reason ''decision reason out of range'') (\<lambda>reason.
     r_try (get_enum provenance_table kProvenanceMax Reason_enum_invalid) (\<lambda>provenance.
     r_checked (r_done (v
       \<lparr>pd_ranked := ranked, pd_indeterminate_above := indeterminate,
        pd_explanation := explanation, pd_examined := unat examined,
        pd_supplied := unat supplied, pd_search_limited := search_limited,
        pd_set_complete := set_complete, pd_reason := reason,
        pd_provenance := provenance\<rparr>)))) }))))))"

definition get_decision :: "PromotionDecision Result reader" where
  "get_decision = do {
     id \<leftarrow> r_u64;
     r_try (get_enum outcome_table kOutcomeMax Reason_enum_invalid) (\<lambda>outcome.
     r_try (get_enum authority_kind_table kAuthorityKindMax Reason_enum_invalid) (\<lambda>kind. do {
     incumbent \<leftarrow> r_u64;
     set1 \<leftarrow> r_u64;
     set_generation \<leftarrow> r_u64;
     policy_generation \<leftarrow> r_u64;
     obligations_generation \<leftarrow> r_u64;
     r_try get_authority (\<lambda>basis. do {
     attempt \<leftarrow> r_u64;
     selected \<leftarrow> r_u64;
     get_decision_tail (empty_decision
       \<lparr>pd_id := id, pd_outcome := outcome, pd_authority_kind := kind,
        pd_incumbent := incumbent, pd_set := set1, pd_set_generation := set_generation,
        pd_policy_generation := policy_generation,
        pd_obligations_generation := obligations_generation, pd_basis := basis,
        pd_attempt := attempt, pd_selected := selected\<rparr>) }) })) }"

end
