(* ===== verification/PFF_Codec.thy ===== *)
theory PFF_Codec
  imports PFF_Wire
begin

text \<open>
  The contract of the codecs of \<open>src/wire.cpp\<close> and its proof for each of them.
\<close>

section \<open>Enumerations\<close>

locale enumeration =
  fixes value_of :: "'e \<Rightarrow> nat" and enumerators :: "'e list" and max_inclusive :: nat
  assumes in_table: "enumerators ! value_of x = x"
    and bounded: "value_of x \<le> max_inclusive" and one_byte: "max_inclusive < 256"
begin

lemma value_inj: "value_of x = value_of y \<Longrightarrow> x = y"
  using in_table by metis

lemma get_enum_at:
  "run_state (get_enum enumerators max_inclusive bad)
     (reader_at pre (word_of_nat (value_of x) # rest)) =
   (Inr x, reader_at (pre @ [word_of_nat (value_of x)]) rest)"
proof -
  have "unat (word_of_nat (value_of x) :: u8) = value_of x"
    using bounded [of x] one_byte by (simp add: unat_of_nat)
  then show ?thesis
    using bounded [of x] by (simp add: get_enum_def r_checked_def r_done_def r_prims_at in_table)
qed

lemma put_enum_writes: "writes (put_enum (value_of x)) [word_of_nat (value_of x)]"
  unfolding put_enum_def by (rule writes_prims)

end

interpretation freshness_enum: enumeration freshness_value freshness_table kFreshnessMax
proof
  fix x
  show "freshness_table ! freshness_value x = x" by (cases x) (simp_all add: freshness_table_def)
  show "freshness_value x \<le> kFreshnessMax" by (cases x) (simp_all add: kFreshnessMax_def)
qed (simp add: kFreshnessMax_def)

interpretation eligibility_enum: enumeration eligibility_value eligibility_table kEligibilityMax
proof
  fix x
  show "eligibility_table ! eligibility_value x = x" by (cases x) (simp_all add: eligibility_table_def)
  show "eligibility_value x \<le> kEligibilityMax" by (cases x) (simp_all add: kEligibilityMax_def)
qed (simp add: kEligibilityMax_def)

interpretation reachability_enum: enumeration reachability_value reachability_table kReachabilityMax
proof
  fix x
  show "reachability_table ! reachability_value x = x" by (cases x) (simp_all add: reachability_table_def)
  show "reachability_value x \<le> kReachabilityMax" by (cases x) (simp_all add: kReachabilityMax_def)
qed (simp add: kReachabilityMax_def)

interpretation capacity_enum: enumeration capacity_value capacity_table kCapacityMax
proof
  fix x
  show "capacity_table ! capacity_value x = x" by (cases x) (simp_all add: capacity_table_def)
  show "capacity_value x \<le> kCapacityMax" by (cases x) (simp_all add: kCapacityMax_def)
qed (simp add: kCapacityMax_def)

interpretation completeness_enum: enumeration completeness_value completeness_table kCompletenessMax
proof
  fix x
  show "completeness_table ! completeness_value x = x" by (cases x) (simp_all add: completeness_table_def)
  show "completeness_value x \<le> kCompletenessMax" by (cases x) (simp_all add: kCompletenessMax_def)
qed (simp add: kCompletenessMax_def)

interpretation condition_enum: enumeration condition_value condition_table kConditionMax
proof
  fix x
  show "condition_table ! condition_value x = x" by (cases x) (simp_all add: condition_table_def)
  show "condition_value x \<le> kConditionMax" by (cases x) (simp_all add: kConditionMax_def)
qed (simp add: kConditionMax_def)

interpretation authority_kind_enum: enumeration authority_kind_value authority_kind_table kAuthorityKindMax
proof
  fix x
  show "authority_kind_table ! authority_kind_value x = x" by (cases x) (simp_all add: authority_kind_table_def)
  show "authority_kind_value x \<le> kAuthorityKindMax" by (cases x) (simp_all add: kAuthorityKindMax_def)
qed (simp add: kAuthorityKindMax_def)

interpretation verdict_enum: enumeration verdict_value verdict_table kVerdictMax
proof
  fix x
  show "verdict_table ! verdict_value x = x" by (cases x) (simp_all add: verdict_table_def)
  show "verdict_value x \<le> kVerdictMax" by (cases x) (simp_all add: kVerdictMax_def)
qed (simp add: kVerdictMax_def)

interpretation attempt_state_enum: enumeration attempt_state_value attempt_state_table kAttemptStateMax
proof
  fix x
  show "attempt_state_table ! attempt_state_value x = x" by (cases x) (simp_all add: attempt_state_table_def)
  show "attempt_state_value x \<le> kAttemptStateMax" by (cases x) (simp_all add: kAttemptStateMax_def)
qed (simp add: kAttemptStateMax_def)

interpretation provenance_enum: enumeration provenance_value provenance_table kProvenanceMax
proof
  fix x
  show "provenance_table ! provenance_value x = x" by (cases x) (simp_all add: provenance_table_def)
  show "provenance_value x \<le> kProvenanceMax" by (cases x) (simp_all add: kProvenanceMax_def)
qed (simp add: kProvenanceMax_def)

interpretation outcome_enum: enumeration outcome_value outcome_table kOutcomeMax
proof
  fix x
  show "outcome_table ! outcome_value x = x" by (cases x) (simp_all add: outcome_table_def)
  show "outcome_value x \<le> kOutcomeMax" by (cases x) (simp_all add: kOutcomeMax_def)
qed (simp add: kOutcomeMax_def)

interpretation authority_class_enum: enumeration severity authority_class_table kAuthorityClassMax
proof
  fix x
  show "authority_class_table ! severity x = x" by (cases x) (simp_all add: authority_class_table_def)
  show "severity x \<le> kAuthorityClassMax" by (cases x) (simp_all add: kAuthorityClassMax_def)
qed (simp add: kAuthorityClassMax_def)

lemmas enum_at [codec] =
  freshness_enum.get_enum_at
  eligibility_enum.get_enum_at
  reachability_enum.get_enum_at
  capacity_enum.get_enum_at
  completeness_enum.get_enum_at
  condition_enum.get_enum_at
  authority_kind_enum.get_enum_at
  verdict_enum.get_enum_at
  attempt_state_enum.get_enum_at
  provenance_enum.get_enum_at
  outcome_enum.get_enum_at
  authority_class_enum.get_enum_at

section \<open>Steps of a decoder\<close>

lemma r_step_at [codec]:
  "run_state (r_try m k) r =
     (case run_state m r of (Inl status, r') \<Rightarrow> (Inl status, r') | (Inr v, r') \<Rightarrow> run_state (k v) r')"
  "run_state (r_checked m') (reader_at pre bs) = run_state m' (reader_at pre bs)"
  "run_state (r_done v) r = (Inr v, r)"
  "run_state (r_validated st v) r = (if st_ok st then (Inr v, r) else (Inl st, r))"
  by (simp_all add: r_try_def r_checked_def r_done_def r_validated_def r_refuse_def
      split: prod.split sum.split)

definition enc_reason :: "Reason \<Rightarrow> byte list" where
  "enc_reason r = le 2 (word_of_nat (reason_value r) :: u16)"

lemma unat_reason: "unat (word_of_nat (reason_value r) :: u16) = reason_value r"
  using reason_table_value [of r] by (simp add: unat_of_nat)

lemma get_reason_at [codec]:
  "run_state (get_reason d) (reader_at pre (enc_reason r @ rest)) =
     (Inr r, reader_at (pre @ enc_reason r) rest)"
  using reason_table_value [of r]
  by (simp add: get_reason_def enc_reason_def codec unat_reason)

lemma get_count_at [codec]:
  "n \<le> max_count \<Longrightarrow> n < 4294967296 \<Longrightarrow>
   run_state (get_count max_count) (reader_at pre (le 4 (word_of_nat n :: u32) @ rest)) =
     (Inr n, reader_at (pre @ le 4 (word_of_nat n :: u32)) rest)"
  by (simp add: get_count_def codec unat_of_nat)

lemma writes_seq_Nil: "writes (w_seq []) []"
  by (auto simp: writes_def w_seq_def bw_fits_def)

lemma writes_seq_Cons: "writes f a \<Longrightarrow> writes (w_seq fs) b \<Longrightarrow> writes (w_seq (f # fs)) (a @ b)"
proof -
  have "w_seq (f # fs) = (\<lambda>w. w_seq fs (f w))" by (simp add: w_seq_def fun_eq_iff)
  then show "writes f a \<Longrightarrow> writes (w_seq fs) b \<Longrightarrow> writes (w_seq (f # fs)) (a @ b)"
    using writes_comp by simp
qed

lemma writes_reason: "writes (put_reason r) (enc_reason r)"
  unfolding put_reason_def enc_reason_def by (rule writes_prims)

lemma writes_enum: "writes (put_enum n) [word_of_nat n]"
  unfolding put_enum_def by (rule writes_prims)

section \<open>The contract\<close>

locale codec =
  fixes put :: "'a \<Rightarrow> ByteWriter \<Rightarrow> ByteWriter" and get :: "'a Result reader"
    and enc :: "'a \<Rightarrow> byte list" and wf :: "'a \<Rightarrow> bool"
  assumes put_writes: "writes (put v) (enc v)"
    and get_at: "wf v \<Longrightarrow>
      run_state get (reader_at pre (enc v @ rest)) = (Inr v, reader_at (pre @ enc v) rest)"
begin

lemma written:
  assumes "length (enc v) \<le> max_size"
  shows "bw_ok (put v (byte_writer max_size))" "bw_buffer (put v (byte_writer max_size)) = enc v"
proof -
  have w: "bw_fits (byte_writer max_size)" "bw_ok (byte_writer max_size)"
    by (simp_all add: byte_writer_def bw_fits_def bw_ok_def)
  note put = put_writes [of v, unfolded writes_def, rule_format, OF w(1)]
  show ok: "bw_ok (put v (byte_writer max_size))"
    using put w(2) assms by (simp add: byte_writer_def)
  show "bw_buffer (put v (byte_writer max_size)) = enc v"
  proof -
    have "put v (byte_writer max_size) = (byte_writer max_size)
        \<lparr>bw_buffer := bw_buffer (byte_writer max_size) @ enc v\<rparr>"
      using put ok by blast
    then show ?thesis by (simp add: byte_writer_def)
  qed
qed

lemma refused_when_full:
  "max_size < length (enc v) \<Longrightarrow> \<not> bw_ok (put v (byte_writer max_size))"
  using put_writes [of v] by (simp add: writes_def byte_writer_def bw_fits_def)

lemma round_trip:
  assumes "wf v" "length (enc v) \<le> max_size"
  shows "run_state get (byte_reader (bw_buffer (put v (byte_writer max_size)))) =
      (Inr v, reader_at (enc v) [])"
  using get_at [OF assms(1), of "[]" "[]"] by (simp add: byte_reader_at written assms(2))

lemma self_delimiting:
  assumes "wf v" "wf v'" "enc v @ xs = enc v' @ ys"
  shows "v = v' \<and> xs = ys"
proof -
  have "(Inr v :: 'a Result, reader_at (enc v) xs) = (Inr v', reader_at (enc v') ys)"
    using get_at [OF assms(1), of "[]" xs] get_at [OF assms(2), of "[]" ys]
    by (simp only: assms(3) append_Nil)
  then show ?thesis by (auto simp: reader_at_def)
qed

lemma get_many_at:
  "\<forall>v \<in> set vs. wf v \<Longrightarrow> n = length vs \<Longrightarrow>
   run_state (get_many n get) (reader_at pre (concat (map enc vs) @ rest)) =
     (Inr vs, reader_at (pre @ concat (map enc vs)) rest)"
proof (induction vs arbitrary: n pre)
  case (Cons v vs)
  then show ?case by (simp add: r_step_at get_at)
qed (simp add: r_step_at)

lemma each_writes: "writes (w_each put vs) (concat (map enc vs))"
  using put_writes by (rule writes_each)

end

subsection \<open>\<open>AuthorityVector\<close>\<close>

definition enc_authority :: "AuthorityVector \<Rightarrow> byte list" where
  "enc_authority v =
     le 8 (av_topology v) @ le 8 (av_path_authority v) @ le 8 (av_policy v) @
     le 8 (av_obligations v) @ le 8 (av_epoch v) @ le 8 (av_boot v)"

lemma writes_authority: "writes (put_authority v) (enc_authority v)"
proof -
  have "writes (put_authority v) (enc_authority v @ [])"
    unfolding put_authority_def enc_authority_def append_assoc
    by (intro writes_seq_Cons writes_seq_Nil writes_prims writes_enum writes_reason)
  then show ?thesis by simp
qed

interpretation authority_codec: codec put_authority get_authority enc_authority "(\<lambda>_. True)"
  by (unfold_locales, rule writes_authority)
    (simp add: get_authority_def enc_authority_def codec Let_def)

subsection \<open>\<open>PathEvidence\<close>\<close>

definition enc_evidence :: "PathEvidence \<Rightarrow> byte list" where
  "enc_evidence v =
     le 8 (pe_id v) @ le 8 (pe_path v) @ [word_of_nat (freshness_value (pe_freshness v))] @
     [word_of_nat (eligibility_value (pe_eligibility v))] @
     [word_of_nat (reachability_value (pe_reachability v))] @
     [word_of_nat (capacity_value (pe_capacity v))] @ le 4 (pe_capabilities v) @
     le 8 (pe_health_ppm v) @ le 8 (pe_cost_units v) @ le 8 (pe_observation_seq v) @
     enc_authority (pe_observed_under v) @ [word_of_nat (provenance_value (pe_provenance v))]"

lemma writes_evidence: "writes (put_evidence v) (enc_evidence v)"
proof -
  have "writes (put_evidence v) (enc_evidence v @ [])"
    unfolding put_evidence_def enc_evidence_def append_assoc
    by (intro writes_seq_Cons writes_seq_Nil writes_prims writes_enum writes_reason authority_codec.put_writes)
  then show ?thesis by simp
qed

interpretation evidence_codec: codec put_evidence get_evidence enc_evidence "(\<lambda>_. True)"
  by (unfold_locales, rule writes_evidence)
    (simp add: get_evidence_def enc_evidence_def codec authority_codec.get_at Let_def)

subsection \<open>\<open>EffectEvidence\<close>\<close>

definition enc_effect :: "EffectEvidence \<Rightarrow> byte list" where
  "enc_effect v =
     le 8 (ee_id v) @ le 8 (ee_path v) @ le 8 (ee_observation_seq v) @
     [if ee_effect_verified v then 1 else 0] @ enc_authority (ee_observed_under v) @
     [word_of_nat (provenance_value (ee_provenance v))]"

lemma writes_effect: "writes (put_effect v) (enc_effect v)"
proof -
  have "writes (put_effect v) (enc_effect v @ [])"
    unfolding put_effect_def enc_effect_def append_assoc
    by (intro writes_seq_Cons writes_seq_Nil writes_prims writes_enum writes_reason authority_codec.put_writes)
  then show ?thesis by simp
qed

interpretation effect_codec: codec put_effect get_effect enc_effect "(\<lambda>_. True)"
  by (unfold_locales, rule writes_effect)
    (simp add: get_effect_def enc_effect_def codec authority_codec.get_at Let_def)

subsection \<open>\<open>ServiceObligations\<close>\<close>

definition enc_obligations :: "ServiceObligations \<Rightarrow> byte list" where
  "enc_obligations v =
     le 8 (so_generation v) @ le 4 (so_required_capabilities v) @ le 8 (so_min_health_ppm v) @
     le 8 (so_max_cost_units v) @ [if so_require_reachable v then 1 else 0] @
     [if so_require_capacity v then 1 else 0] @ [if so_require_fresh_evidence v then 1 else 0]"

lemma writes_obligations: "writes (put_obligations v) (enc_obligations v)"
proof -
  have "writes (put_obligations v) (enc_obligations v @ [])"
    unfolding put_obligations_def enc_obligations_def append_assoc
    by (intro writes_seq_Cons writes_seq_Nil writes_prims writes_enum writes_reason)
  then show ?thesis by simp
qed

interpretation obligations_codec: codec put_obligations get_obligations enc_obligations "(\<lambda>v. st_ok (validate_obligations v))"
  by (unfold_locales, rule writes_obligations)
    (simp add: get_obligations_def enc_obligations_def codec  validation policy_weights_def Let_def)

subsection \<open>\<open>FailoverPolicy\<close>\<close>

definition enc_policy :: "FailoverPolicy \<Rightarrow> byte list" where
  "enc_policy v =
     le 8 (fp_generation v) @ le 8 (fp_w_health v) @ le 8 (fp_w_cost v) @ le 8 (fp_w_rank v) @
     le 8 (fp_w_capability v) @ le 8 (fp_min_score v) @ le 4 (fp_search_limit v) @
     le 4 (fp_max_retained_attempts v) @ le 4 (fp_max_revalidations v) @
     [if fp_allow_unknown_skip v then 1 else 0] @
     [if fp_require_verified_effect v then 1 else 0]"

lemma writes_policy: "writes (put_policy v) (enc_policy v)"
proof -
  have "writes (put_policy v) (enc_policy v @ [])"
    unfolding put_policy_def enc_policy_def append_assoc
    by (intro writes_seq_Cons writes_seq_Nil writes_prims writes_enum writes_reason)
  then show ?thesis by simp
qed

interpretation policy_codec: codec put_policy get_policy enc_policy "(\<lambda>v. st_ok (validate_policy v))"
  by (unfold_locales, rule writes_policy)
    (simp add: get_policy_def enc_policy_def codec  validation policy_weights_def Let_def)

subsection \<open>\<open>AlternateCandidate\<close>\<close>

definition enc_candidate :: "AlternateCandidate \<Rightarrow> byte list" where
  "enc_candidate v =
     le 8 (ca_path v) @ le 4 (ca_upstream_rank v) @ [if ca_withdrawn v then 1 else 0] @
     enc_evidence (ca_evidence v) @ enc_authority (ca_authority v)"

lemma writes_candidate: "writes (put_candidate v) (enc_candidate v)"
proof -
  have "writes (put_candidate v) (enc_candidate v @ [])"
    unfolding put_candidate_def enc_candidate_def append_assoc
    by (intro writes_seq_Cons writes_seq_Nil writes_prims writes_enum writes_reason authority_codec.put_writes evidence_codec.put_writes)
  then show ?thesis by simp
qed

interpretation candidate_codec: codec put_candidate get_candidate enc_candidate "(\<lambda>v. st_ok (validate_candidate v))"
  by (unfold_locales, rule writes_candidate)
    (simp add: get_candidate_def enc_candidate_def codec authority_codec.get_at evidence_codec.get_at validation policy_weights_def Let_def)

subsection \<open>\<open>PromotionRequest\<close>\<close>

definition enc_request :: "PromotionRequest \<Rightarrow> byte list" where
  "enc_request v =
     le 8 (pr_incumbent v) @ [word_of_nat (condition_value (pr_condition v))] @
     le 8 (pr_set v) @ le 8 (pr_set_generation v) @ le 8 (pr_policy_generation v) @
     le 8 (pr_obligations_generation v) @ le 8 (pr_topology_generation v) @
     le 8 (pr_path_authority_generation v) @ le 8 (pr_epoch v) @ le 8 (pr_boot v) @
     le 8 (pr_attempt v)"

lemma writes_request: "writes (put_request v) (enc_request v)"
proof -
  have "writes (put_request v) (enc_request v @ [])"
    unfolding put_request_def enc_request_def append_assoc
    by (intro writes_seq_Cons writes_seq_Nil writes_prims writes_enum writes_reason)
  then show ?thesis by simp
qed

interpretation request_codec: codec put_request get_request enc_request "(\<lambda>_. True)"
  by (unfold_locales, rule writes_request)
    (simp add: get_request_def enc_request_def codec Let_def)

subsection \<open>\<open>AttemptRecord\<close>\<close>

definition enc_attempt :: "AttemptRecord \<Rightarrow> byte list" where
  "enc_attempt v =
     le 8 (ar_id v) @ le 8 (ar_epoch v) @ le 8 (ar_boot v) @ le 8 (ar_incumbent v) @
     le 8 (ar_selected v) @ le 8 (ar_set v) @ le 8 (ar_set_generation v) @
     enc_authority (ar_basis v) @ [word_of_nat (attempt_state_value (ar_state v))] @
     enc_reason (ar_terminal_reason v) @ le 8 (ar_begin_sequence v) @
     le 8 (ar_terminal_sequence v) @ le 4 (ar_revalidations v)"

lemma writes_attempt: "writes (put_attempt v) (enc_attempt v)"
proof -
  have "writes (put_attempt v) (enc_attempt v @ [])"
    unfolding put_attempt_def enc_attempt_def append_assoc
    by (intro writes_seq_Cons writes_seq_Nil writes_prims writes_enum writes_reason authority_codec.put_writes)
  then show ?thesis by simp
qed

interpretation attempt_codec: codec put_attempt get_attempt enc_attempt "(\<lambda>_. True)"
  by (unfold_locales, rule writes_attempt)
    (simp add: get_attempt_def enc_attempt_def codec authority_codec.get_at Let_def)

subsection \<open>\<open>FenceRecord\<close>\<close>

definition enc_fence :: "FenceRecord \<Rightarrow> byte list" where
  "enc_fence v =
     le 8 (fr_id v) @ le 8 (fr_epoch v) @ le 8 (fr_boot v) @ le 8 (fr_attempt v) @
     le 8 (fr_path v) @ enc_reason (fr_reason v) @ enc_authority (fr_at v) @
     le 8 (fr_sequence v)"

lemma writes_fence: "writes (put_fence v) (enc_fence v)"
proof -
  have "writes (put_fence v) (enc_fence v @ [])"
    unfolding put_fence_def enc_fence_def append_assoc
    by (intro writes_seq_Cons writes_seq_Nil writes_prims writes_enum writes_reason authority_codec.put_writes)
  then show ?thesis by simp
qed

interpretation fence_codec: codec put_fence get_fence enc_fence "(\<lambda>_. True)"
  by (unfold_locales, rule writes_fence)
    (simp add: get_fence_def enc_fence_def codec authority_codec.get_at Let_def)

subsection \<open>\<open>LineageEntry\<close>\<close>

definition enc_lineage :: "LineageEntry \<Rightarrow> byte list" where
  "enc_lineage v =
     le 8 (li_decision v) @ le 8 (li_attempt v) @ le 8 (li_epoch v) @ le 8 (li_boot v) @
     [word_of_nat (outcome_value (li_outcome v))] @ le 8 (li_incumbent v) @
     le 8 (li_selected v) @ le 8 (li_set v) @ enc_authority (li_basis v) @
     enc_reason (li_reason v) @ le 8 (li_sequence v)"

lemma writes_lineage: "writes (put_lineage v) (enc_lineage v)"
proof -
  have "writes (put_lineage v) (enc_lineage v @ [])"
    unfolding put_lineage_def enc_lineage_def append_assoc
    by (intro writes_seq_Cons writes_seq_Nil writes_prims writes_enum writes_reason authority_codec.put_writes)
  then show ?thesis by simp
qed

interpretation lineage_codec: codec put_lineage get_lineage enc_lineage "(\<lambda>_. True)"
  by (unfold_locales, rule writes_lineage)
    (simp add: get_lineage_def enc_lineage_def codec authority_codec.get_at Let_def)

subsection \<open>\<open>AlternateSet\<close>\<close>

definition enc_set :: "AlternateSet \<Rightarrow> byte list" where
  "enc_set v = le 8 (as_id v) @ le 8 (as_generation v) @
     [word_of_nat (completeness_value (as_completeness v))] @
     le 4 (word_of_nat (length (as_candidates v)) :: u32) @
     concat (map enc_candidate (as_candidates v))"

lemma writes_set: "writes (put_set v) (enc_set v)"
proof -
  have "writes (put_set v) (enc_set v @ [])"
    unfolding put_set_def enc_set_def append_assoc
    by (intro writes_seq_Cons writes_seq_Nil writes_prims writes_enum
        candidate_codec.each_writes)
  then show ?thesis by simp
qed

interpretation set_codec: codec put_set get_set enc_set "\<lambda>v. st_ok (validate_set v)"
  by unfold_locales
    (rule writes_set, simp add: get_set_def enc_set_def codec candidate_codec.get_many_at Let_def
      validate_set_ok max_candidates_per_set_def)

subsection \<open>\<open>ScoreTerms\<close> and \<open>CandidateAssessment\<close>\<close>

definition enc_terms :: "ScoreTerms \<Rightarrow> byte list" where
  "enc_terms t = le 8 (sc_health t) @ le 8 (sc_cost t) @ le 8 (sc_rank t) @
     le 8 (sc_capability t) @ le 8 (sc_total t)"

definition consistent_terms :: "ScoreTerms \<Rightarrow> bool" where
  "consistent_terms t \<longleftrightarrow>
     sum_terms (sc_health t) (sc_cost t) (sc_rank t) (sc_capability t) = Some (sc_total t)"

lemma writes_terms: "writes (put_terms v) (enc_terms v)"
proof -
  have "writes (put_terms v) (enc_terms v @ [])"
    unfolding put_terms_def enc_terms_def append_assoc
    by (intro writes_seq_Cons writes_seq_Nil writes_prims)
  then show ?thesis by simp
qed

interpretation terms_codec: codec put_terms get_terms enc_terms consistent_terms
  by unfold_locales
    (rule writes_terms, simp add: get_terms_def enc_terms_def consistent_terms_def codec)

definition enc_assessment :: "CandidateAssessment \<Rightarrow> byte list" where
  "enc_assessment v = le 8 (cas_path v) @ le 4 (cas_upstream_rank v) @ enc_terms (cas_terms v) @
     [word_of_nat (verdict_value (cas_verdict v))] @ enc_reason (cas_reason v) @
     [word_of_nat (severity (cas_authority v))]"

lemma writes_assessment: "writes (put_assessment v) (enc_assessment v)"
proof -
  have "writes (put_assessment v) (enc_assessment v @ [])"
    unfolding put_assessment_def enc_assessment_def append_assoc
    by (intro writes_seq_Cons writes_seq_Nil writes_prims writes_enum writes_reason writes_terms)
  then show ?thesis by simp
qed

interpretation assessment_codec: codec put_assessment get_assessment enc_assessment
    "\<lambda>v. consistent_terms (cas_terms v)"
  by unfold_locales
    (rule writes_assessment, simp add: get_assessment_def enc_assessment_def codec
      terms_codec.get_at)

subsection \<open>\<open>PromotionDecision\<close>\<close>

definition enc_step :: "Reason \<times> i64 \<Rightarrow> byte list" where
  "enc_step s = enc_reason (fst s) @ le 8 (snd s)"

lemma writes_step: "writes (put_step s) (enc_step s)"
proof -
  have "writes (put_step s) (enc_step s @ [])"
    unfolding put_step_def enc_step_def append_assoc
    by (intro writes_seq_Cons writes_seq_Nil writes_prims writes_reason)
  then show ?thesis by simp
qed

interpretation step_codec: codec put_step get_step enc_step "\<lambda>_. True"
proof
  fix v :: "Reason \<times> i64" and pre rest
  show "run_state get_step (reader_at pre (enc_step v @ rest)) =
      (Inr v, reader_at (pre @ enc_step v) rest)"
    using reason_table_value [of "fst v"]
    by (simp add: get_step_def enc_step_def enc_reason_def codec unat_reason)
qed (rule writes_step)

interpretation id_codec: codec w_u64 "get_value r_u64" "le 8" "\<lambda>_. True"
  by unfold_locales (rule writes_prims, simp add: get_value_def codec)

definition enc_decision_tail :: "PromotionDecision \<Rightarrow> byte list" where
  "enc_decision_tail v =
     le 4 (word_of_nat (length (pd_ranked v)) :: u32) @ concat (map enc_assessment (pd_ranked v)) @
     le 4 (word_of_nat (length (pd_indeterminate_above v)) :: u32) @
     concat (map (le 8) (pd_indeterminate_above v)) @
     le 4 (word_of_nat (length (pd_explanation v)) :: u32) @
     concat (map enc_step (pd_explanation v)) @
     le 8 (word_of_nat (pd_examined v) :: u64) @ le 8 (word_of_nat (pd_supplied v) :: u64) @
     [if pd_search_limited v then 1 else 0] @ [if pd_set_complete v then 1 else 0] @
     enc_reason (pd_reason v) @ [word_of_nat (provenance_value (pd_provenance v))]"

definition enc_decision :: "PromotionDecision \<Rightarrow> byte list" where
  "enc_decision v =
     le 8 (pd_id v) @ [word_of_nat (outcome_value (pd_outcome v))] @
     [word_of_nat (authority_kind_value (pd_authority_kind v))] @
     le 8 (pd_incumbent v) @ le 8 (pd_set v) @ le 8 (pd_set_generation v) @
     le 8 (pd_policy_generation v) @ le 8 (pd_obligations_generation v) @
     enc_authority (pd_basis v) @ le 8 (pd_attempt v) @ le 8 (pd_selected v) @
     enc_decision_tail v"

text \<open>
  What a decision must satisfy to survive the trip. The work counters are not part of the
  document, so the decoded decision has none.
\<close>

definition wf_decision :: "PromotionDecision \<Rightarrow> bool" where
  "wf_decision v \<longleftrightarrow> (\<forall>a \<in> set (pd_ranked v). consistent_terms (cas_terms a)) \<and>
     length (pd_ranked v) \<le> max_assessments_reported \<and>
     length (pd_indeterminate_above v) \<le> max_indeterminate_reported \<and>
     length (pd_explanation v) \<le> max_explanation_steps \<and>
     pd_examined v < 2 ^ 64 \<and> pd_supplied v < 2 ^ 64 \<and> pd_stats v = zero_stats"

lemma writes_decision: "writes (put_decision v) (enc_decision v)"
proof -
  have "writes (put_decision v) (enc_decision v @ [])"
    unfolding put_decision_def enc_decision_def enc_decision_tail_def append_assoc
    by (intro writes_seq_Cons writes_seq_Nil writes_prims writes_enum writes_reason
        authority_codec.put_writes assessment_codec.each_writes id_codec.each_writes
        step_codec.each_writes)
  then show ?thesis by simp
qed

lemma get_decision_tail_at:
  assumes "wf_decision v"
  shows "run_state (get_decision_tail d) (reader_at pre (enc_decision_tail v @ rest)) =
    (Inr (d\<lparr>pd_ranked := pd_ranked v, pd_indeterminate_above := pd_indeterminate_above v,
       pd_explanation := pd_explanation v, pd_examined := pd_examined v,
       pd_supplied := pd_supplied v, pd_search_limited := pd_search_limited v,
       pd_set_complete := pd_set_complete v, pd_reason := pd_reason v,
       pd_provenance := pd_provenance v\<rparr>), reader_at (pre @ enc_decision_tail v) rest)"
  using assms
  by (simp add: get_decision_tail_def enc_decision_tail_def codec wf_decision_def unat_of_nat
      assessment_codec.get_many_at id_codec.get_many_at step_codec.get_many_at
      max_assessments_reported_def max_indeterminate_reported_def max_explanation_steps_def)

interpretation decision_codec: codec put_decision get_decision enc_decision wf_decision
proof
  fix v pre rest assume v: "wf_decision v"
  then have "pd_stats v = zero_stats" by (simp add: wf_decision_def)
  then show "run_state get_decision (reader_at pre (enc_decision v @ rest)) =
      (Inr v, reader_at (pre @ enc_decision v) rest)"
    using get_decision_tail_at [OF v]
    by (simp add: get_decision_def enc_decision_def codec authority_codec.get_at
        empty_decision_def)
qed (rule writes_decision)

end
