(* ===== verification/PFF_Crc.thy ===== *)
theory PFF_Crc
  imports PFF_Canonical
begin

text \<open>
  Integrity checks: \<open>include/pff/crc32c.hpp\<close> and \<open>src/crc32c.cpp\<close>.

  The table-driven CRC is shown equal to the bit-serial division it tabulates. Both the CRC and
  FNV-1a are shown to separate any two byte sequences of the same length that differ in one
  byte, whatever surrounds it.
\<close>

unbundle bit_operations_syntax

section \<open>Model\<close>

definition crc_poly :: u32 where
  "crc_poly = 0x82F63B78"

definition crc_bit :: "u32 \<Rightarrow> u32" where
  "crc_bit crc = (if crc AND 1 \<noteq> 0 then crc_poly XOR drop_bit 1 crc else drop_bit 1 crc)"

definition make_crc32c_table :: "u32 list" where
  "make_crc32c_table = map (\<lambda>i. (crc_bit ^^ 8) (word_of_nat i)) [0..<256]"

definition kCrc32cTable :: "u32 list" where
  "kCrc32cTable = make_crc32c_table"

definition kCrc32cInit :: u32 where "kCrc32cInit = 0xFFFFFFFF"
definition kCrc32cXorOut :: u32 where "kCrc32cXorOut = 0xFFFFFFFF"

primrec crc32c_update :: "u32 \<Rightarrow> byte list \<Rightarrow> u32" where
  "crc32c_update crc [] = crc"
| "crc32c_update crc (raw # data) =
     (let index = ucast (crc XOR ucast raw) :: u8
      in crc32c_update (kCrc32cTable ! unat index XOR drop_bit 8 crc) data)"

definition crc32c :: "byte list \<Rightarrow> u32" where
  "crc32c data = crc32c_update kCrc32cInit data XOR kCrc32cXorOut"

primrec fnv1a64_from :: "u64 \<Rightarrow> byte list \<Rightarrow> u64" where
  "fnv1a64_from h [] = h"
| "fnv1a64_from h (raw # data) = fnv1a64_from ((h XOR ucast raw) * 1099511628211) data"

definition fnv1a64 :: "byte list \<Rightarrow> u64" where
  "fnv1a64 data = fnv1a64_from 1469598103934665603 data"

section \<open>The table tabulates bit-serial division\<close>

text \<open>The reference: one byte is folded in by eight bit steps.\<close>

definition crc_byte :: "u32 \<Rightarrow> byte \<Rightarrow> u32" where
  "crc_byte crc raw = (crc_bit ^^ 8) (crc XOR ucast raw)"

lemma and_one_bit: "(x AND 1 \<noteq> 0) = bit (x :: 'a :: len word) 0"
  by (metis and_one_eq bit_0 odd_iff_mod_2_eq_one one_mod_two_eq_one mod_0 even_mod_2_iff
      zero_neq_one mod2_eq_if)

lemma crc_bit_xor: "crc_bit (a XOR b) = crc_bit a XOR crc_bit b"
  unfolding crc_bit_def and_one_bit
  by (auto intro!: bit_eqI simp: bit_simps)

lemma crc_bits_xor: "(crc_bit ^^ n) (a XOR b) = (crc_bit ^^ n) a XOR (crc_bit ^^ n) b"
  by (induction n) (simp_all add: crc_bit_xor)

lemma crc_bits_shift: "\<forall>i < n. \<not> bit a i \<Longrightarrow> (crc_bit ^^ n) a = drop_bit n a"
proof (induction n)
  case (Suc n)
  then have "(crc_bit ^^ n) a = drop_bit n a" by simp
  moreover have "crc_bit (drop_bit n a) = drop_bit (Suc n) a"
    using Suc.prems by (simp add: crc_bit_def and_one_bit bit_simps)
  ultimately show ?case by simp
qed simp

lemma table_byte: "kCrc32cTable ! unat (b :: byte) = (crc_bit ^^ 8) (ucast b)"
proof -
  have "unat b < 256" using unsigned_less [of b] by simp
  then show ?thesis
    by (simp add: kCrc32cTable_def make_crc32c_table_def of_nat_unat)
qed

lemma crc_step: "kCrc32cTable ! unat (ucast (crc XOR ucast raw) :: u8) XOR drop_bit 8 crc =
    crc_byte crc raw"
proof -
  let ?x = "crc XOR ucast raw"
  define lo hi where "lo = (ucast (ucast ?x :: u8) :: u32)" and "hi = ?x AND NOT (mask 8)"
  have split: "?x = lo XOR hi"
    by (auto intro!: bit_eqI simp: lo_def hi_def bit_simps)
  have "(crc_bit ^^ 8) hi = drop_bit 8 hi"
    by (rule crc_bits_shift) (simp add: hi_def bit_simps)
  moreover have "drop_bit 8 hi = drop_bit 8 crc"
  proof (rule bit_eqI)
    fix n
    show "bit (drop_bit 8 hi) n = bit (drop_bit 8 crc) n"
      using bit_imp_le_length [of crc "8 + n"] bit_imp_le_length [of raw "8 + n"]
      by (auto simp: hi_def bit_simps)
  qed
  ultimately show ?thesis
    unfolding crc_byte_def table_byte by (subst split) (simp add: crc_bits_xor lo_def)
qed

lemma crc32c_update_foldl: "crc32c_update crc data = foldl crc_byte crc data"
  by (induction data arbitrary: crc) (simp_all add: crc_step Let_def)

section \<open>A changed byte changes the check\<close>

lemma crc_bit_inj: "crc_bit a = crc_bit b \<Longrightarrow> a = b"
proof -
  assume eq: "crc_bit a = crc_bit b"
  have top_bit: "bit (crc_bit x) 31 = bit x 0" for x
  proof -
    have "bit crc_poly 31" by (simp add: crc_poly_def)
    moreover have "\<not> bit x 32" using bit_imp_le_length [of x 32] by auto
    ultimately show ?thesis by (simp add: crc_bit_def and_one_bit bit_simps)
  qed
  then have zero: "bit a 0 = bit b 0" using eq by metis
  have "drop_bit 1 x = crc_bit x XOR (if bit x 0 then crc_poly else 0)" for x
    by (auto intro!: bit_eqI simp: crc_bit_def and_one_bit bit_simps)
  then have "drop_bit 1 a = drop_bit 1 b" using eq zero by metis
  then have rest: "bit a (Suc n) = bit b (Suc n)" for n
    by (metis bit_drop_bit_eq comp_apply plus_1_eq_Suc)
  show "a = b"
  proof (rule bit_eqI)
    fix n show "bit a n = bit b n" using zero rest by (cases n) simp_all
  qed
qed

lemma xor_cancel: "a XOR x = b XOR x \<Longrightarrow> a = b" "x XOR a = x XOR b \<Longrightarrow> a = b"
  for a b x :: "'a :: len word"
  by (metis xor.assoc xor.commute xor.right_neutral xor_self_eq)+

lemma ucast_byte_inj:
  fixes x y :: byte
  assumes "(ucast x :: 'b :: len word) = ucast y" "8 \<le> LENGTH('b)"
  shows "x = y"
proof (rule bit_eqI)
  fix n assume "possible_bit TYPE(byte) n"
  then have "n < 8" by (simp add: possible_bit_def)
  moreover have "bit (ucast x :: 'b word) n = bit (ucast y :: 'b word) n" using assms(1) by simp
  ultimately show "bit x n = bit y n" using assms(2) by (simp add: bit_simps)
qed

lemma crc_bits_inj: "(crc_bit ^^ n) a = (crc_bit ^^ n) b \<Longrightarrow> a = b"
  by (induction n) (auto dest: crc_bit_inj)

lemma crc_byte_inj:
  "crc_byte c x = crc_byte c' x \<Longrightarrow> c = c'" "crc_byte c x = crc_byte c y \<Longrightarrow> x = y"
proof -
  show "crc_byte c x = crc_byte c' x \<Longrightarrow> c = c'"
    unfolding crc_byte_def by (drule crc_bits_inj) (rule xor_cancel(1))
  assume "crc_byte c x = crc_byte c y"
  then have "c XOR ucast x = c XOR ucast y" unfolding crc_byte_def by (rule crc_bits_inj)
  then have "(ucast x :: u32) = ucast y" by (rule xor_cancel(2))
  then show "x = y" by (rule ucast_byte_inj) simp
qed

lemma crc_foldl_inj: "foldl crc_byte c data = foldl crc_byte c' data \<Longrightarrow> c = c'"
  by (induction data arbitrary: c c') (auto dest: crc_byte_inj(1))

lemma crc_change:
  "a \<noteq> b \<Longrightarrow> crc32c (xs @ a # ys) \<noteq> crc32c (xs @ b # ys)"
proof
  assume ab: "a \<noteq> b" and eq: "crc32c (xs @ a # ys) = crc32c (xs @ b # ys)"
  have "crc32c_update kCrc32cInit (xs @ a # ys) = crc32c_update kCrc32cInit (xs @ b # ys)"
    using eq unfolding crc32c_def by (rule xor_cancel(1))
  then show False
    using ab by (auto simp: crc32c_update_foldl dest!: crc_foldl_inj crc_byte_inj(2))
qed

lemma fnv_step_inj: "(x :: u64) * 1099511628211 = y * 1099511628211 \<Longrightarrow> x = y"
proof -
  assume "x * 1099511628211 = y * 1099511628211"
  then have "x * (1099511628211 * 14886173955864302971) = y * (1099511628211 * 14886173955864302971)"
    by (simp only: mult.assoc [symmetric])
  moreover have "1099511628211 * 14886173955864302971 = (1 :: u64)" by code_simp
  ultimately show ?thesis by (simp only: mult_1_right)
qed

lemma fnv_inj: "fnv1a64_from h data = fnv1a64_from h' data \<Longrightarrow> h = h'"
  by (induction data arbitrary: h h') (auto dest!: fnv_step_inj xor_cancel(1))

lemma fnv_change: "a \<noteq> b \<Longrightarrow> fnv1a64 (xs @ a # ys) \<noteq> fnv1a64 (xs @ b # ys)"
proof
  assume ab: "a \<noteq> b" and eq: "fnv1a64 (xs @ a # ys) = fnv1a64 (xs @ b # ys)"
  have app: "fnv1a64_from h (xs @ zs) = fnv1a64_from (fnv1a64_from h xs) zs" for h zs
    by (induction xs arbitrary: h) simp_all
  show False
    using eq ab unfolding fnv1a64_def app
    by (auto dest!: fnv_inj fnv_step_inj xor_cancel(2) dest: ucast_byte_inj)
qed

end
