(* ===== verification/PFF_Journal.thy ===== *)
theory PFF_Journal
  imports PFF_Codec PFF_Crc
begin

text \<open>
  The durable formats of \<open>include/pff/store.hpp\<close> and \<open>src/store.cpp\<close>: record framing, payload
  encoders, the application of one record to the materialised state, and the snapshot document.

  \<open>apply_record\<close> returns the state next to its status, because the source updates the state in
  place and one branch (\<open>counters\<close>) does so before it has checked its payload.
\<close>

section \<open>Record types and framing\<close>

datatype RecordType =
    RecordType_policy_set
  | RecordType_obligations_set
  | RecordType_alternate_set_put
  | RecordType_fence_recorded
  | RecordType_attempt_begin
  | RecordType_attempt_state
  | RecordType_lineage_entry
  | RecordType_epoch_advance
  | RecordType_snapshot_marker
  | RecordType_counters

primrec record_type_value :: "RecordType \<Rightarrow> nat" where
  "record_type_value RecordType_policy_set = 1"
| "record_type_value RecordType_obligations_set = 2"
| "record_type_value RecordType_alternate_set_put = 3"
| "record_type_value RecordType_fence_recorded = 4"
| "record_type_value RecordType_attempt_begin = 5"
| "record_type_value RecordType_attempt_state = 6"
| "record_type_value RecordType_lineage_entry = 7"
| "record_type_value RecordType_epoch_advance = 8"
| "record_type_value RecordType_snapshot_marker = 9"
| "record_type_value RecordType_counters = 10"

definition record_type_table :: "RecordType list" where
  "record_type_table =
    [RecordType_policy_set, RecordType_obligations_set, RecordType_alternate_set_put,
     RecordType_fence_recorded, RecordType_attempt_begin, RecordType_attempt_state,
     RecordType_lineage_entry, RecordType_epoch_advance, RecordType_snapshot_marker,
     RecordType_counters]"

text \<open>\<open>static_cast<RecordType>\<close> of a value that \<open>is_known_record_type\<close> admits.\<close>

definition record_type_of :: "u16 \<Rightarrow> RecordType" where
  "record_type_of raw = record_type_table ! (unat raw - 1)"

primrec record_type_to_string :: "RecordType \<Rightarrow> string" where
  "record_type_to_string RecordType_policy_set = ''policy_set''"
| "record_type_to_string RecordType_obligations_set = ''obligations_set''"
| "record_type_to_string RecordType_alternate_set_put = ''alternate_set_put''"
| "record_type_to_string RecordType_fence_recorded = ''fence_recorded''"
| "record_type_to_string RecordType_attempt_begin = ''attempt_begin''"
| "record_type_to_string RecordType_attempt_state = ''attempt_state''"
| "record_type_to_string RecordType_lineage_entry = ''lineage_entry''"
| "record_type_to_string RecordType_epoch_advance = ''epoch_advance''"
| "record_type_to_string RecordType_snapshot_marker = ''snapshot_marker''"
| "record_type_to_string RecordType_counters = ''counters''"

definition is_known_record_type :: "u16 \<Rightarrow> bool" where
  "is_known_record_type raw \<longleftrightarrow>
     unat raw \<ge> record_type_value RecordType_policy_set \<and>
     unat raw \<le> record_type_value RecordType_counters"

definition durable_format_version :: u16 where "durable_format_version = 1"
definition journal_magic :: u32 where "journal_magic = 0x31464650"
definition journal_header_bytes :: nat where "journal_header_bytes = 24"
definition journal_trailer_bytes :: nat where "journal_trailer_bytes = 4"
definition snapshot_magic :: u32 where "snapshot_magic = 0x53464650"
definition snapshot_footer_magic :: u32 where "snapshot_footer_magic = 0x45464650"
definition snapshot_header_bytes :: nat where "snapshot_header_bytes = 40"
definition kSnapshotHeaderCrcOffset :: nat where "kSnapshotHeaderCrcOffset = 32"

record JournalRecordHeader =
  jh_magic :: u32
  jh_version :: u16
  jh_type :: u16
  jh_sequence :: u64
  jh_payload_length :: u32
  jh_header_crc :: u32

definition finish :: "ByteWriter \<Rightarrow> byte list" where
  "finish writer = (if \<not> bw_ok writer then [] else bw_buffer writer)"

definition encode_journal_record :: "RecordType \<Rightarrow> u64 \<Rightarrow> byte list \<Rightarrow> byte list" where
  "encode_journal_record type sequence payload =
     (if length payload > max_record_payload \<or> sequence = 0 then []
      else
     (let writer = w_seq
            [w_u32 journal_magic, w_u16 durable_format_version,
             w_u16 (word_of_nat (record_type_value type)), w_u64 sequence,
             w_u32 (word_of_nat (length payload))]
            (byte_writer (max_record_payload + journal_header_bytes + journal_trailer_bytes))
      in if \<not> bw_ok writer then []
         else
     (let writer = w_bytes payload (w_u32 (crc32c (bw_buffer writer)) writer)
      in if \<not> bw_ok writer then []
         else finish (w_u32 (crc32c payload) writer))))"

definition get_journal_header :: "JournalRecordHeader reader" where
  "get_journal_header = do {
     magic \<leftarrow> r_u32;
     version \<leftarrow> r_u16;
     type \<leftarrow> r_u16;
     sequence \<leftarrow> r_u64;
     payload_length \<leftarrow> r_u32;
     header_crc \<leftarrow> r_u32;
     State_Monad.return
       \<lparr>jh_magic = magic, jh_version = version, jh_type = type, jh_sequence = sequence,
        jh_payload_length = payload_length, jh_header_crc = header_crc\<rparr> }"

definition decode_journal_header :: "byte list \<Rightarrow> JournalRecordHeader Result" where
  "decode_journal_header header_bytes =
     (if length header_bytes \<noteq> journal_header_bytes then
        Inl (Status Code_invalid Reason_length_invalid ''journal header length'')
      else
     (case run_state get_journal_header (byte_reader header_bytes) of
        (header, reader) \<Rightarrow>
      if \<not> br_ok reader \<or> \<not> at_end reader then
        Inl (Status Code_invalid Reason_length_invalid ''journal header truncated'')
      else if jh_magic header \<noteq> journal_magic then
        Inl (Status Code_corrupt Reason_format_magic_mismatch ''journal magic mismatch'')
      else if jh_version header \<noteq> durable_format_version then
        Inl (Status Code_version_unsupported Reason_unsupported_version
          ''journal format version unsupported'')
      else if \<not> is_known_record_type (jh_type header) then
        Inl (Status Code_invalid Reason_record_type_invalid ''journal record type invalid'')
      else if jh_sequence header = 0 then
        Inl (Status Code_corrupt Reason_sequence_regression ''journal sequence zero'')
      else if unat (jh_payload_length header) > max_record_payload then
        Inl (Status Code_corrupt Reason_length_invalid ''journal payload length exceeds bound'')
      else if crc32c (take (journal_header_bytes - journal_trailer_bytes) header_bytes) \<noteq>
              jh_header_crc header then
        Inl (Status Code_corrupt Reason_corrupt_header ''journal header integrity failure'')
      else Inr header))"

section \<open>Payloads\<close>

definition payload_writer :: ByteWriter where
  "payload_writer = byte_writer max_record_payload"

definition encode_policy_record :: "FailoverPolicy \<Rightarrow> byte list" where
  "encode_policy_record policy = finish (put_policy policy payload_writer)"

definition encode_obligations_record :: "ServiceObligations \<Rightarrow> byte list" where
  "encode_obligations_record obligations = finish (put_obligations obligations payload_writer)"

definition encode_set_record :: "AlternateSet \<Rightarrow> byte list" where
  "encode_set_record st = finish (put_set st payload_writer)"

definition encode_fence_record :: "FenceRecord \<Rightarrow> byte list" where
  "encode_fence_record fence = finish (put_fence fence payload_writer)"

definition encode_attempt_record :: "AttemptRecord \<Rightarrow> byte list" where
  "encode_attempt_record attempt = finish (put_attempt attempt payload_writer)"

definition encode_lineage_record :: "LineageEntry \<Rightarrow> byte list" where
  "encode_lineage_record entry = finish (put_lineage entry payload_writer)"

definition encode_epoch_record :: "AuthorityVector \<Rightarrow> u64 \<Rightarrow> u64 \<Rightarrow> u64 \<Rightarrow> u64 \<Rightarrow> byte list" where
  "encode_epoch_record authority restart_count attempt_sequence fence_sequence
     decision_sequence =
     finish (w_seq [put_authority authority, w_u64 restart_count, w_u64 attempt_sequence,
       w_u64 fence_sequence, w_u64 decision_sequence] payload_writer)"

definition encode_counters_record :: "DurableState \<Rightarrow> byte list" where
  "encode_counters_record state =
     finish (w_seq [w_u64 (ds_attempt_sequence state), w_u64 (ds_fence_sequence state),
       w_u64 (ds_decision_sequence state), w_u64 (ds_fence_overflow state),
       w_u64 (ds_attempts_dropped state), w_boolean (ds_lineage_truncated state)] payload_writer)"

section \<open>Application of a record\<close>

definition end_of :: "Status reader" where
  "end_of = do {
     reader \<leftarrow> State_Monad.get;
     if \<not> br_ok reader then State_Monad.return (br_status reader) else require_end }"

text \<open>A payload holds exactly one value.\<close>

definition decode_exactly :: "'a Result reader \<Rightarrow> byte list \<Rightarrow> 'a Result" where
  "decode_exactly get1 payload =
     (case run_state get1 (byte_reader payload) of
        (Inl status, reader) \<Rightarrow> Inl status
      | (Inr value, reader) \<Rightarrow>
          (let status = fst (run_state end_of reader)
           in if \<not> st_ok status then Inl status else Inr value))"

primrec update_first :: "('a \<Rightarrow> bool) \<Rightarrow> 'a \<Rightarrow> 'a list \<Rightarrow> 'a list" where
  "update_first P y [] = []"
| "update_first P y (x # xs) = (if P x then y # xs else x # update_first P y xs)"

primrec erase_first :: "('a \<Rightarrow> bool) \<Rightarrow> 'a list \<Rightarrow> 'a list" where
  "erase_first P [] = []"
| "erase_first P (x # xs) = (if P x then xs else x # erase_first P xs)"

definition apply_policy :: "DurableState \<Rightarrow> FailoverPolicy \<Rightarrow> DurableState" where
  "apply_policy state policy = state\<lparr>ds_policy := policy, ds_has_policy := True,
     ds_authority := (ds_authority state)\<lparr>av_policy := fp_generation policy\<rparr>\<rparr>"

definition apply_obligations :: "DurableState \<Rightarrow> ServiceObligations \<Rightarrow> DurableState" where
  "apply_obligations state obligations =
     state\<lparr>ds_obligations := obligations, ds_has_obligations := True,
       ds_authority := (ds_authority state)\<lparr>av_obligations := so_generation obligations\<rparr>\<rparr>"

definition apply_set :: "DurableState \<Rightarrow> AlternateSet \<Rightarrow> Status \<times> DurableState" where
  "apply_set state st =
     (if \<not> list_ex (\<lambda>c. as_id c = as_id st) (ds_sets state) then
        (if length (ds_sets state) \<ge> max_alternate_sets then
           (Status Code_table_full Reason_table_full ''alternate set table full'', state)
         else (ok_status, state\<lparr>ds_sets := ds_sets state @ [st]\<rparr>))
      else (ok_status,
        state\<lparr>ds_sets := update_first (\<lambda>c. as_id c = as_id st) st (ds_sets state)\<rparr>))"

definition apply_fence :: "DurableState \<Rightarrow> FenceRecord \<Rightarrow> Status \<times> DurableState" where
  "apply_fence state fence =
     (if length (ds_fences state) \<ge> max_fences then
        (Status Code_table_full Reason_table_full ''fence table full'', state)
      else (ok_status, state\<lparr>ds_fences := ds_fences state @ [fence]\<rparr>))"

definition apply_attempt :: "DurableState \<Rightarrow> AttemptRecord \<Rightarrow> Status \<times> DurableState" where
  "apply_attempt state attempt =
     (if list_ex (\<lambda>c. ar_id c = ar_id attempt) (ds_attempts state) then
        (ok_status, state\<lparr>ds_attempts :=
           update_first (\<lambda>c. ar_id c = ar_id attempt) attempt (ds_attempts state)\<rparr>)
      else if length (ds_attempts state) \<ge> max_attempts then
        (if \<not> list_ex (\<lambda>c. is_terminal_state (ar_state c)) (ds_attempts state) then
           (Status Code_table_full Reason_table_full ''attempt table full'', state)
         else (ok_status, state
           \<lparr>ds_attempts :=
              erase_first (\<lambda>c. is_terminal_state (ar_state c)) (ds_attempts state) @ [attempt],
            ds_attempts_dropped := ds_attempts_dropped state + 1\<rparr>))
      else (ok_status, state\<lparr>ds_attempts := ds_attempts state @ [attempt]\<rparr>))"

definition apply_lineage :: "DurableState \<Rightarrow> LineageEntry \<Rightarrow> DurableState" where
  "apply_lineage state entry =
     (let state = (if length (ds_lineage state) \<ge> max_lineage
                   then state\<lparr>ds_lineage := tl (ds_lineage state), ds_lineage_truncated := True\<rparr>
                   else state)
      in state\<lparr>ds_lineage := ds_lineage state @ [entry]\<rparr>)"

definition get_epoch :: "(AuthorityVector \<times> u64 \<times> u64 \<times> u64 \<times> u64) Result reader" where
  "get_epoch = r_try get_authority (\<lambda>authority. do {
     restart_count \<leftarrow> r_u64;
     attempt_sequence \<leftarrow> r_u64;
     fence_sequence \<leftarrow> r_u64;
     decision_sequence \<leftarrow> r_u64;
     r_done (authority, restart_count, attempt_sequence, fence_sequence, decision_sequence) })"

definition apply_epoch ::
  "DurableState \<Rightarrow> AuthorityVector \<times> u64 \<times> u64 \<times> u64 \<times> u64 \<Rightarrow> DurableState" where
  "apply_epoch state e =
     (case e of (authority, restart_count, attempt_sequence, fence_sequence, decision_sequence) \<Rightarrow>
        state\<lparr>ds_authority := authority, ds_restart_count := restart_count,
          ds_attempt_sequence := max (ds_attempt_sequence state) attempt_sequence,
          ds_fence_sequence := max (ds_fence_sequence state) fence_sequence,
          ds_decision_sequence := max (ds_decision_sequence state) decision_sequence\<rparr>)"

text \<open>The state is updated while the payload is being read.\<close>

definition apply_counters :: "DurableState \<Rightarrow> byte list \<Rightarrow> Status \<times> DurableState" where
  "apply_counters state payload =
     fst (run_state (do {
       attempt_sequence \<leftarrow> r_u64;
       fence_sequence \<leftarrow> r_u64;
       decision_sequence \<leftarrow> r_u64;
       fence_overflow \<leftarrow> r_u64;
       attempts_dropped \<leftarrow> r_u64;
       truncated \<leftarrow> r_boolean;
       status \<leftarrow> end_of;
       (let state = state
          \<lparr>ds_attempt_sequence := max (ds_attempt_sequence state) attempt_sequence,
           ds_fence_sequence := max (ds_fence_sequence state) fence_sequence,
           ds_decision_sequence := max (ds_decision_sequence state) decision_sequence,
           ds_fence_overflow := fence_overflow, ds_attempts_dropped := attempts_dropped\<rparr>
        in State_Monad.return
          (if \<not> st_ok status then (status, state)
           else (ok_status, state
             \<lparr>ds_lineage_truncated := ds_lineage_truncated state \<or> truncated\<rparr>))) })
       (byte_reader payload))"

definition apply_record :: "DurableState \<Rightarrow> RecordType \<Rightarrow> byte list \<Rightarrow> Status \<times> DurableState" where
  "apply_record state type payload =
     (case type of
        RecordType_policy_set \<Rightarrow>
          (case decode_exactly get_policy payload of
             Inl status \<Rightarrow> (status, state)
           | Inr v \<Rightarrow> (ok_status, apply_policy state v))
      | RecordType_obligations_set \<Rightarrow>
          (case decode_exactly get_obligations payload of
             Inl status \<Rightarrow> (status, state)
           | Inr v \<Rightarrow> (ok_status, apply_obligations state v))
      | RecordType_alternate_set_put \<Rightarrow>
          (case decode_exactly get_set payload of
             Inl status \<Rightarrow> (status, state)
           | Inr v \<Rightarrow> apply_set state v)
      | RecordType_fence_recorded \<Rightarrow>
          (case decode_exactly get_fence payload of
             Inl status \<Rightarrow> (status, state)
           | Inr v \<Rightarrow> apply_fence state v)
      | RecordType_attempt_begin \<Rightarrow>
          (case decode_exactly get_attempt payload of
             Inl status \<Rightarrow> (status, state)
           | Inr v \<Rightarrow> apply_attempt state v)
      | RecordType_attempt_state \<Rightarrow>
          (case decode_exactly get_attempt payload of
             Inl status \<Rightarrow> (status, state)
           | Inr v \<Rightarrow> apply_attempt state v)
      | RecordType_lineage_entry \<Rightarrow>
          (case decode_exactly get_lineage payload of
             Inl status \<Rightarrow> (status, state)
           | Inr v \<Rightarrow> (ok_status, apply_lineage state v))
      | RecordType_epoch_advance \<Rightarrow>
          (case decode_exactly get_epoch payload of
             Inl status \<Rightarrow> (status, state)
           | Inr v \<Rightarrow> (ok_status, apply_epoch state v))
      | RecordType_snapshot_marker \<Rightarrow>
          (case decode_exactly (get_value r_u64) payload of
             Inl status \<Rightarrow> (status, state)
           | Inr v \<Rightarrow> (ok_status, state))
      | RecordType_counters \<Rightarrow> apply_counters state payload)"

section \<open>Snapshots\<close>

record SnapshotBody =
  sb_body :: ByteWriter
  sb_record_count :: u32
  sb_frame_sequence :: u64
  sb_encoding_failed :: bool

definition emit_record :: "RecordType \<times> byte list \<Rightarrow> SnapshotBody \<Rightarrow> SnapshotBody" where
  "emit_record tp b =
     (case tp of (type, payload) \<Rightarrow>
      if payload = [] then b\<lparr>sb_encoding_failed := True\<rparr>
      else
     (let b = b\<lparr>sb_frame_sequence := sb_frame_sequence b + 1\<rparr>;
          frame = encode_journal_record type (sb_frame_sequence b) payload
      in if frame = [] then b\<lparr>sb_encoding_failed := True\<rparr>
         else b\<lparr>sb_body := w_bytes frame (sb_body b),
                 sb_record_count := sb_record_count b + 1\<rparr>))"

text \<open>The records of a snapshot, in the order they are emitted.\<close>

definition snapshot_records :: "DurableState \<Rightarrow> (RecordType \<times> byte list) list" where
  "snapshot_records state =
     [(RecordType_counters, encode_counters_record state),
      (RecordType_epoch_advance,
         encode_epoch_record (ds_authority state) (ds_restart_count state)
           (ds_attempt_sequence state) (ds_fence_sequence state) (ds_decision_sequence state))] @
     (if ds_has_policy state
      then [(RecordType_policy_set, encode_policy_record (ds_policy state))] else []) @
     (if ds_has_obligations state
      then [(RecordType_obligations_set, encode_obligations_record (ds_obligations state))]
      else []) @
     map (\<lambda>v. (RecordType_alternate_set_put, encode_set_record v)) (ds_sets state) @
     map (\<lambda>v. (RecordType_fence_recorded, encode_fence_record v)) (ds_fences state) @
     map (\<lambda>v. (RecordType_attempt_state, encode_attempt_record v)) (ds_attempts state) @
     map (\<lambda>v. (RecordType_lineage_entry, encode_lineage_record v)) (ds_lineage state)"

definition snapshot_body :: "DurableState \<Rightarrow> SnapshotBody" where
  "snapshot_body state =
     foldl (\<lambda>b tp. emit_record tp b)
       \<lparr>sb_body = byte_writer max_snapshot_bytes, sb_record_count = 0, sb_frame_sequence = 0,
        sb_encoding_failed = False\<rparr> (snapshot_records state)"

definition encode_snapshot :: "DurableState \<Rightarrow> byte list" where
  "encode_snapshot state =
     (let b = snapshot_body state; body = sb_body b in
      if \<not> bw_ok body \<or> sb_encoding_failed b then []
      else
     (let out = w_seq [w_u32 snapshot_magic, w_u16 durable_format_version, w_u16 0,
            w_u64 (ds_last_sequence state), w_u32 (sb_record_count b),
            w_u32 (word_of_nat (length (bw_buffer body))), w_u32 0, w_u32 0]
            (byte_writer (max_snapshot_bytes + 64))
      in if \<not> bw_ok out then []
         else
     (let out = w_bytes (bw_buffer body) (w_u32 0 (w_u32 (crc32c (bw_buffer out)) out))
      in if \<not> bw_ok out then []
         else finish (w_u32 snapshot_footer_magic (w_u32 (crc32c (bw_buffer out)) out)))))"

record SnapshotHeader =
  sh_magic :: u32
  sh_version :: u16
  sh_flags :: u16
  sh_sequence :: u64
  sh_record_count :: u32
  sh_payload_length :: u32
  sh_header_crc :: u32

definition get_snapshot_header :: "SnapshotHeader reader" where
  "get_snapshot_header = do {
     magic \<leftarrow> r_u32;
     version \<leftarrow> r_u16;
     flags \<leftarrow> r_u16;
     sequence \<leftarrow> r_u64;
     record_count \<leftarrow> r_u32;
     payload_length \<leftarrow> r_u32;
     _ \<leftarrow> r_u32;
     _ \<leftarrow> r_u32;
     header_crc \<leftarrow> r_u32;
     _ \<leftarrow> r_u32;
     State_Monad.return
       \<lparr>sh_magic = magic, sh_version = version, sh_flags = flags, sh_sequence = sequence,
        sh_record_count = record_count, sh_payload_length = payload_length,
        sh_header_crc = header_crc\<rparr> }"

text \<open>The loop over the records of the body; \<open>body\<close> is what is left from \<open>offset\<close> on.\<close>

function decode_snapshot_records ::
  "byte list \<Rightarrow> DurableState \<Rightarrow> u32 \<Rightarrow> (DurableState \<times> u32) Result" where
  "decode_snapshot_records body state seen =
     (if body = [] then Inr (state, seen)
      else if length body < journal_header_bytes then
        Inl (Status Code_corrupt Reason_length_invalid ''snapshot record header truncated'')
      else
     (case decode_journal_header (take journal_header_bytes body) of
        Inl status \<Rightarrow> Inl status
      | Inr header \<Rightarrow>
     (let payload_length = unat (jh_payload_length header);
          record_total = journal_header_bytes + payload_length + journal_trailer_bytes
      in if length body < record_total then
           Inl (Status Code_corrupt Reason_length_invalid ''snapshot record truncated'')
         else
     (let payload = take payload_length (drop journal_header_bytes body);
          stored_payload_crc = read_u32_at body (journal_header_bytes + payload_length)
      in if stored_payload_crc \<noteq> crc32c payload then
           Inl (Status Code_corrupt Reason_integrity_failure ''snapshot record integrity failure'')
         else
     (case apply_record state (record_type_of (jh_type header)) payload of
        (applied, state') \<Rightarrow>
          if \<not> st_ok applied then Inl applied
          else decode_snapshot_records (drop record_total body) state' (seen + 1))))))"
  by pat_completeness auto
termination
  by (relation "measure (\<lambda>(body, state, seen). length body)")
    (auto simp: journal_header_bytes_def journal_trailer_bytes_def)

declare decode_snapshot_records.simps [simp del]

definition snapshot_header_status :: "byte list \<Rightarrow> SnapshotHeader \<Rightarrow> Status" where
  "snapshot_header_status bytes h =
     (if sh_magic h \<noteq> snapshot_magic then
        Status Code_corrupt Reason_format_magic_mismatch ''snapshot magic mismatch''
      else if sh_version h \<noteq> durable_format_version then
        Status Code_version_unsupported Reason_unsupported_version
          ''snapshot format version unsupported''
      else if sh_flags h \<noteq> 0 then
        Status Code_invalid Reason_domain_invalid ''snapshot flags must be zero''
      else if unat (sh_payload_length h) > max_snapshot_bytes then
        Status Code_corrupt Reason_length_invalid ''snapshot payload length exceeds bound''
      else if unat (sh_record_count h) > max_snapshot_records then
        Status Code_corrupt Reason_length_invalid ''snapshot record count exceeds bound''
      else if crc32c (take kSnapshotHeaderCrcOffset bytes) \<noteq> sh_header_crc h then
        Status Code_corrupt Reason_corrupt_header ''snapshot header integrity failure''
      else ok_status)"

definition snapshot_frame_status :: "byte list \<Rightarrow> nat \<Rightarrow> Status" where
  "snapshot_frame_status bytes payload_length =
     (let expected_size = snapshot_header_bytes + payload_length + 8 in
      if length bytes > expected_size then
        Status Code_corrupt Reason_trailing_garbage ''trailing bytes after snapshot''
      else if length bytes < expected_size then
        Status Code_corrupt Reason_length_invalid ''snapshot truncated''
      else if read_u32_at bytes (snapshot_header_bytes + payload_length) \<noteq>
              crc32c (take (snapshot_header_bytes + payload_length) bytes) then
        Status Code_corrupt Reason_integrity_failure ''snapshot integrity failure''
      else if read_u32_at bytes (snapshot_header_bytes + payload_length + 4) \<noteq>
              snapshot_footer_magic then
        Status Code_corrupt Reason_corrupt_header ''snapshot footer magic mismatch''
      else ok_status)"

definition decode_snapshot :: "byte list \<Rightarrow> DurableState Result" where
  "decode_snapshot bytes =
     (if length bytes < snapshot_header_bytes + 8 then
        Inl (Status Code_corrupt Reason_length_invalid ''snapshot shorter than header'')
      else
     (case run_state get_snapshot_header (byte_reader (take snapshot_header_bytes bytes)) of
        (h, reader) \<Rightarrow>
      if \<not> br_ok reader \<or> \<not> at_end reader then
        Inl (Status Code_corrupt Reason_corrupt_header ''snapshot header truncated'')
      else
     (let status = snapshot_header_status bytes h in
      if \<not> st_ok status then Inl status
      else
     (let payload_length = unat (sh_payload_length h);
          status = snapshot_frame_status bytes payload_length
      in if \<not> st_ok status then Inl status
         else
     (case decode_snapshot_records
             (take payload_length (drop snapshot_header_bytes bytes))
             (empty_state\<lparr>ds_last_sequence := sh_sequence h\<rparr>) 0 of
        Inl status \<Rightarrow> Inl status
      | Inr (state, seen) \<Rightarrow>
          if seen \<noteq> sh_record_count h then
            Inl (Status Code_corrupt Reason_state_inconsistent
              ''snapshot record count does not match payload'')
          else Inr state)))))"

end
