(* ===== verification/PFF_Store.thy ===== *)
theory PFF_Store
  imports PFF_Journal
begin

text \<open>
  The store object of \<open>src/store.cpp\<close>: recovery (\<open>load\<close>), durable append and snapshot
  replacement.

  The files are the byte sequences a later process reads: \<open>sr_journal\<close> and \<open>sr_snapshot\<close>
  (\<^const>\<open>None\<close> for an absent file). The operating system is an environment: the results its calls
  will give are two scripts in the store, one entry per \<open>append\<close> and per \<open>write_snapshot\<close>, and
  an exhausted script stands for success. A failing write or flush may have moved any prefix of
  the record to the file; the entry says how much. Theorems quantify over the scripts.

  Assumed of the environment: reading a file of known size returns its bytes, and the journal can be
  truncated and sought when it is recovered. After a failed write the library may still hold part
  of the record in its stream buffer; the model takes that part as discarded.
\<close>

section \<open>Model\<close>

datatype AppendIO =
    AppendIO_ok
  | AppendIO_seek_failed
  | AppendIO_write_failed nat
  | AppendIO_sync_failed nat

datatype SnapshotIO =
    SnapshotIO_ok
  | SnapshotIO_open_failed
  | SnapshotIO_write_failed
  | SnapshotIO_replace_failed
  | SnapshotIO_reset_failed

record Store =
  sr_journal :: "byte list option"
  sr_snapshot :: "byte list option"
  sr_journal_open :: bool
  sr_inspection_only :: bool
  sr_closed :: bool
  sr_last_sequence :: u64
  sr_journal_bytes :: nat
  sr_recovery :: RecoveryReport
  sr_append_io :: "AppendIO list"
  sr_snapshot_io :: "SnapshotIO list"

datatype ReplayEnd =
    ReplayEnd_clean
  | ReplayEnd_torn nat

text \<open>The replay loop; \<open>rest\<close> is what the file holds from \<open>position\<close> on.\<close>

function replay_records ::
  "byte list \<Rightarrow> nat \<Rightarrow> DurableState \<Rightarrow> RecoveryReport \<Rightarrow>
   (DurableState \<times> RecoveryReport \<times> ReplayEnd) Result" where
  "replay_records rest position state rep =
     (if rest = [] then Inr (state, rep, ReplayEnd_clean)
      else if length rest < journal_header_bytes then Inr (state, rep, ReplayEnd_torn position)
      else
     (case decode_journal_header (take journal_header_bytes rest) of
        Inl status \<Rightarrow> Inl status
      | Inr header \<Rightarrow>
     (let payload_length = unat (jh_payload_length header);
          record_total = journal_header_bytes + payload_length + journal_trailer_bytes
      in if length rest < record_total then Inr (state, rep, ReplayEnd_torn position)
         else
     (let payload = take payload_length (drop journal_header_bytes rest);
          crc_bytes = take journal_trailer_bytes (drop (journal_header_bytes + payload_length) rest)
      in if read_u32_at crc_bytes 0 \<noteq> crc32c payload then
           Inl (Status Code_corrupt Reason_integrity_failure ''journal payload integrity failure'')
         else if jh_sequence header \<le> ds_last_sequence state then
           replay_records (drop record_total rest) (position + record_total) state
             (rep\<lparr>rr_records_skipped := rr_records_skipped rep + 1\<rparr>)
         else if jh_sequence header \<noteq> ds_last_sequence state + 1 then
           Inl (Status Code_corrupt Reason_sequence_regression
             ''journal sequence is not contiguous'')
         else
     (case apply_record state (record_type_of (jh_type header)) payload of
        (applied, state') \<Rightarrow>
          if \<not> st_ok applied then Inl applied
          else replay_records (drop record_total rest) (position + record_total)
            (state'\<lparr>ds_last_sequence := jh_sequence header\<rparr>)
            (rep\<lparr>rr_records_replayed := rr_records_replayed rep + 1\<rparr>))))))"
  by pat_completeness auto
termination
  by (relation "measure (\<lambda>(rest, position, state, rep). length rest)")
    (auto simp: journal_header_bytes_def journal_trailer_bytes_def)

declare replay_records.simps [simp del]

definition load_snapshot :: "Store \<Rightarrow> (DurableState \<times> Store) Result" where
  "load_snapshot s =
     (case sr_snapshot s of
        None \<Rightarrow>
          Inr (empty_state, s\<lparr>sr_recovery := (sr_recovery s)\<lparr>rr_snapshot_loaded := False\<rparr>,
            sr_last_sequence := 0\<rparr>)
      | Some bytes \<Rightarrow>
          if length bytes > max_snapshot_bytes + 64 then
            Inl (Status Code_corrupt Reason_length_invalid ''snapshot file exceeds bound'')
          else
            (case decode_snapshot bytes of
               Inl status \<Rightarrow> Inl status
             | Inr state \<Rightarrow>
                 Inr (state, s\<lparr>sr_last_sequence := ds_last_sequence state,
                   sr_recovery := (sr_recovery s)\<lparr>rr_snapshot_loaded := True,
                     rr_snapshot_sequence := ds_last_sequence state\<rparr>\<rparr>)))"

definition replay_journal :: "DurableState \<Rightarrow> Store \<Rightarrow> (DurableState \<times> Store) Result" where
  "replay_journal state s =
     (let s = s\<lparr>sr_last_sequence := ds_last_sequence state\<rparr> in
      case (if sr_journal_open s then sr_journal s else None) of
        None \<Rightarrow> Inr (state, s\<lparr>sr_recovery := (sr_recovery s)\<lparr>rr_journal_absent := True\<rparr>\<rparr>)
      | Some bytes \<Rightarrow>
     (let size = length bytes;
          s = s\<lparr>sr_recovery := (sr_recovery s)\<lparr>rr_journal_bytes := word_of_nat size\<rparr>\<rparr>
      in if size = 0 then Inr (state, s)
         else
     (case replay_records bytes 0 state (sr_recovery s) of
        Inl status \<Rightarrow> Inl status
      | Inr (state, rep, ReplayEnd_clean) \<Rightarrow>
          Inr (state, s\<lparr>sr_last_sequence := ds_last_sequence state,
            sr_recovery := rep\<lparr>rr_journal_bytes := word_of_nat size\<rparr>,
            sr_journal_bytes := size\<rparr>)
      | Inr (state, rep, ReplayEnd_torn truncated_at) \<Rightarrow>
     (let rep = rep\<lparr>rr_journal_bytes := word_of_nat truncated_at, rr_torn_tail_present := True,
            rr_truncated_bytes := word_of_nat (size - truncated_at),
            rr_torn_tail_recovered :=
              (if sr_inspection_only s then rr_torn_tail_recovered rep else True)\<rparr>
      in Inr (state, s\<lparr>sr_last_sequence := ds_last_sequence state, sr_recovery := rep,
           sr_journal := (if sr_inspection_only s then Some bytes
                          else Some (take truncated_at bytes)),
           sr_journal_bytes := truncated_at\<rparr>)))))"

definition load :: "Store \<Rightarrow> (DurableState \<times> Store) Result" where
  "load s =
     (if sr_closed s then
        Inl (Status Code_invalid Reason_state_inconsistent ''store already closed'')
      else
     (case load_snapshot s of
        Inl status \<Rightarrow> Inl status
      | Inr (state, s) \<Rightarrow> replay_journal state s))"

text \<open>
  The seek, write and flush that end \<open>append\<close>. A null journal stream (after a failed reopen in
  \<open>write_snapshot\<close>) is passed to \<open>fseek\<close>, which is undefined; the model takes it as a failed
  seek.
\<close>

definition write_frame :: "AppendIO \<Rightarrow> byte list \<Rightarrow> u64 \<Rightarrow> Store \<Rightarrow> Status \<times> Store" where
  "write_frame io frame sequence s =
     (let bytes = (case sr_journal s of None \<Rightarrow> [] | Some b \<Rightarrow> b) in
      if \<not> sr_journal_open s then
        (Status Code_io_failure Reason_io_failure ''cannot seek journal end'', s)
      else
     (case io of
        AppendIO_seek_failed \<Rightarrow>
          (Status Code_io_failure Reason_io_failure ''cannot seek journal end'', s)
      | AppendIO_write_failed n \<Rightarrow>
          (Status Code_io_failure Reason_io_failure ''cannot write journal record'',
           s\<lparr>sr_journal := Some (bytes @ take n frame)\<rparr>)
      | AppendIO_sync_failed n \<Rightarrow>
          (Status Code_io_failure Reason_io_failure ''cannot flush journal record'',
           s\<lparr>sr_journal := Some (bytes @ take n frame)\<rparr>)
      | AppendIO_ok \<Rightarrow>
          (ok_status, s\<lparr>sr_journal := Some (bytes @ frame),
             sr_journal_bytes := sr_journal_bytes s + length frame,
             sr_last_sequence := sequence\<rparr>)))"

definition next_append_io :: "Store \<Rightarrow> AppendIO" where
  "next_append_io s = (case sr_append_io s of [] \<Rightarrow> AppendIO_ok | r # _ \<Rightarrow> r)"

definition append_record :: "RecordType \<Rightarrow> byte list \<Rightarrow> Store \<Rightarrow> Status \<times> Store" where
  "append_record type payload s =
     (if sr_closed s then
        (Status Code_invalid Reason_state_inconsistent ''store already closed'', s)
      else if sr_inspection_only s then
        (Status Code_refused Reason_read_only ''store opened for inspection only'', s)
      else if length payload > max_record_payload then
        (Status Code_invalid Reason_length_invalid ''record payload exceeds bound'', s)
      else if sr_journal_bytes s + length payload +
              (journal_header_bytes + journal_trailer_bytes) > max_journal_bytes then
        (Status Code_exhausted Reason_table_full ''journal bound reached'', s)
      else if sr_last_sequence s = UINT64_MAX then
        (Status Code_exhausted Reason_table_full ''journal sequence exhausted'', s)
      else
     (let sequence = sr_last_sequence s + 1;
          frame = encode_journal_record type sequence payload
      in if frame = [] then
           (Status Code_invalid Reason_invalid_payload ''record encoding failed'', s)
         else write_frame (next_append_io s) frame sequence
           (s\<lparr>sr_append_io := tl (sr_append_io s)\<rparr>)))"

definition write_snapshot :: "DurableState \<Rightarrow> Store \<Rightarrow> Status \<times> Store" where
  "write_snapshot state s =
     (if sr_closed s then
        (Status Code_invalid Reason_state_inconsistent ''store already closed'', s)
      else if sr_inspection_only s then
        (Status Code_refused Reason_read_only ''store opened for inspection only'', s)
      else if ds_last_sequence state \<noteq> sr_last_sequence s then
        (Status Code_invalid Reason_state_inconsistent ''snapshot would discard journal records'', s)
      else
     (let bytes = encode_snapshot state in
      if bytes = [] then
        (Status Code_exhausted Reason_allocation_denied ''snapshot encoding failed'', s)
      else
     (let io = (case sr_snapshot_io s of [] \<Rightarrow> SnapshotIO_ok | r # _ \<Rightarrow> r);
          s = s\<lparr>sr_snapshot_io := tl (sr_snapshot_io s)\<rparr>
      in case io of
        SnapshotIO_open_failed \<Rightarrow>
          (Status Code_io_failure Reason_io_failure ''cannot open snapshot staging file'', s)
      | SnapshotIO_write_failed \<Rightarrow>
          (Status Code_io_failure Reason_io_failure ''cannot write snapshot staging file'', s)
      | SnapshotIO_replace_failed \<Rightarrow>
          (Status Code_io_failure Reason_io_failure ''cannot replace snapshot'', s)
      | SnapshotIO_reset_failed \<Rightarrow>
          (Status Code_io_failure Reason_io_failure ''cannot reset journal'',
           s\<lparr>sr_snapshot := Some bytes, sr_journal_open := False\<rparr>)
      | SnapshotIO_ok \<Rightarrow>
          (ok_status, s\<lparr>sr_snapshot := Some bytes,
             sr_journal := (if sr_journal_open s then Some [] else sr_journal s),
             sr_journal_bytes := 0,
             sr_recovery := (sr_recovery s)\<lparr>rr_snapshot_loaded := True,
               rr_snapshot_sequence := ds_last_sequence state\<rparr>\<rparr>))))"

definition close_store :: "Store \<Rightarrow> Store" where
  "close_store s = (if sr_closed s then s else s\<lparr>sr_closed := True, sr_journal_open := False\<rparr>)"

text \<open>\<open>reset_journal_for_test\<close>; \<open>truncated\<close> is the result of the truncation.\<close>

definition reset_journal_for_test :: "bool \<Rightarrow> Store \<Rightarrow> Store" where
  "reset_journal_for_test truncated s =
     (if \<not> sr_journal_open s \<or> sr_inspection_only s then s
      else if truncated then s\<lparr>sr_journal := Some [], sr_journal_bytes := 0\<rparr>
      else s\<lparr>sr_closed := False, sr_journal_bytes := 0\<rparr>)"

text \<open>
  \<open>Store::open\<close> on the files a previous process left. What the operating system answers (does
  the directory exist once creation was tried, is the advisory lock free, can the journal be
  created) is the record \<open>OpenIO\<close>.
\<close>

record StoreOptions =
  sp_inspection_only :: bool
  sp_create_directory :: bool

record OpenIO =
  oi_directory_exists :: bool
  oi_lock_acquired :: bool
  oi_journal_created :: bool

definition default_store_options :: StoreOptions where
  "default_store_options = \<lparr>sp_inspection_only = False, sp_create_directory = True\<rparr>"

definition open_files :: "OpenIO \<Rightarrow> Store \<Rightarrow> Store Result" where
  "open_files io s =
     (if \<not> sr_inspection_only s \<and> \<not> oi_lock_acquired io then
        Inl (Status Code_refused Reason_directory_locked
          ''another runtime already owns this state directory'')
      else
     (case sr_journal s of
        Some _ \<Rightarrow> Inr (s\<lparr>sr_journal_open := True\<rparr>)
      | None \<Rightarrow>
     (let s = s\<lparr>sr_recovery := (sr_recovery s)\<lparr>rr_journal_absent := True\<rparr>\<rparr> in
      if sr_inspection_only s then Inr s
      else if \<not> oi_journal_created io then
        Inl (Status Code_io_failure Reason_io_failure ''cannot create journal'')
      else Inr (s\<lparr>sr_journal := Some [], sr_journal_open := True\<rparr>))))"

definition open_store ::
  "byte list option \<Rightarrow> byte list option \<Rightarrow> StoreOptions \<Rightarrow> OpenIO \<Rightarrow> AppendIO list \<Rightarrow>
   SnapshotIO list \<Rightarrow> Store Result" where
  "open_store journal snapshot options io append_io snapshot_io =
     (if sp_create_directory options \<and> \<not> oi_directory_exists io then
        Inl (Status Code_io_failure Reason_io_failure ''cannot create state directory'')
      else open_files io
        \<lparr>sr_journal = journal, sr_snapshot = snapshot, sr_journal_open = False,
         sr_inspection_only = sp_inspection_only options, sr_closed = False, sr_last_sequence = 0,
         sr_journal_bytes = 0, sr_recovery = empty_report, sr_append_io = append_io,
         sr_snapshot_io = snapshot_io\<rparr>)"

definition good_open :: OpenIO where
  "good_open = \<lparr>oi_directory_exists = True, oi_lock_acquired = True, oi_journal_created = True\<rparr>"

end
