(* ===== verification/PFF_Recovery.thy ===== *)
theory PFF_Recovery
  imports PFF_Store
begin

text \<open>
  What the durable formats guarantee: framing round trips, replay of a journal is compositional,
  a crash at any byte of an append leaves either the old or the new state, and a snapshot restores
  the state it was taken from.
\<close>

section \<open>Framing\<close>

definition frame_head :: "RecordType \<Rightarrow> u64 \<Rightarrow> byte list \<Rightarrow> byte list" where
  "frame_head type sequence payload =
     le 4 journal_magic @ le 2 durable_format_version @
     le 2 (word_of_nat (record_type_value type) :: u16) @ le 8 sequence @
     le 4 (word_of_nat (length payload) :: u32)"

definition frame :: "RecordType \<Rightarrow> u64 \<Rightarrow> byte list \<Rightarrow> byte list" where
  "frame type sequence payload =
     frame_head type sequence payload @ le 4 (crc32c (frame_head type sequence payload)) @
     payload @ le 4 (crc32c payload)"

definition frameable :: "u64 \<Rightarrow> byte list \<Rightarrow> bool" where
  "frameable sequence payload \<longleftrightarrow> sequence \<noteq> 0 \<and> length payload \<le> max_record_payload"

lemmas frame_sizes =
  journal_header_bytes_def journal_trailer_bytes_def max_record_payload_def

lemma length_frame_head [simp]: "length (frame_head t q p) = 20"
  by (simp add: frame_head_def)

lemma length_frame [simp]: "length (frame t q p) = 28 + length p"
  by (simp add: frame_def)

lemma frame_ne [simp]: "frame t q p \<noteq> []"
  by (metis length_frame list.size(3) not_add_less1 zero_less_numeral)

text \<open>A step of a writer that has room.\<close>

lemma writes_ok:
  assumes "writes f bs" "bw_fits w" "bw_ok w" "length (bw_buffer w) + length bs \<le> bw_max_size w"
  shows "bw_ok (f w)" "f w = w\<lparr>bw_buffer := bw_buffer w @ bs\<rparr>"
  using assms by (simp_all add: writes_def)

lemma writer_append:
  assumes "writes f bs" "length b + length bs \<le> m"
  shows "f \<lparr>bw_buffer = b, bw_max_size = m, bw_status = ok_status\<rparr> =
    \<lparr>bw_buffer = b @ bs, bw_max_size = m, bw_status = ok_status\<rparr>"
  using writes_ok(2) [OF assms(1), of "\<lparr>bw_buffer = b, bw_max_size = m, bw_status = ok_status\<rparr>"]
    assms(2) by (simp add: bw_fits_def bw_ok_def)

lemma encode_journal_record_eq:
  "encode_journal_record type sequence payload =
     (if frameable sequence payload then frame type sequence payload else [])"
proof (cases "frameable sequence payload")
  case False
  then show ?thesis by (auto simp: encode_journal_record_def frameable_def)
next
  case True
  define m where "m = max_record_payload + journal_header_bytes + journal_trailer_bytes"
  let ?head = "frame_head type sequence payload"
  have len: "length payload \<le> max_record_payload" "sequence \<noteq> 0"
    using True by (simp_all add: frameable_def)
  have m: "20 \<le> m" "28 + length payload \<le> m" using len(1) by (simp_all add: m_def frame_sizes)
  have "writes (w_seq [w_u32 journal_magic, w_u16 durable_format_version,
      w_u16 (word_of_nat (record_type_value type)), w_u64 sequence,
      w_u32 (word_of_nat (length payload))]) (?head @ [])"
    unfolding frame_head_def append_assoc
    by (intro writes_seq_Cons writes_seq_Nil writes_prims)
  then have head: "w_seq [w_u32 journal_magic, w_u16 durable_format_version,
      w_u16 (word_of_nat (record_type_value type)), w_u64 sequence,
      w_u32 (word_of_nat (length payload))] (byte_writer m) =
      \<lparr>bw_buffer = ?head, bw_max_size = m, bw_status = ok_status\<rparr>"
    using writer_append [of _ ?head "[]" m] m by (simp add: byte_writer_def)
  show ?thesis
    using True len m unfolding encode_journal_record_def m_def [symmetric]
    by (simp add: head frame_def bw_ok_def finish_def Let_def
        writer_append [OF writes_prims(3)] writer_append [OF writes_bytes])
qed

lemma record_type_known:
  "unat (word_of_nat (record_type_value t) :: u16) = record_type_value t"
  "record_type_of (word_of_nat (record_type_value t)) = t"
  "is_known_record_type (word_of_nat (record_type_value t))"
proof -
  have b: "1 \<le> record_type_value t" "record_type_value t \<le> 10" by (cases t; simp)+
  then show u: "unat (word_of_nat (record_type_value t) :: u16) = record_type_value t"
    by (simp add: unat_of_nat)
  show "record_type_of (word_of_nat (record_type_value t)) = t"
    unfolding record_type_of_def u by (cases t) (simp_all add: record_type_table_def)
  show "is_known_record_type (word_of_nat (record_type_value t))"
    unfolding is_known_record_type_def u using b by simp
qed

definition frame_header :: "RecordType \<Rightarrow> u64 \<Rightarrow> byte list \<Rightarrow> JournalRecordHeader" where
  "frame_header t q p = \<lparr>jh_magic = journal_magic, jh_version = durable_format_version,
     jh_type = word_of_nat (record_type_value t), jh_sequence = q,
     jh_payload_length = word_of_nat (length p), jh_header_crc = crc32c (frame_head t q p)\<rparr>"

lemma frame_prefix:
  "24 \<le> n \<Longrightarrow> take 24 (take n (frame t q p @ rest)) =
     frame_head t q p @ le 4 (crc32c (frame_head t q p))"
  by (simp add: frame_def min_def)

lemma unat_payload_length:
  "frameable q p \<Longrightarrow> unat (word_of_nat (length p) :: u32) = length p"
  by (simp add: frameable_def unat_of_nat frame_sizes)

lemma decode_frame_header:
  assumes "frameable q p"
  shows "decode_journal_header (frame_head t q p @ le 4 (crc32c (frame_head t q p))) =
    Inr (frame_header t q p)"
proof -
  let ?crc = "crc32c (frame_head t q p)"
  have "run_state get_journal_header (reader_at [] (frame_head t q p @ le 4 c)) =
      ((frame_header t q p)\<lparr>jh_header_crc := c\<rparr>, reader_at (frame_head t q p @ le 4 c) [])" for c
    by (simp add: get_journal_header_def codec frame_head_def frame_header_def)
  then have "run_state get_journal_header (reader_at [] (frame_head t q p @ le 4 ?crc)) =
      (frame_header t q p, reader_at (frame_head t q p @ le 4 ?crc) [])"
    by (simp add: frame_header_def)
  then show ?thesis
    using assms record_type_known(3) [of t] unat_payload_length [OF assms]
    by (simp add: decode_journal_header_def byte_reader_at frame_header_def frameable_def
        journal_header_bytes_def journal_trailer_bytes_def)
qed

section \<open>Replay\<close>

text \<open>What replay does with one whole frame.\<close>

definition replay_step ::
  "RecordType \<Rightarrow> u64 \<Rightarrow> byte list \<Rightarrow> DurableState \<Rightarrow> RecoveryReport \<Rightarrow>
   (DurableState \<times> RecoveryReport) Result" where
  "replay_step t q p state rep =
     (if q \<le> ds_last_sequence state then
        Inr (state, rep\<lparr>rr_records_skipped := rr_records_skipped rep + 1\<rparr>)
      else if q \<noteq> ds_last_sequence state + 1 then
        Inl (Status Code_corrupt Reason_sequence_regression ''journal sequence is not contiguous'')
      else case apply_record state t p of
        (applied, state') \<Rightarrow>
          if \<not> st_ok applied then Inl applied
          else Inr (state'\<lparr>ds_last_sequence := q\<rparr>,
            rep\<lparr>rr_records_replayed := rr_records_replayed rep + 1\<rparr>))"

lemma frame_parts:
  "take 24 (frame t q p @ rest) = frame_head t q p @ le 4 (crc32c (frame_head t q p))"
  "take (length p) (drop 24 (frame t q p @ rest)) = p"
  "take 4 (drop (24 + length p) (frame t q p @ rest)) = le 4 (crc32c p)"
  "drop (28 + length p) (frame t q p @ rest) = rest"
  by (simp_all add: frame_def)

lemma read_le4: "read_u32_at (le 4 x) 0 = x"
  by (rule read_le(2)) simp

lemma replay_frame:
  assumes "frameable q p"
  shows "replay_records (frame t q p @ rest) pos state rep =
    (case replay_step t q p state rep of
       Inl status \<Rightarrow> Inl status
     | Inr (state', rep') \<Rightarrow> replay_records rest (pos + (28 + length p)) state' rep')"
proof -
  have h: "decode_journal_header (take journal_header_bytes (frame t q p @ rest)) =
      Inr (frame_header t q p)"
    using decode_frame_header [OF assms] by (simp only: journal_header_bytes_def frame_parts)
  have len: "unat (jh_payload_length (frame_header t q p)) = length p"
    using unat_payload_length [OF assms] by (simp add: frame_header_def)
  have tot: "journal_header_bytes + length p + journal_trailer_bytes = 28 + length p"
    by (simp add: frame_sizes)
  have payload: "take (length p) (drop journal_header_bytes (frame t q p @ rest)) = p"
    "take journal_trailer_bytes (drop (journal_header_bytes + length p) (frame t q p @ rest)) =
       le 4 (crc32c p)"
    by (simp_all only: journal_header_bytes_def journal_trailer_bytes_def frame_parts)
  have fields: "jh_sequence (frame_header t q p) = q"
    "record_type_of (jh_type (frame_header t q p)) = t"
    by (simp_all add: frame_header_def record_type_known)
  have long: "\<not> length (frame t q p @ rest) < journal_header_bytes"
    "\<not> length (frame t q p @ rest) < 28 + length p"
    by (simp_all add: journal_header_bytes_def)
  note step = replay_records.simps [of "frame t q p @ rest" pos state rep,
      unfolded h sum.case Let_def len tot payload read_le4 fields frame_parts]
  show ?thesis
    unfolding step replay_step_def using long
    by (cases "apply_record state t p") simp
qed

lemma replay_nil [simp]: "replay_records [] pos state rep = Inr (state, rep, ReplayEnd_clean)"
  by (simp add: replay_records.simps)

text \<open>A proper prefix of a frame is a torn tail.\<close>

lemma replay_torn:
  assumes "frameable q p" "0 < n" "n < 28 + length p"
  shows "replay_records (take n (frame t q p)) pos state rep = Inr (state, rep, ReplayEnd_torn pos)"
proof (cases "n < 24")
  case True
  then show ?thesis
    using assms(2) replay_records.simps [of "take n (frame t q p)" pos state rep]
    by (simp add: journal_header_bytes_def)
next
  case False
  have h: "decode_journal_header (take journal_header_bytes (take n (frame t q p))) =
      Inr (frame_header t q p)"
    using False decode_frame_header [OF assms(1)] frame_prefix [of n t q p "[]"]
    by (simp add: journal_header_bytes_def)
  have len: "unat (jh_payload_length (frame_header t q p)) = length p"
    using unat_payload_length [OF assms(1)] by (simp add: frame_header_def)
  show ?thesis
    using False assms(2,3) replay_records.simps [of "take n (frame t q p)" pos state rep,
        unfolded h sum.case Let_def len]
    by (simp add: journal_header_bytes_def journal_trailer_bytes_def)
qed

text \<open>
  A successful replay ends here, at a torn tail, or continues after one whole record. The record is
  a prefix of the file: every file with that prefix takes the same step.
\<close>

lemma replay_cases:
  assumes "replay_records xs pos base rep = Inr (state, rep', e)"
  obtains (clean) "xs = []" "e = ReplayEnd_clean" "state = base" "rep' = rep"
  | (torn) "xs \<noteq> []" "e = ReplayEnd_torn pos" "state = base" "rep' = rep"
      "\<And>st rp. replay_records xs pos st rp = Inr (st, rp, ReplayEnd_torn pos)"
  | (whole) n base1 rep1 where "0 < n" "n \<le> length xs"
      "\<And>ys pos. take n ys = take n xs \<Longrightarrow> n \<le> length ys \<Longrightarrow>
         replay_records ys pos base rep = replay_records (drop n ys) (pos + n) base1 rep1"
      "replay_records (drop n xs) (pos + n) base1 rep1 = Inr (state, rep', e)"
      "ds_last_sequence base \<le> ds_last_sequence base1"
      "\<And>newer rep. ds_last_sequence base1 \<le> ds_last_sequence newer \<Longrightarrow>
         \<exists>rep2. replay_records xs pos newer rep = replay_records (drop n xs) (pos + n) newer rep2"
      "\<And>pos rep. \<exists>rep2. replay_records xs pos base rep =
         replay_records (drop n xs) (pos + n) base1 rep2"
proof (cases "xs = [] \<or> length xs < journal_header_bytes")
  case True
  then show thesis
    using assms clean torn by (auto simp: replay_records.simps [of xs] split: if_splits)
next
  case False
  then have long: "xs \<noteq> []" "\<not> length xs < journal_header_bytes" by simp_all
  note run = assms [unfolded replay_records.simps [of xs pos base rep]]
  obtain h where h: "decode_journal_header (take journal_header_bytes xs) = Inr h"
    using run long by (auto split: sum.splits)
  define k where "k = unat (jh_payload_length h)"
  define n where "n = journal_header_bytes + k + journal_trailer_bytes"
  note run = run [unfolded h sum.case Let_def, folded k_def, folded n_def]
  show thesis
  proof (cases "length xs < n")
    case True
    then have "replay_records xs pos st rp = Inr (st, rp, ReplayEnd_torn pos)" for st rp
      using long h by (simp add: replay_records.simps [of xs] Let_def k_def n_def)
    then show thesis using assms long torn by simp
  next
    case full: False
    have n: "0 < n" "n \<le> length xs" using full by (simp_all add: n_def journal_header_bytes_def)
    have step: "replay_records ys pos' st rp =
      (if read_u32_at (take journal_trailer_bytes (drop (journal_header_bytes + k) xs)) 0 \<noteq>
          crc32c (take k (drop journal_header_bytes xs)) then
         Inl (Status Code_corrupt Reason_integrity_failure ''journal payload integrity failure'')
       else if jh_sequence h \<le> ds_last_sequence st then
         replay_records (drop n ys) (pos' + n) st
           (rp\<lparr>rr_records_skipped := rr_records_skipped rp + 1\<rparr>)
       else if jh_sequence h \<noteq> ds_last_sequence st + 1 then
         Inl (Status Code_corrupt Reason_sequence_regression ''journal sequence is not contiguous'')
       else (case apply_record st (record_type_of (jh_type h))
               (take k (drop journal_header_bytes xs)) of
         (applied, state') \<Rightarrow> if \<not> st_ok applied then Inl applied
           else replay_records (drop n ys) (pos' + n) (state'\<lparr>ds_last_sequence := jh_sequence h\<rparr>)
             (rp\<lparr>rr_records_replayed := rr_records_replayed rp + 1\<rparr>)))"
      if ys: "take n ys = take n xs" "n \<le> length ys" for ys pos' st rp
    proof -
      have cut: "take j (drop i ys) = take j (drop i xs)" if "i + j \<le> n" for i j
      proof -
        have "take (j + i) zs = take (j + i) (take n zs)" for zs :: "byte list"
          using that by (simp add: min_def)
        from this [of ys] this [of xs] show ?thesis unfolding take_drop using ys(1) by simp
      qed
      have same: "take journal_header_bytes ys = take journal_header_bytes xs"
        "take k (drop journal_header_bytes ys) = take k (drop journal_header_bytes xs)"
        "take journal_trailer_bytes (drop (journal_header_bytes + k) ys) =
           take journal_trailer_bytes (drop (journal_header_bytes + k) xs)"
        using cut [of 0 journal_header_bytes] cut [of journal_header_bytes k]
          cut [of "journal_header_bytes + k" journal_trailer_bytes] by (simp_all add: n_def)
      have "ys \<noteq> []" "\<not> length ys < journal_header_bytes" "\<not> length ys < n"
        using ys(2) by (auto simp: n_def journal_header_bytes_def)
      then show ?thesis
        unfolding replay_records.simps [of ys pos' st rp] same(1) h sum.case Let_def
          k_def [symmetric] n_def [symmetric] same(2,3)
        by (simp only: if_False simp_thms)
    qed
    let ?crc = "read_u32_at (take journal_trailer_bytes (drop (journal_header_bytes + k) xs)) 0 =
      crc32c (take k (drop journal_header_bytes xs))"
    obtain applied state1 where ap: "apply_record base (record_type_of (jh_type h))
        (take k (drop journal_header_bytes xs)) = (applied, state1)" by fastforce
    consider (skip) ?crc "jh_sequence h \<le> ds_last_sequence base"
      | (fresh) ?crc "\<not> jh_sequence h \<le> ds_last_sequence base"
          "jh_sequence h = ds_last_sequence base + 1" "st_ok applied"
      using assms unfolding step [OF refl n(2)] ap by (simp split: if_splits)
    moreover have newer: "\<exists>rep2. replay_records xs pos newer rp =
        replay_records (drop n xs) (pos + n) newer rep2"
      if "jh_sequence h \<le> ds_last_sequence newer" ?crc for newer rp
      using that by (auto simp: step [OF refl n(2)])
    ultimately show thesis
    proof cases
      case skip
      then have take1: "\<And>ys pos. take n ys = take n xs \<Longrightarrow> n \<le> length ys \<Longrightarrow>
          replay_records ys pos base rep = replay_records (drop n ys) (pos + n) base
            (rep\<lparr>rr_records_skipped := rr_records_skipped rep + 1\<rparr>)"
        by (simp add: step)
      show thesis
        by (rule whole [OF n take1])
          (use assms take1 [OF refl n(2)] skip newer in
            \<open>auto intro: order_trans simp: step [OF refl n(2)]\<close>)
    next
      case fresh
      then have take1: "\<And>ys pos. take n ys = take n xs \<Longrightarrow> n \<le> length ys \<Longrightarrow>
          replay_records ys pos base rep = replay_records (drop n ys) (pos + n)
            (state1\<lparr>ds_last_sequence := jh_sequence h\<rparr>)
            (rep\<lparr>rr_records_replayed := rr_records_replayed rep + 1\<rparr>)"
        by (simp add: step ap)
      show thesis
        by (rule whole [OF n take1])
          (use assms take1 [OF refl n(2)] fresh newer in
            \<open>auto simp: step [OF refl n(2)] ap\<close>)
    qed
  qed
qed

text \<open>Replay of a journal that ends at a record boundary continues with what follows it.\<close>

lemma replay_append:
  "replay_records xs pos base rep = Inr (state, rep', ReplayEnd_clean) \<Longrightarrow>
   replay_records (xs @ ys) pos base rep = replay_records ys (pos + length xs) state rep'"
proof (induction "length xs" arbitrary: xs pos base rep rule: less_induct)
  case less
  from less.prems show ?case
  proof (cases rule: replay_cases)
    case (whole n base1 rep1)
    then have "replay_records (xs @ ys) pos base rep =
        replay_records (drop n xs @ ys) (pos + n) base1 rep1" by simp
    then show ?thesis using less.hyps [OF _ whole(4)] whole(1,2) by simp
  qed simp_all
qed

lemma replay_anywhere:
  "replay_records xs pos base rep = Inr (state, rep', ReplayEnd_clean) \<Longrightarrow>
   \<exists>rep2. replay_records xs pos2 base rep1 = Inr (state, rep2, ReplayEnd_clean)"
proof (induction "length xs" arbitrary: xs pos base rep pos2 rep1 rule: less_induct)
  case less
  from less.prems show ?case
  proof (cases rule: replay_cases)
    case (whole n base1 rep2)
    obtain rep3 where "replay_records xs pos2 base rep1 =
        replay_records (drop n xs) (pos2 + n) base1 rep3" using whole(7) by blast
    then show ?thesis using less.hyps [OF _ whole(4)] whole(1,2) by simp
  qed simp_all
qed

definition replays :: "byte list \<Rightarrow> DurableState \<Rightarrow> DurableState \<Rightarrow> bool" where
  "replays bytes base state \<longleftrightarrow>
     (\<forall>pos rep. \<exists>rep'. replay_records bytes pos base rep = Inr (state, rep', ReplayEnd_clean))"

lemma replays_nil: "replays [] base base"
  by (simp add: replays_def)

lemma replays_then:
  assumes "replays xs base state"
  obtains rep' where "replay_records (xs @ ys) pos base rep =
    replay_records ys (pos + length xs) state rep'"
  using assms replay_append unfolding replays_def by metis

text \<open>The next record of a log.\<close>

definition next_state :: "RecordType \<Rightarrow> byte list \<Rightarrow> DurableState \<Rightarrow> DurableState" where
  "next_state t p state =
     (snd (apply_record state t p))\<lparr>ds_last_sequence := ds_last_sequence state + 1\<rparr>"

definition applicable :: "RecordType \<Rightarrow> byte list \<Rightarrow> DurableState \<Rightarrow> bool" where
  "applicable t p state \<longleftrightarrow> st_ok (fst (apply_record state t p))"

lemma word_succ_gt: "(x :: u64) \<noteq> - 1 \<Longrightarrow> \<not> x + 1 \<le> x"
  by (metis linorder_not_le word_le_less_eq unat_plus1_64 word_less_nat_alt lessI)

lemma replay_step_next:
  assumes "applicable t p state" "ds_last_sequence state \<noteq> - 1"
  shows "replay_step t (ds_last_sequence state + 1) p state rep =
    Inr (next_state t p state, rep\<lparr>rr_records_replayed := rr_records_replayed rep + 1\<rparr>)"
  using assms word_succ_gt [OF assms(2)]
  by (cases "apply_record state t p") (simp add: replay_step_def applicable_def next_state_def)

lemma replays_frame:
  assumes "replays xs base state" "frameable (ds_last_sequence state + 1) p"
    and "applicable t p state" "ds_last_sequence state \<noteq> - 1"
  shows "replays (xs @ frame t (ds_last_sequence state + 1) p) base (next_state t p state)"
  unfolding replays_def
proof (intro allI)
  fix pos rep
  obtain rep' where "replay_records (xs @ frame t (ds_last_sequence state + 1) p) pos base rep =
      replay_records (frame t (ds_last_sequence state + 1) p) (pos + length xs) state rep'"
    using replays_then [OF assms(1)] by metis
  then show "\<exists>rep'. replay_records (xs @ frame t (ds_last_sequence state + 1) p) pos base rep =
      Inr (next_state t p state, rep', ReplayEnd_clean)"
    using replay_frame [OF assms(2), of t "[]"] replay_step_next [OF assms(3,4)] by simp
qed

text \<open>A record whose sequence was already applied is passed over.\<close>

lemma replays_stale_frame:
  assumes "replays xs base state" "frameable q p" "q \<le> ds_last_sequence state"
  shows "replays (xs @ frame t q p) base state"
  unfolding replays_def
proof (intro allI)
  fix pos rep
  obtain rep' where "replay_records (xs @ frame t q p) pos base rep =
      replay_records (frame t q p) (pos + length xs) state rep'"
    using replays_then [OF assms(1)] by metis
  then show "\<exists>rep'. replay_records (xs @ frame t q p) pos base rep =
      Inr (state, rep', ReplayEnd_clean)"
    using replay_frame [OF assms(2), of t "[]"] assms(3) by (simp add: replay_step_def)
qed

section \<open>A new process on the files\<close>

definition recovered :: "Store \<Rightarrow> DurableState Result" where
  "recovered s =
     (case open_store (sr_journal s) (sr_snapshot s) default_store_options good_open [] [] of
        Inl status \<Rightarrow> Inl status
      | Inr s' \<Rightarrow> (case load s' of Inl status \<Rightarrow> Inl status | Inr (state, _) \<Rightarrow> Inr state))"

definition snapshot_holds :: "byte list option \<Rightarrow> DurableState \<Rightarrow> bool" where
  "snapshot_holds snapshot base \<longleftrightarrow>
     (case snapshot of
        None \<Rightarrow> base = empty_state
      | Some bytes \<Rightarrow> length bytes \<le> max_snapshot_bytes + 64 \<and> decode_snapshot bytes = Inr base)"

lemma recovered_eq:
  assumes "sr_journal s = Some bytes" "snapshot_holds (sr_snapshot s) base"
    and "\<And>rep. \<exists>rep' e. replay_records bytes 0 base rep = Inr (state, rep', e)"
  shows "recovered s = Inr state"
proof -
  have replay: "\<exists>s''. replay_journal base s' = Inr (state, s'')"
    if "sr_journal s' = Some bytes" "sr_journal_open s'" for s'
  proof (cases "bytes = []")
    case True
    then show ?thesis
      using that assms(3) [of empty_report] by (simp add: replay_journal_def Let_def)
  next
    case False
    obtain rep' e where "replay_records bytes 0 base
        ((sr_recovery s')\<lparr>rr_journal_bytes := word_of_nat (length bytes)\<rparr>) = Inr (state, rep', e)"
      using assms(3) by blast
    then show ?thesis
      using that False by (cases e) (simp_all add: replay_journal_def Let_def)
  qed
  obtain s' where s': "open_store (sr_journal s) (sr_snapshot s) default_store_options good_open [] [] = Inr s'"
    "sr_journal s' = Some bytes" "sr_snapshot s' = sr_snapshot s" "sr_journal_open s'"
    "\<not> sr_closed s'"
    using assms(1)
    by (simp add: open_store_def open_files_def default_store_options_def good_open_def)
  obtain s2 where s2: "load_snapshot s' = Inr (base, s2)" "sr_journal s2 = Some bytes"
    "sr_journal_open s2"
    using assms(2) s' by (auto simp: load_snapshot_def snapshot_holds_def split: option.splits)
  show ?thesis
    using replay [OF s2(2,3)] s' s2 by (auto simp: recovered_def load_def)
qed

text \<open>
  A store in agreement with its files: a snapshot of \<open>base\<close> and a journal that replays from it
  to \<open>state\<close>.
\<close>

definition holds :: "Store \<Rightarrow> DurableState \<Rightarrow> bool" where
  "holds s state \<longleftrightarrow> \<not> sr_closed s \<and> \<not> sr_inspection_only s \<and> sr_journal_open s \<and>
     sr_last_sequence s = ds_last_sequence state \<and>
     (\<exists>bytes base. sr_journal s = Some bytes \<and> snapshot_holds (sr_snapshot s) base \<and>
        replays bytes base state)"

lemma holds_recovered: "holds s state \<Longrightarrow> recovered s = Inr state"
  unfolding holds_def replays_def by (elim conjE exE) (rule recovered_eq, assumption+, blast)

section \<open>Appending\<close>

lemma append_cases:
  assumes "holds s state" "append_record t p s = (status, s')"
  obtains (refused) "\<not> st_ok status" "sr_journal s' = sr_journal s" "sr_snapshot s' = sr_snapshot s"
      "holds s' state"
  | (partial) bytes n where "\<not> st_ok status" "sr_journal s = Some bytes"
      "frameable (ds_last_sequence state + 1) p" "ds_last_sequence state \<noteq> - 1"
      "s' = s\<lparr>sr_append_io := tl (sr_append_io s),
         sr_journal := Some (bytes @ take n (frame t (ds_last_sequence state + 1) p))\<rparr>"
  | (written) bytes where "status = ok_status" "sr_journal s = Some bytes"
      "frameable (ds_last_sequence state + 1) p" "ds_last_sequence state \<noteq> - 1"
      "s' = s\<lparr>sr_append_io := tl (sr_append_io s),
         sr_journal := Some (bytes @ frame t (ds_last_sequence state + 1) p),
         sr_journal_bytes := sr_journal_bytes s + length (frame t (ds_last_sequence state + 1) p),
         sr_last_sequence := ds_last_sequence state + 1\<rparr>"
proof -
  obtain bytes where s: "\<not> sr_closed s" "\<not> sr_inspection_only s" "sr_journal_open s"
    "sr_last_sequence s = ds_last_sequence state" "sr_journal s = Some bytes"
    using assms(1) by (auto simp: holds_def)
  let ?q = "ds_last_sequence state + 1"
  consider (no) "\<not> st_ok status" "s' = s"
    | (yes) "frameable ?q p" "ds_last_sequence state \<noteq> - 1"
    using assms(2) s
    by (auto simp: append_record_def encode_journal_record_eq UINT64_MAX_def Let_def
        split: if_splits)
  then show thesis
  proof cases
    case no
    then show thesis using refused assms(1) by blast
  next
    case yes
    have "length p \<le> max_record_payload" using yes(1) by (simp add: frameable_def)
    then consider (full) "\<not> st_ok status" "s' = s"
      | (io) "(status, s') = write_frame (next_append_io s) (frame t ?q p) ?q
          (s\<lparr>sr_append_io := tl (sr_append_io s)\<rparr>)"
      using assms(2) s yes
      by (auto simp: append_record_def encode_journal_record_eq UINT64_MAX_def Let_def
          split: if_splits)
    then show thesis
    proof cases
      case full
      then show thesis using refused assms(1) by blast
    next
      case io
      then show thesis
        using s(3,5) refused partial [OF _ s(5) yes] written [OF _ s(5) yes] assms(1)
        by (cases "next_append_io s") (auto simp: holds_def write_frame_def)
    qed
  qed
qed

lemma holds_after_append:
  assumes "holds s state" "append_record t p s = (status, s')" "st_ok status"
    and "applicable t p state"
  shows "holds s' (next_state t p state)"
  using assms(1,2)
proof (cases rule: append_cases)
  case (written bytes)
  obtain base where "snapshot_holds (sr_snapshot s) base" "replays bytes base state"
    using assms(1) written(2) by (auto simp: holds_def)
  then have "replays (bytes @ frame t (ds_last_sequence state + 1) p) base (next_state t p state)"
    using replays_frame written(3,4) assms(4) by blast
  then show ?thesis
    using assms(1) written \<open>snapshot_holds (sr_snapshot s) base\<close>
    by (auto simp: holds_def next_state_def)
qed (use assms(3) in auto)

lemma recovered_torn:
  assumes "sr_journal s' = Some (bytes @ take n (frame t (ds_last_sequence state + 1) p))"
    and "sr_snapshot s' = sr_snapshot s" "holds s state" "sr_journal s = Some bytes"
    and "frameable (ds_last_sequence state + 1) p" "ds_last_sequence state \<noteq> - 1"
    and "applicable t p state"
  shows "recovered s' = Inr (if n < 28 + length p then state else next_state t p state)"
proof -
  let ?f = "frame t (ds_last_sequence state + 1) p"
  obtain base where base: "snapshot_holds (sr_snapshot s') base" "replays bytes base state"
    using assms(2,3,4) by (auto simp: holds_def)
  show ?thesis
  proof (cases "n < 28 + length p")
    case True
    have "\<exists>rep' e. replay_records (bytes @ take n ?f) 0 base rep = Inr (state, rep', e)" for rep
    proof (cases "n = 0")
      case True
      then show ?thesis using base(2) by (simp add: replays_def) blast
    next
      case False
      then show ?thesis
        using replays_then [OF base(2), of "take n ?f" 0 rep] replay_torn [OF assms(5)] True
        by (metis gr0I)
    qed
    then show ?thesis using recovered_eq [OF assms(1) base(1)] True by simp
  next
    case False
    then have "take n ?f = ?f" by simp
    then have "replays (bytes @ take n ?f) base (next_state t p state)"
      using replays_frame [OF base(2) assms(5,7,6)] by simp
    then show ?thesis
      using recovered_eq [OF assms(1) base(1)] False unfolding replays_def by (metis (full_types))
  qed
qed

end
