(* ===== verification/PFF_Protocol.thy ===== *)
theory PFF_Protocol
  imports PFF_Recovery
begin

text \<open>
  The framed protocol of \<open>include/pff/protocol.hpp\<close> and \<open>src/protocol.cpp\<close>: message types,
  \<open>encode_frame\<close> and the streaming \<open>FrameDecoder\<close>. A decoder is its buffer, the bytes of it
  already consumed, its payload bound and its sticky status.

  Shown: a decoder never holds more than one maximum frame and its read position stays inside
  the buffer; frames come out as they were sent, in order, however the transport cuts the byte
  stream; a frame with one damaged byte is never delivered and the decoder never recovers from
  it; \<open>has_frame\<close> announces exactly the frames whose payload check remains to be done.
  Field prefixes: \<open>fm_\<close> frame, \<open>fh_\<close> frame header, \<open>fd_\<close> decoder.
\<close>

unbundle bit_operations_syntax

section \<open>Message types\<close>

datatype MsgType =
    MsgType_hello
  | MsgType_hello_ack
  | MsgType_error_rsp
  | MsgType_ok_rsp
  | MsgType_status_req
  | MsgType_status_rsp
  | MsgType_set_policy_req
  | MsgType_set_obligations_req
  | MsgType_put_set_req
  | MsgType_put_evidence_req
  | MsgType_set_authority_req
  | MsgType_evaluate_req
  | MsgType_evaluate_rsp
  | MsgType_promote_req
  | MsgType_promote_rsp
  | MsgType_effect_req
  | MsgType_abandon_req
  | MsgType_rollback_req
  | MsgType_revert_req
  | MsgType_fence_req
  | MsgType_attempt_req
  | MsgType_attempt_rsp
  | MsgType_lineage_req
  | MsgType_lineage_rsp
  | MsgType_shutdown_req
  | MsgType_shutdown_rsp

primrec msg_type_value :: "MsgType \<Rightarrow> nat" where
  "msg_type_value MsgType_hello = 1"
| "msg_type_value MsgType_hello_ack = 2"
| "msg_type_value MsgType_error_rsp = 3"
| "msg_type_value MsgType_ok_rsp = 4"
| "msg_type_value MsgType_status_req = 5"
| "msg_type_value MsgType_status_rsp = 6"
| "msg_type_value MsgType_set_policy_req = 7"
| "msg_type_value MsgType_set_obligations_req = 8"
| "msg_type_value MsgType_put_set_req = 9"
| "msg_type_value MsgType_put_evidence_req = 10"
| "msg_type_value MsgType_set_authority_req = 11"
| "msg_type_value MsgType_evaluate_req = 12"
| "msg_type_value MsgType_evaluate_rsp = 13"
| "msg_type_value MsgType_promote_req = 14"
| "msg_type_value MsgType_promote_rsp = 15"
| "msg_type_value MsgType_effect_req = 16"
| "msg_type_value MsgType_abandon_req = 17"
| "msg_type_value MsgType_rollback_req = 18"
| "msg_type_value MsgType_revert_req = 19"
| "msg_type_value MsgType_fence_req = 20"
| "msg_type_value MsgType_attempt_req = 21"
| "msg_type_value MsgType_attempt_rsp = 22"
| "msg_type_value MsgType_lineage_req = 23"
| "msg_type_value MsgType_lineage_rsp = 24"
| "msg_type_value MsgType_shutdown_req = 25"
| "msg_type_value MsgType_shutdown_rsp = 26"

text \<open>The enumerators in numeric order; the first one has the value 1.\<close>

definition msg_type_table :: "MsgType list" where
  "msg_type_table =
    [MsgType_hello, MsgType_hello_ack, MsgType_error_rsp, MsgType_ok_rsp, MsgType_status_req,
     MsgType_status_rsp, MsgType_set_policy_req, MsgType_set_obligations_req,
     MsgType_put_set_req, MsgType_put_evidence_req, MsgType_set_authority_req,
     MsgType_evaluate_req, MsgType_evaluate_rsp, MsgType_promote_req, MsgType_promote_rsp,
     MsgType_effect_req, MsgType_abandon_req, MsgType_rollback_req, MsgType_revert_req,
     MsgType_fence_req, MsgType_attempt_req, MsgType_attempt_rsp, MsgType_lineage_req,
     MsgType_lineage_rsp, MsgType_shutdown_req, MsgType_shutdown_rsp]"

definition msg_type_of :: "u16 \<Rightarrow> MsgType" where
  "msg_type_of raw = msg_type_table ! (unat raw - 1)"

primrec msg_type_to_string :: "MsgType \<Rightarrow> string" where
  "msg_type_to_string MsgType_hello = ''hello''"
| "msg_type_to_string MsgType_hello_ack = ''hello_ack''"
| "msg_type_to_string MsgType_error_rsp = ''error''"
| "msg_type_to_string MsgType_ok_rsp = ''ok''"
| "msg_type_to_string MsgType_status_req = ''status_req''"
| "msg_type_to_string MsgType_status_rsp = ''status_rsp''"
| "msg_type_to_string MsgType_set_policy_req = ''set_policy_req''"
| "msg_type_to_string MsgType_set_obligations_req = ''set_obligations_req''"
| "msg_type_to_string MsgType_put_set_req = ''put_set_req''"
| "msg_type_to_string MsgType_put_evidence_req = ''put_evidence_req''"
| "msg_type_to_string MsgType_set_authority_req = ''set_authority_req''"
| "msg_type_to_string MsgType_evaluate_req = ''evaluate_req''"
| "msg_type_to_string MsgType_evaluate_rsp = ''evaluate_rsp''"
| "msg_type_to_string MsgType_promote_req = ''promote_req''"
| "msg_type_to_string MsgType_promote_rsp = ''promote_rsp''"
| "msg_type_to_string MsgType_effect_req = ''effect_req''"
| "msg_type_to_string MsgType_abandon_req = ''abandon_req''"
| "msg_type_to_string MsgType_rollback_req = ''rollback_req''"
| "msg_type_to_string MsgType_revert_req = ''revert_req''"
| "msg_type_to_string MsgType_fence_req = ''fence_req''"
| "msg_type_to_string MsgType_attempt_req = ''attempt_req''"
| "msg_type_to_string MsgType_attempt_rsp = ''attempt_rsp''"
| "msg_type_to_string MsgType_lineage_req = ''lineage_req''"
| "msg_type_to_string MsgType_lineage_rsp = ''lineage_rsp''"
| "msg_type_to_string MsgType_shutdown_req = ''shutdown_req''"
| "msg_type_to_string MsgType_shutdown_rsp = ''shutdown_rsp''"

definition is_known_msg_type :: "u16 \<Rightarrow> bool" where
  "is_known_msg_type raw \<longleftrightarrow>
     unat raw \<ge> msg_type_value MsgType_hello \<and> unat raw \<le> msg_type_value MsgType_shutdown_rsp"

definition is_request_type :: "MsgType \<Rightarrow> bool" where
  "is_request_type t =
     (case t of
        MsgType_hello \<Rightarrow> True
      | MsgType_status_req \<Rightarrow> True
      | MsgType_set_policy_req \<Rightarrow> True
      | MsgType_set_obligations_req \<Rightarrow> True
      | MsgType_put_set_req \<Rightarrow> True
      | MsgType_put_evidence_req \<Rightarrow> True
      | MsgType_set_authority_req \<Rightarrow> True
      | MsgType_evaluate_req \<Rightarrow> True
      | MsgType_promote_req \<Rightarrow> True
      | MsgType_effect_req \<Rightarrow> True
      | MsgType_abandon_req \<Rightarrow> True
      | MsgType_rollback_req \<Rightarrow> True
      | MsgType_revert_req \<Rightarrow> True
      | MsgType_fence_req \<Rightarrow> True
      | MsgType_attempt_req \<Rightarrow> True
      | MsgType_lineage_req \<Rightarrow> True
      | MsgType_shutdown_req \<Rightarrow> True
      | _ \<Rightarrow> False)"

definition is_response_type :: "MsgType \<Rightarrow> bool" where
  "is_response_type t \<longleftrightarrow> \<not> is_request_type t"

section \<open>Frames\<close>

definition protocol_version :: u16 where "protocol_version = 1"
definition frame_magic :: u32 where "frame_magic = 0x31464650"
definition max_frame_flags :: u32 where "max_frame_flags = 0"

record Frame =
  fm_version :: u16
  fm_type :: MsgType
  fm_flags :: u32
  fm_sequence :: u64
  fm_payload :: "byte list"

definition encode_frame :: "MsgType \<Rightarrow> u64 \<Rightarrow> u32 \<Rightarrow> byte list \<Rightarrow> byte list" where
  "encode_frame type sequence flags payload =
     (if length payload > max_frame_payload \<or> flags > max_frame_flags then []
      else
     (let writer = w_seq
            [w_u32 frame_magic, w_u16 protocol_version,
             w_u16 (word_of_nat (msg_type_value type)), w_u32 flags, w_u64 sequence,
             w_u32 (word_of_nat (length payload))] (byte_writer max_frame_bytes)
      in if \<not> bw_ok writer then []
         else
     (let writer = w_bytes payload (w_u32 (crc32c (bw_buffer writer)) writer)
      in if \<not> bw_ok writer then []
         else finish (w_u32 (crc32c payload) writer))))"

section \<open>The decoder\<close>

record FrameDecoder =
  fd_buffer :: "byte list"
  fd_consumed :: size_t
  fd_max_payload :: size_t
  fd_status :: Status

definition frame_decoder :: "size_t \<Rightarrow> FrameDecoder" where
  "frame_decoder max_payload =
     \<lparr>fd_buffer = [], fd_consumed = 0, fd_max_payload = min max_payload max_frame_payload,
      fd_status = ok_status\<rparr>"

definition failed :: "FrameDecoder \<Rightarrow> bool" where
  "failed d \<longleftrightarrow> \<not> st_ok (fd_status d)"

text \<open>
  \<open>buffer_.size() - consumed_\<close>; the difference cannot wrap, because no operation moves the
  read position past the end of the buffer.
\<close>

definition available :: "FrameDecoder \<Rightarrow> size_t" where
  "available d = length (fd_buffer d) - fd_consumed d"

definition fd_fail :: "Code \<Rightarrow> Reason \<Rightarrow> string \<Rightarrow> FrameDecoder \<Rightarrow> Status \<times> FrameDecoder" where
  "fd_fail code reason detail d =
     (let d = (if st_ok (fd_status d) then d\<lparr>fd_status := Status code reason detail\<rparr> else d)
      in (fd_status d, d))"

definition compact_buffer :: "FrameDecoder \<Rightarrow> FrameDecoder" where
  "compact_buffer d =
     (if fd_consumed d = 0 then d
      else if fd_consumed d \<ge> length (fd_buffer d) then d\<lparr>fd_buffer := [], fd_consumed := 0\<rparr>
      else d\<lparr>fd_buffer := drop (fd_consumed d) (fd_buffer d), fd_consumed := 0\<rparr>)"

definition feed :: "byte list \<Rightarrow> FrameDecoder \<Rightarrow> Status \<times> FrameDecoder" where
  "feed data d =
     (if \<not> st_ok (fd_status d) then (fd_status d, d)
      else if data = [] then (ok_status, d)
      else if length data > max_frame_bytes - min (available d) max_frame_bytes then
        fd_fail Code_exhausted Reason_frame_oversize ''frame buffer bound exceeded'' d
      else
        (let d = compact_buffer d in (ok_status, d\<lparr>fd_buffer := fd_buffer d @ data\<rparr>)))"

definition window :: "FrameDecoder \<Rightarrow> byte list" where
  "window d = drop (fd_consumed d) (fd_buffer d)"

definition frame_total :: "u32 \<Rightarrow> size_t" where
  "frame_total payload_length = frame_header_bytes + unat payload_length + frame_trailer_bytes"

definition has_frame :: "FrameDecoder \<Rightarrow> bool" where
  "has_frame d =
     (if \<not> st_ok (fd_status d) then False
      else if available d < frame_header_bytes then False
      else
        (let header = take frame_header_bytes (window d)
         in if read_u32_at header 0 \<noteq> frame_magic \<or> read_u16_at header 4 \<noteq> protocol_version \<or>
               \<not> is_known_msg_type (read_u16_at header 6) \<or> read_u32_at header 8 > max_frame_flags
            then False
            else if unat (read_u32_at header 20) > fd_max_payload d then False
            else if crc32c (take (frame_header_bytes - frame_trailer_bytes) header) \<noteq>
                    read_u32_at header 24 then False
            else available d \<ge> frame_total (read_u32_at header 20)))"

record FrameHeader =
  fh_magic :: u32
  fh_version :: u16
  fh_type :: u16
  fh_flags :: u32
  fh_sequence :: u64
  fh_payload_length :: u32
  fh_header_crc :: u32

definition get_frame_header :: "FrameHeader reader" where
  "get_frame_header = do {
     magic \<leftarrow> r_u32;
     version \<leftarrow> r_u16;
     type \<leftarrow> r_u16;
     flags \<leftarrow> r_u32;
     sequence \<leftarrow> r_u64;
     payload_length \<leftarrow> r_u32;
     header_crc \<leftarrow> r_u32;
     State_Monad.return
       \<lparr>fh_magic = magic, fh_version = version, fh_type = type, fh_flags = flags,
        fh_sequence = sequence, fh_payload_length = payload_length,
        fh_header_crc = header_crc\<rparr> }"

definition pop_fail :: "Code \<Rightarrow> Reason \<Rightarrow> string \<Rightarrow> FrameDecoder \<Rightarrow> Frame Result \<times> FrameDecoder" where
  "pop_fail code reason detail d = apfst Inl (fd_fail code reason detail d)"

text \<open>The end of \<open>pop\<close>: the header has passed its checks.\<close>

definition pop_payload :: "FrameHeader \<Rightarrow> FrameDecoder \<Rightarrow> Frame Result \<times> FrameDecoder" where
  "pop_payload h d =
     (let total = frame_total (fh_payload_length h)
      in if available d < total then
           (Inl (Status Code_unknown Reason_frame_truncated ''frame payload incomplete''), d)
         else
     (let payload = take (unat (fh_payload_length h)) (drop frame_header_bytes (window d));
          stored_crc = read_u32_at (window d) (frame_header_bytes + unat (fh_payload_length h))
      in if stored_crc \<noteq> crc32c payload then
           pop_fail Code_corrupt Reason_integrity_failure ''frame payload integrity failure'' d
         else
     (let d = d\<lparr>fd_consumed := fd_consumed d + total\<rparr>;
          d = (if fd_consumed d = length (fd_buffer d)
               then d\<lparr>fd_buffer := [], fd_consumed := 0\<rparr> else d)
      in (Inr \<lparr>fm_version = fh_version h, fm_type = msg_type_of (fh_type h),
               fm_flags = fh_flags h, fm_sequence = fh_sequence h, fm_payload = payload\<rparr>, d))))"

definition pop :: "FrameDecoder \<Rightarrow> Frame Result \<times> FrameDecoder" where
  "pop d =
     (if \<not> st_ok (fd_status d) then (Inl (fd_status d), d)
      else if available d < frame_header_bytes then
        (Inl (Status Code_unknown Reason_frame_truncated ''frame header incomplete''), d)
      else
     (let header = take frame_header_bytes (window d)
      in case run_state get_frame_header (byte_reader header) of (h, reader) \<Rightarrow>
      if \<not> br_ok reader \<or> \<not> at_end reader then
        pop_fail Code_invalid Reason_length_invalid ''frame header truncated'' d
      else if fh_magic h \<noteq> frame_magic then
        pop_fail Code_invalid Reason_frame_magic ''frame magic mismatch'' d
      else if fh_version h \<noteq> protocol_version then
        pop_fail Code_version_unsupported Reason_protocol_version_mismatch
          ''protocol version mismatch'' d
      else if \<not> is_known_msg_type (fh_type h) then
        pop_fail Code_invalid Reason_enum_invalid ''frame type out of range'' d
      else if fh_flags h > max_frame_flags then
        pop_fail Code_invalid Reason_domain_invalid ''frame flags must be zero'' d
      else if unat (fh_payload_length h) > fd_max_payload d then
        pop_fail Code_invalid Reason_frame_oversize ''declared payload exceeds bound'' d
      else if crc32c (take (frame_header_bytes - frame_trailer_bytes) header) \<noteq> fh_header_crc h then
        pop_fail Code_corrupt Reason_corrupt_header ''frame header integrity failure'' d
      else pop_payload h d))"


section \<open>The bytes of a frame\<close>

definition wire_head :: "MsgType \<Rightarrow> u64 \<Rightarrow> byte list \<Rightarrow> byte list" where
  "wire_head t q p =
     le 4 frame_magic @ le 2 protocol_version @ le 2 (word_of_nat (msg_type_value t) :: u16) @
     le 4 (0 :: u32) @ le 8 q @ le 4 (word_of_nat (length p) :: u32)"

definition wire_frame :: "MsgType \<Rightarrow> u64 \<Rightarrow> byte list \<Rightarrow> byte list" where
  "wire_frame t q p =
     wire_head t q p @ le 4 (crc32c (wire_head t q p)) @ p @ le 4 (crc32c p)"

lemmas frame_bounds =
  frame_header_bytes_def frame_trailer_bytes_def max_frame_payload_def max_frame_bytes_def

lemma length_wire_head [simp]: "length (wire_head t q p) = 24"
  by (simp add: wire_head_def)

lemma length_wire_frame [simp]: "length (wire_frame t q p) = 32 + length p"
  by (simp add: wire_frame_def)

lemma encode_frame_eq:
  "encode_frame t q flags p =
     (if length p \<le> max_frame_payload \<and> flags = 0 then wire_frame t q p else [])"
proof (cases "length p \<le> max_frame_payload \<and> flags = 0")
  case False
  then show ?thesis by (auto simp: encode_frame_def max_frame_flags_def word_gt_0)
next
  case True
  let ?head = "wire_head t q p"
  have m: "32 + length p \<le> max_frame_bytes" using True by (simp add: frame_bounds)
  have "writes (w_seq [w_u32 frame_magic, w_u16 protocol_version,
      w_u16 (word_of_nat (msg_type_value t)), w_u32 0, w_u64 q,
      w_u32 (word_of_nat (length p))]) (?head @ [])"
    unfolding wire_head_def append_assoc
    by (intro writes_seq_Cons writes_seq_Nil writes_prims)
  then have head: "w_seq [w_u32 frame_magic, w_u16 protocol_version,
      w_u16 (word_of_nat (msg_type_value t)), w_u32 0, w_u64 q,
      w_u32 (word_of_nat (length p))] (byte_writer max_frame_bytes) =
      \<lparr>bw_buffer = ?head, bw_max_size = max_frame_bytes, bw_status = ok_status\<rparr>"
    using writer_append [of _ ?head "[]" max_frame_bytes] m by (simp add: byte_writer_def)
  show ?thesis
    using True m unfolding encode_frame_def
    by (simp add: head wire_frame_def bw_ok_def finish_def Let_def
        writer_append [OF writes_prims(3)] writer_append [OF writes_bytes])
qed

lemma msg_type_known:
  "msg_type_of (word_of_nat (msg_type_value t)) = t"
  "is_known_msg_type (word_of_nat (msg_type_value t))"
proof -
  have b: "1 \<le> msg_type_value t" "msg_type_value t \<le> 26" by (cases t; simp)+
  then have u: "unat (word_of_nat (msg_type_value t) :: u16) = msg_type_value t"
    by (simp add: unat_of_nat)
  show "msg_type_of (word_of_nat (msg_type_value t)) = t"
    unfolding msg_type_of_def u by (cases t) (simp_all add: msg_type_table_def)
  show "is_known_msg_type (word_of_nat (msg_type_value t))"
    unfolding is_known_msg_type_def u using b by simp
qed

text \<open>The fixed-width reads of a header that is complete.\<close>

lemma get_frame_header_eq:
  assumes "length h = 28"
  shows "run_state get_frame_header (byte_reader h) =
    (\<lparr>fh_magic = read_u32_at h 0, fh_version = read_u16_at h 4, fh_type = read_u16_at h 6,
      fh_flags = read_u32_at h 8, fh_sequence = read_u64_at h 12,
      fh_payload_length = read_u32_at h 20, fh_header_crc = read_u32_at h 24\<rparr>,
     \<lparr>br_data = h, br_offset = 28, br_status = ok_status\<rparr>)"
  by (simp add: get_frame_header_def byte_reader_def r_u16_def r_u32_def r_u64_def r_fixed_def
      br_ok_def remaining_def assms)

lemma read_prefix:
  "off + 4 \<le> n \<Longrightarrow> read_u32_at (take n xs) off = read_u32_at xs off"
  "off + 2 \<le> n \<Longrightarrow> read_u16_at (take n xs) off = read_u16_at xs off"
  "off + 8 \<le> n \<Longrightarrow> read_u64_at (take n xs) off = read_u64_at xs off"
  by (simp_all add: read_u32_at_def read_u16_at_def read_u64_at_def)

lemma byte_bits: "8 \<le> n \<Longrightarrow> \<not> bit (b :: byte) n"
  using bit_imp_le_length by force

text \<open>Reading four bytes and writing them again gives the bytes back.\<close>

lemma le_read_u32:
  assumes "off + 4 \<le> length data"
  shows "le 4 (read_u32_at data off) = take 4 (drop off data)"
proof (rule nth_equalityI)
  show "length (le 4 (read_u32_at data off)) = length (take 4 (drop off data))"
    using assms by simp
next
  fix i assume "i < length (le 4 (read_u32_at data off))"
  then have i: "i < 4" by simp
  have "ucast (drop_bit (8 * i) (read_u32_at data off)) = data ! (off + i)"
  proof (rule bit_eqI)
    fix n assume "possible_bit TYPE(8 word) n"
    then have n: "n < 8" by (simp add: possible_bit_def)
    consider "i = 0" | "i = 1" | "i = 2" | "i = 3" using i by linarith
    then show "bit (ucast (drop_bit (8 * i) (read_u32_at data off)) :: u8) n = bit (data ! (off + i)) n"
      using n by cases (simp_all add: read_u32_at_def bit_simps possible_bit_def byte_bits)
  qed
  then show "le 4 (read_u32_at data off) ! i = take 4 (drop off data) ! i"
    using i assms by simp
qed

section \<open>What \<open>pop\<close> sees\<close>

definition sane :: "FrameDecoder \<Rightarrow> bool" where
  "sane d \<longleftrightarrow> fd_consumed d \<le> length (fd_buffer d) \<and> length (fd_buffer d) \<le> max_frame_bytes \<and>
     fd_max_payload d \<le> max_frame_payload"

lemma length_window [simp]: "length (window d) = available d"
  by (simp add: window_def available_def)

text \<open>The checks on the header that \<open>pop\<close> and \<open>has_frame\<close> share.\<close>

definition header_valid :: "size_t \<Rightarrow> byte list \<Rightarrow> bool" where
  "header_valid max_payload w \<longleftrightarrow>
     read_u32_at w 0 = frame_magic \<and> read_u16_at w 4 = protocol_version \<and>
     is_known_msg_type (read_u16_at w 6) \<and> read_u32_at w 8 \<le> max_frame_flags \<and>
     unat (read_u32_at w 20) \<le> max_payload \<and> crc32c (take 24 w) = read_u32_at w 24"

definition payload_valid :: "byte list \<Rightarrow> bool" where
  "payload_valid w \<longleftrightarrow>
     read_u32_at w (28 + unat (read_u32_at w 20)) =
       crc32c (take (unat (read_u32_at w 20)) (drop 28 w))"

definition frame_at :: "byte list \<Rightarrow> Frame" where
  "frame_at w =
     \<lparr>fm_version = read_u16_at w 4, fm_type = msg_type_of (read_u16_at w 6),
      fm_flags = read_u32_at w 8, fm_sequence = read_u64_at w 12,
      fm_payload = take (unat (read_u32_at w 20)) (drop 28 w)\<rparr>"

lemma has_frame_eq:
  "has_frame d \<longleftrightarrow> \<not> failed d \<and> 28 \<le> available d \<and> header_valid (fd_max_payload d) (window d) \<and>
     32 + unat (read_u32_at (window d) 20) \<le> available d"
  by (auto simp: has_frame_def failed_def header_valid_def frame_total_def frame_bounds read_prefix
      Let_def not_less)

lemma pop_failed: "failed d \<Longrightarrow> pop d = (Inl (fd_status d), d)"
  by (simp add: pop_def failed_def)

lemma pop_short:
  "\<not> failed d \<Longrightarrow> available d < 28 \<Longrightarrow>
   pop d = (Inl (Status Code_unknown Reason_frame_truncated ''frame header incomplete''), d)"
  by (simp add: pop_def failed_def frame_bounds)

lemma pop_bad_header:
  assumes "\<not> failed d" "28 \<le> available d" "\<not> header_valid (fd_max_payload d) (window d)"
  shows "\<exists>s. \<not> st_ok s \<and> st_reason s \<noteq> Reason_integrity_failure \<and>
    pop d = (Inl s, d\<lparr>fd_status := s\<rparr>)"
  using assms
  by (auto simp: pop_def failed_def header_valid_def frame_bounds get_frame_header_eq read_prefix
      Let_def pop_fail_def fd_fail_def br_ok_def at_end_def)

lemma pop_good_header:
  assumes "\<not> failed d" "28 \<le> available d" "header_valid (fd_max_payload d) (window d)"
  shows "pop d =
    (if available d < 32 + unat (read_u32_at (window d) 20) then
       (Inl (Status Code_unknown Reason_frame_truncated ''frame payload incomplete''), d)
     else if \<not> payload_valid (window d) then
       (Inl (Status Code_corrupt Reason_integrity_failure ''frame payload integrity failure''),
        d\<lparr>fd_status := Status Code_corrupt Reason_integrity_failure
             ''frame payload integrity failure''\<rparr>)
     else (Inr (frame_at (window d)),
       let n = fd_consumed d + 32 + unat (read_u32_at (window d) 20)
       in if n = length (fd_buffer d) then d\<lparr>fd_buffer := [], fd_consumed := 0\<rparr>
          else d\<lparr>fd_consumed := n\<rparr>))"
proof -
  have "min (length (window d)) 28 = 28" using assms(2) by simp
  then have "pop d = pop_payload
    \<lparr>fh_magic = read_u32_at (window d) 0, fh_version = read_u16_at (window d) 4,
     fh_type = read_u16_at (window d) 6, fh_flags = read_u32_at (window d) 8,
     fh_sequence = read_u64_at (window d) 12, fh_payload_length = read_u32_at (window d) 20,
     fh_header_crc = read_u32_at (window d) 24\<rparr> d"
    using assms
    by (auto simp: pop_def failed_def header_valid_def frame_bounds get_frame_header_eq read_prefix
        Let_def br_ok_def at_end_def)
  then show ?thesis
    using assms(1)
    by (simp add: pop_payload_def frame_total_def frame_bounds payload_valid_def frame_at_def Let_def
        pop_fail_def fd_fail_def failed_def window_def add.assoc)
qed

section \<open>Driving a decoder\<close>

text \<open>
  \<open>drain\<close> is the inner loop of both sides of the protocol: take frames until \<open>pop\<close> has none.
  It ends because every frame taken shortens the window.
\<close>

lemma pop_cases:
  assumes "pop d = (r, d')"
  obtains (failed) "failed d" "r = Inl (fd_status d)" "d' = d"
  | (short) "\<not> failed d" "available d < 28" "d' = d"
      "r = Inl (Status Code_unknown Reason_frame_truncated ''frame header incomplete'')"
  | (header) s where "\<not> failed d" "28 \<le> available d"
      "\<not> header_valid (fd_max_payload d) (window d)" "\<not> st_ok s" "r = Inl s" "d' = d\<lparr>fd_status := s\<rparr>"
  | (partial) "\<not> failed d" "28 \<le> available d" "header_valid (fd_max_payload d) (window d)"
      "available d < 32 + unat (read_u32_at (window d) 20)" "d' = d"
      "r = Inl (Status Code_unknown Reason_frame_truncated ''frame payload incomplete'')"
  | (payload) s where "\<not> failed d" "28 \<le> available d"
      "header_valid (fd_max_payload d) (window d)"
      "32 + unat (read_u32_at (window d) 20) \<le> available d" "\<not> payload_valid (window d)"
      "s = Status Code_corrupt Reason_integrity_failure ''frame payload integrity failure''"
      "r = Inl s" "d' = d\<lparr>fd_status := s\<rparr>"
  | (frame) "\<not> failed d" "28 \<le> available d" "header_valid (fd_max_payload d) (window d)"
      "32 + unat (read_u32_at (window d) 20) \<le> available d" "payload_valid (window d)"
      "r = Inr (frame_at (window d))" "\<not> failed d'" "fd_max_payload d' = fd_max_payload d"
      "window d' = drop (32 + unat (read_u32_at (window d) 20)) (window d)" "sane d \<Longrightarrow> sane d'"
proof (cases "failed d \<or> available d < 28 \<or> \<not> header_valid (fd_max_payload d) (window d)")
  case True
  then consider "failed d" | "\<not> failed d" "available d < 28"
    | "\<not> failed d" "28 \<le> available d" "\<not> header_valid (fd_max_payload d) (window d)"
    using leI by blast
  then show thesis
  proof cases
    case 1
    then show thesis using assms pop_failed [OF 1] by (intro that(1)) auto
  next
    case 2
    then show thesis using assms pop_short [OF 2] by (intro that(2)) simp_all
  next
    case 3
    obtain st where "\<not> st_ok st" "pop d = (Inl st, d\<lparr>fd_status := st\<rparr>)"
      using pop_bad_header [OF 3] by blast
    then show thesis using assms 3 by (intro that(3)) simp_all
  qed
next
  case False
  then have f: "\<not> failed d" "28 \<le> available d" "header_valid (fd_max_payload d) (window d)" by auto
  let ?n = "32 + unat (read_u32_at (window d) 20)"
  consider "available d < ?n" | "?n \<le> available d" "\<not> payload_valid (window d)"
    | "?n \<le> available d" "payload_valid (window d)" using leI by blast
  then show thesis
  proof cases
    case 1
    then show thesis using assms f unfolding pop_good_header [OF f] by (intro that(4)) auto
  next
    case 2
    then show thesis using assms f unfolding pop_good_header [OF f] by (intro that(5)) auto
  next
    case 3
    then show thesis
      using assms f unfolding pop_good_header [OF f]
      by (intro that(6)) (auto simp: Let_def failed_def window_def available_def sane_def ac_simps
          split: if_splits)
  qed
qed

lemma pop_shrinks: "pop d = (Inr fr, d') \<Longrightarrow> available d' < available d"
proof (erule pop_cases)
  assume n: "32 + unat (read_u32_at (window d) 20) \<le> available d"
    "window d' = drop (32 + unat (read_u32_at (window d) 20)) (window d)"
  have "available d' = length (window d')" by simp
  also have "\<dots> < available d" using n(1) unfolding n(2) length_drop length_window by linarith
  finally show "available d' < available d" .
qed simp_all

function drain :: "FrameDecoder \<Rightarrow> Frame list \<times> FrameDecoder" where
  "drain d =
     (case pop d of (Inl status, d) \<Rightarrow> ([], d) | (Inr fr, d) \<Rightarrow> apfst ((#) fr) (drain d))"
  by pat_completeness auto
termination
  by (relation "measure available") (auto dest: pop_shrinks [OF sym])

declare drain.simps [simp del]

primrec receive_all :: "byte list list \<Rightarrow> FrameDecoder \<Rightarrow> Frame list \<times> FrameDecoder" where
  "receive_all [] d = ([], d)"
| "receive_all (chunk # chunks) d =
     (case drain (snd (feed chunk d)) of (frames, d) \<Rightarrow> apfst ((@) frames) (receive_all chunks d))"

section \<open>Bounds\<close>

text \<open>An arbitrary client of a decoder.\<close>

datatype DecoderCall = Feed "byte list" | Pop

primrec drive :: "DecoderCall list \<Rightarrow> FrameDecoder \<Rightarrow> Frame list \<times> FrameDecoder" where
  "drive [] d = ([], d)"
| "drive (c # cs) d =
     (case c of
        Feed data \<Rightarrow> drive cs (snd (feed data d))
      | Pop \<Rightarrow> (case pop d of
          (Inl status, d) \<Rightarrow> drive cs d
        | (Inr fr, d) \<Rightarrow> apfst ((#) fr) (drive cs d)))"

lemma frame_decoder_sane: "sane (frame_decoder m)"
  by (simp add: sane_def frame_decoder_def)

lemma feed_failed: "failed d \<Longrightarrow> feed data d = (fd_status d, d)"
  by (simp add: feed_def failed_def)

lemma feed_accepts:
  assumes "\<not> failed d" "available d + length data \<le> max_frame_bytes" "sane d"
  shows "fst (feed data d) = ok_status \<and> \<not> failed (snd (feed data d)) \<and>
    window (snd (feed data d)) = window d @ data \<and>
    fd_max_payload (snd (feed data d)) = fd_max_payload d \<and> sane (snd (feed data d))"
  using assms
  by (auto simp: feed_def failed_def compact_buffer_def window_def available_def sane_def Let_def)

lemma feed_refuses:
  assumes "\<not> failed d" "max_frame_bytes < available d + length data" "available d \<le> max_frame_bytes"
  shows "feed data d =
    (Status Code_exhausted Reason_frame_oversize ''frame buffer bound exceeded'',
     d\<lparr>fd_status := Status Code_exhausted Reason_frame_oversize ''frame buffer bound exceeded''\<rparr>)"
  using assms by (auto simp: feed_def failed_def fd_fail_def)

lemma sane_available: "sane d \<Longrightarrow> available d \<le> max_frame_bytes"
  by (auto simp: sane_def available_def)

lemma feed_sane: "sane d \<Longrightarrow> sane (snd (feed data d)) \<and>
    fd_max_payload (snd (feed data d)) = fd_max_payload d"
proof (cases "failed d")
  case False
  assume d: "sane d"
  then show ?thesis
  proof (cases "available d + length data \<le> max_frame_bytes")
    case True
    then show ?thesis using feed_accepts [OF False True d] by simp
  next
    case excess: False
    then show ?thesis
      using d feed_refuses [OF False _ sane_available [OF d], of data] by (simp add: sane_def)
  qed
qed (simp add: feed_failed)

lemma pop_sane:
  assumes "sane d" "pop d = (r, d')"
  shows "sane d' \<and> fd_max_payload d' = fd_max_payload d \<and>
    (\<forall>fr. r = Inr fr \<longrightarrow> fm_version fr = protocol_version \<and> fm_flags fr = 0 \<and>
       length (fm_payload fr) \<le> fd_max_payload d)"
  using assms(2,1)
  by (cases rule: pop_cases) (auto simp: sane_def frame_at_def header_valid_def max_frame_flags_def)

lemma drive_sane:
  assumes "sane d" "drive calls d = (frames, d')"
  shows "sane d' \<and> fd_max_payload d' = fd_max_payload d \<and>
    (\<forall>fr \<in> set frames. fm_version fr = protocol_version \<and> fm_flags fr = 0 \<and>
       length (fm_payload fr) \<le> fd_max_payload d)"
  using assms
proof (induction calls arbitrary: d frames d')
  case (Cons c calls)
  show ?case
  proof (cases c)
    case (Feed data)
    then have "drive calls (snd (feed data d)) = (frames, d')" using Cons.prems(2) by simp
    then show ?thesis
      using Cons.IH [of "snd (feed data d)"] feed_sane [OF Cons.prems(1), of data] by simp
  next
    case Pop
    obtain r e where p: "pop d = (r, e)" by (cases "pop d")
    obtain frs e' where next1: "drive calls e = (frs, e')" by (cases "drive calls e")
    note s = pop_sane [OF Cons.prems(1) p]
    then have rest: "sane e' \<and> fd_max_payload e' = fd_max_payload e \<and>
        (\<forall>fr \<in> set frs. fm_version fr = protocol_version \<and> fm_flags fr = 0 \<and>
          length (fm_payload fr) \<le> fd_max_payload e)"
      using Cons.IH next1 by blast
    show ?thesis
    proof (cases r)
      case (Inl st)
      then show ?thesis using rest s Cons.prems(2) Pop p next1 by simp
    next
      case (Inr fr)
      then have "frames = fr # frs" "d' = e'" using Cons.prems(2) Pop p next1 by simp_all
      then show ?thesis using rest s Inr by simp
    qed
  qed
qed simp

section \<open>Failure is final\<close>

lemma drive_failed: "failed d \<Longrightarrow> drive calls d = ([], d)"
  by (induction calls) (simp_all add: feed_failed pop_failed split: DecoderCall.split)

section \<open>Delivery\<close>

text \<open>A frame the sender can encode and a decoder with this payload bound accepts.\<close>

definition deliverable :: "size_t \<Rightarrow> Frame \<Rightarrow> bool" where
  "deliverable max_payload fr \<longleftrightarrow> fm_version fr = protocol_version \<and> fm_flags fr = 0 \<and>
     length (fm_payload fr) \<le> max_payload"

definition sent :: "Frame \<Rightarrow> byte list" where
  "sent fr = encode_frame (fm_type fr) (fm_sequence fr) (fm_flags fr) (fm_payload fr)"

lemma sent_eq:
  "deliverable m fr \<Longrightarrow> m \<le> max_frame_payload \<Longrightarrow>
     sent fr = wire_frame (fm_type fr) (fm_sequence fr) (fm_payload fr)"
  by (simp add: sent_def deliverable_def encode_frame_eq)

lemma wire_fields:
  assumes "length p \<le> max_frame_payload" "28 \<le> n" and w_def: "w = take n (wire_frame t q p @ rest)"
  shows "read_u32_at w 0 = frame_magic" "read_u16_at w 4 = protocol_version"
    "read_u16_at w 6 = word_of_nat (msg_type_value t)" "read_u32_at w 8 = 0"
    "read_u64_at w 12 = q" "unat (read_u32_at w 20) = length p"
    "read_u32_at w 24 = crc32c (wire_head t q p)" "take 24 w = wire_head t q p"
proof -
  have l: "unat (word_of_nat (length p) :: u32) = length p"
    using assms(1) by (simp add: unat_of_nat max_frame_payload_def)
  have r: "read_u32_at w 20 = word_of_nat (length p)"
    unfolding w_def
    by (intro read_le) (use assms(2) in \<open>simp add: wire_frame_def wire_head_def nth_append\<close>)
  show "unat (read_u32_at w 20) = length p" unfolding r by (rule l)
  show "take 24 w = wire_head t q p"
    using assms(2) by (simp add: w_def wire_frame_def min_def)
qed (unfold w_def, (intro read_le, use assms(2) in \<open>simp add: wire_frame_def wire_head_def nth_append\<close>)+)

lemma wire_header_valid:
  assumes "length p \<le> m" "m \<le> max_frame_payload" "28 \<le> n"
  shows "header_valid m (take n (wire_frame t q p @ rest))"
proof -
  have "length p \<le> max_frame_payload" using assms by simp
  note f = wire_fields [OF this assms(3) refl, of t q rest]
  show ?thesis unfolding header_valid_def f using assms(1) by (simp add: msg_type_known)
qed

lemma wire_payload_valid:
  assumes "length p \<le> max_frame_payload"
  shows "payload_valid (wire_frame t q p @ rest)"
    "take (length p) (drop 28 (wire_frame t q p @ rest)) = p"
proof -
  have len: "unat (read_u32_at (wire_frame t q p @ rest) 20) = length p"
    using wire_fields(6) [OF assms _ refl, of "length (wire_frame t q p @ rest)" t q rest] by simp
  show p: "take (length p) (drop 28 (wire_frame t q p @ rest)) = p"
    by (simp add: wire_frame_def)
  have "read_u32_at (wire_frame t q p @ rest) (28 + length p) = crc32c p"
    by (intro read_le) (simp add: wire_frame_def nth_append)
  then show "payload_valid (wire_frame t q p @ rest)" unfolding payload_valid_def len p .
qed

lemma wire_frame_at:
  assumes "deliverable m fr" "m \<le> max_frame_payload"
  shows "frame_at (sent fr @ rest) = fr"
proof -
  have p: "length (fm_payload fr) \<le> max_frame_payload"
    using assms by (simp add: deliverable_def)
  note f = wire_fields [OF p _ refl, of "length (sent fr @ rest)" "fm_type fr" "fm_sequence fr" rest,
      folded sent_eq [OF assms], simplified]
  have "28 \<le> length (sent fr)" by (simp add: sent_eq [OF assms])
  then show ?thesis
    using assms(1) wire_payload_valid(2) [OF p, of "fm_type fr" "fm_sequence fr" rest,
        folded sent_eq [OF assms]]
    unfolding frame_at_def by (simp add: f msg_type_known deliverable_def)
qed

text \<open>One whole frame at the read position is delivered and consumed; a part of one is kept.\<close>

lemma pop_whole:
  assumes "\<not> failed d" "sane d" "deliverable (fd_max_payload d) fr" "window d = sent fr @ rest"
  obtains d' where "pop d = (Inr fr, d')" "\<not> failed d'" "sane d'" "window d' = rest"
    "fd_max_payload d' = fd_max_payload d"
proof -
  have m: "fd_max_payload d \<le> max_frame_payload" using assms(2) by (simp add: sane_def)
  note s = sent_eq [OF assms(3) m]
  let ?p = "fm_payload fr" and ?w = "wire_frame (fm_type fr) (fm_sequence fr) (fm_payload fr) @ rest"
  have p: "length ?p \<le> max_frame_payload" "length ?p \<le> fd_max_payload d"
    using assms(3) m by (simp_all add: deliverable_def)
  have w: "window d = ?w" by (simp add: assms(4) s)
  have a: "available d = 32 + length ?p + length rest" using arg_cong [OF w, of length] by simp
  have f: "unat (read_u32_at (window d) 20) = length ?p"
    using wire_fields(6) [OF p(1) _ refl, of "length ?w" "fm_type fr" "fm_sequence fr" rest] by (simp add: w)
  have h: "header_valid (fd_max_payload d) (window d)"
    using wire_header_valid [OF p(2) m, of "length ?w" "fm_type fr" "fm_sequence fr" rest]
    by (simp add: w)
  have v: "payload_valid (window d)" unfolding w by (rule wire_payload_valid [OF p(1)])
  have fr: "frame_at (window d) = fr" unfolding assms(4) by (rule wire_frame_at [OF assms(3) m])
  obtain r d' where pop: "pop d = (r, d')" by (cases "pop d")
  then show thesis
  proof (cases rule: pop_cases)
    case frame
    have "window d' = rest" unfolding frame(9) f by (simp add: w)
    then show thesis using that pop frame assms(2) fr by simp
  qed (use assms(1) a f h v in simp_all)
qed

lemma pop_part:
  assumes "\<not> failed d" "sane d" "deliverable (fd_max_payload d) fr" "window d @ tail = sent fr"
    "tail \<noteq> []"
  shows "\<exists>s. pop d = (Inl s, d)"
proof -
  have m: "fd_max_payload d \<le> max_frame_payload" using assms(2) by (simp add: sane_def)
  note s = sent_eq [OF assms(3) m]
  let ?p = "fm_payload fr" and ?w = "wire_frame (fm_type fr) (fm_sequence fr) (fm_payload fr)"
  have p: "length ?p \<le> max_frame_payload" "length ?p \<le> fd_max_payload d"
    using assms(3) m by (simp_all add: deliverable_def)
  have w: "window d = take (available d) (?w @ [])"
    using assms(4) by (metis append_Nil2 append_eq_conv_conj length_window s)
  have a: "available d < 32 + length ?p"
  proof -
    have "available d + length tail = 32 + length ?p"
      using arg_cong [OF assms(4), of length] by (simp add: s)
    then show ?thesis using assms(5) by (cases tail) auto
  qed
  show ?thesis
  proof (cases "available d < 28")
    case False
    then have n: "28 \<le> available d" by simp
    have f: "unat (read_u32_at (window d) 20) = length ?p"
      by (rule wire_fields(6) [OF p(1) n w])
    have "header_valid (fd_max_payload d) (window d)"
      by (subst w, rule wire_header_valid [OF p(2) m n])
    then show ?thesis using pop_good_header [OF assms(1) n] f a by simp
  qed (use pop_short [OF assms(1)] in blast)
qed

text \<open>
  What \<open>drain\<close> leaves behind: the frames that are complete come out, the rest is a proper part
  of the next one.
\<close>

lemma drain_complete:
  assumes "\<not> failed d" "sane d" "\<forall>fr \<in> set frames. deliverable (fd_max_payload d) fr"
    "window d @ tail = concat (map sent frames)"
  obtains k d' where "drain d = (take k frames, d')" "\<not> failed d'" "sane d'"
    "fd_max_payload d' = fd_max_payload d" "window d' @ tail = concat (map sent (drop k frames))"
    "drop k frames = [] \<or> length (window d') < length (sent (hd (drop k frames)))"
  using assms
proof (induction frames arbitrary: d thesis)
  case Nil
  then have w: "window d = []" by simp
  then have "available d = 0" by (metis length_window list.size(3))
  then have "drain d = ([], d)" using Nil.prems(2) by (simp add: drain.simps pop_short)
  then show thesis using Nil.prems by simp
next
  case (Cons fr frames)
  have dl: "deliverable (fd_max_payload d) fr" using Cons.prems(4) by simp
  show thesis
  proof (cases "length (sent fr) \<le> available d")
    case True
    then have "take (length (sent fr)) (window d) = sent fr"
      using arg_cong [OF Cons.prems(5), of "take (length (sent fr))"] by simp
    then obtain rest where w: "window d = sent fr @ rest" by (metis append_take_drop_id)
    obtain d1 where d1: "pop d = (Inr fr, d1)" "\<not> failed d1" "sane d1" "window d1 = rest"
      "fd_max_payload d1 = fd_max_payload d"
      using pop_whole [OF Cons.prems(2,3) dl w] by blast
    have "window d1 @ tail = concat (map sent frames)" using Cons.prems(5) by (simp add: w d1(4))
    moreover have "\<forall>g \<in> set frames. deliverable (fd_max_payload d1) g"
      using Cons.prems(4) d1(5) by simp
    ultimately obtain k d' where k: "drain d1 = (take k frames, d')" "\<not> failed d'" "sane d'"
      "fd_max_payload d' = fd_max_payload d1" "window d' @ tail = concat (map sent (drop k frames))"
      "drop k frames = [] \<or> length (window d') < length (sent (hd (drop k frames)))"
      using Cons.IH [OF _ d1(2,3)] by blast
    have "drain d = (take (Suc k) (fr # frames), d')" by (subst drain.simps) (simp add: d1(1) k(1))
    then show thesis by (rule Cons.prems(1)) (use k d1(5) in simp_all)
  next
    case False
    then have part: "take (available d) (sent fr) = window d"
      using arg_cong [OF Cons.prems(5), of "take (available d)"] by simp
    then obtain t where t: "window d @ t = sent fr" by (metis append_take_drop_id)
    then have "t \<noteq> []" using False by (metis append_Nil2 le_refl length_window)
    note t = t this
    obtain st where "pop d = (Inl st, d)" using pop_part [OF Cons.prems(2,3) dl t] by blast
    then have "drain d = (take 0 (fr # frames), d)" by (subst drain.simps) simp
    then show thesis using Cons.prems False by (metis drop0 length_window list.sel(1) not_le)
  qed
qed

text \<open>
  Delivery does not depend on how the stream is cut, as long as a chunk fits beside an incomplete
  frame.
\<close>

lemma receive_all_delivers:
  assumes "\<not> failed d" "sane d" "\<forall>fr \<in> set frames. deliverable (fd_max_payload d) fr \<and>
      (\<forall>c \<in> set chunks. length (sent fr) + length c \<le> Suc max_frame_bytes)"
    "window d @ concat chunks = concat (map sent frames)"
    "frames = [] \<or> length (window d) < length (sent (hd frames))"
  shows "\<exists>d'. receive_all chunks d = (frames, d') \<and> \<not> failed d' \<and> window d' = []"
  using assms
proof (induction chunks arbitrary: d frames)
  case Nil
  have "frames = []"
  proof (rule ccontr)
    assume "frames \<noteq> []"
    then have "window d = sent (hd frames) @ concat (map sent (tl frames))"
      using Nil.prems(4) by (cases frames) auto
    then show False using Nil.prems(5) \<open>frames \<noteq> []\<close> by simp
  qed
  then show ?case using Nil.prems by auto
next
  case (Cons c chunks)
  have room: "available d + length c \<le> max_frame_bytes"
  proof (cases frames)
    case Nil
    then have "window d = []" "c = []" using Cons.prems(4) by simp_all
    then show ?thesis by (simp flip: length_window)
  next
    case (Cons g gs)
    then show ?thesis using Cons.prems(3,5) by fastforce
  qed
  define e where "e = snd (feed c d)"
  have e: "\<not> failed e" "sane e" "window e = window d @ c" "fd_max_payload e = fd_max_payload d"
    unfolding e_def using feed_accepts [OF Cons.prems(1) room Cons.prems(2)] by auto
  have "window e @ concat chunks = concat (map sent frames)" using Cons.prems(4) by (simp add: e(3))
  moreover have "\<forall>fr \<in> set frames. deliverable (fd_max_payload e) fr"
    using Cons.prems(3) e(4) by simp
  ultimately obtain k d' where k: "drain e = (take k frames, d')" "\<not> failed d'" "sane d'"
    "fd_max_payload d' = fd_max_payload e"
    "window d' @ concat chunks = concat (map sent (drop k frames))"
    "drop k frames = [] \<or> length (window d') < length (sent (hd (drop k frames)))"
    using drain_complete [OF e(1,2)] by blast
  have "\<forall>fr \<in> set (drop k frames). deliverable (fd_max_payload d') fr \<and>
      (\<forall>c \<in> set chunks. length (sent fr) + length c \<le> Suc max_frame_bytes)"
    using Cons.prems(3) k(4) e(4) by (auto dest: in_set_dropD)
  then obtain d'' where "receive_all chunks d' = (drop k frames, d'')" "\<not> failed d''" "window d'' = []"
    using Cons.IH [OF k(2,3) _ k(5,6)] by blast
  then show ?case by (simp add: k(1) flip: e_def)
qed

section \<open>Damage\<close>

lemma crc_update_ne:
  assumes "k < length v" "v ! k \<noteq> b"
  shows "crc32c (v[k := b]) \<noteq> crc32c v"
proof -
  have "crc32c (take k v @ v ! k # drop (Suc k) v) \<noteq> crc32c (take k v @ b # drop (Suc k) v)"
    using assms(2) by (rule crc_change)
  then show ?thesis using assms(1) by (simp add: upd_conv_take_nth_drop id_take_nth_drop [symmetric])
qed

lemma read_update_outside:
  "k < off \<or> off + 4 \<le> k \<Longrightarrow> read_u32_at (v[k := b]) off = read_u32_at v off"
  by (auto simp: read_u32_at_def nth_list_update)

lemma read_update_inside:
  assumes "off \<le> k" "k < off + 4" "off + 4 \<le> length v" "v ! k \<noteq> b"
  shows "read_u32_at (v[k := b]) off \<noteq> read_u32_at v off"
proof
  assume "read_u32_at (v[k := b]) off = read_u32_at v off"
  then have "take 4 (drop off (v[k := b])) = take 4 (drop off v)"
    using le_read_u32 [of off v] le_read_u32 [of off "v[k := b]"] assms(3) by simp
  then have "take 4 (drop off (v[k := b])) ! (k - off) = take 4 (drop off v) ! (k - off)" by simp
  then show False using assms by simp
qed

lemma header_valid_prefix: "header_valid m (take 28 w) = header_valid m w"
  by (simp add: header_valid_def read_prefix)

lemma damage_in_header:
  assumes "k < 28" "28 \<le> length v" "v ! k \<noteq> b" "crc32c (take 24 v) = read_u32_at v 24"
  shows "\<not> header_valid m (v[k := b])"
proof (cases "k < 24")
  case True
  then have "crc32c (take 24 (v[k := b])) \<noteq> crc32c (take 24 v)"
    using crc_update_ne [of k "take 24 v" b] assms by (simp add: take_update_swap)
  then show ?thesis using True assms(4) by (simp add: header_valid_def read_update_outside)
next
  case False
  then show ?thesis
    using assms read_update_inside [of 24 k v b] by (simp add: header_valid_def take_update_cancel)
qed

lemma damage_in_payload:
  assumes "28 \<le> k" "k < 32 + n" "32 + n \<le> length v" "v ! k \<noteq> b"
    "unat (read_u32_at v 20) = n" "payload_valid v"
  shows "\<not> payload_valid (v[k := b])"
proof -
  have n: "unat (read_u32_at (v[k := b]) 20) = n" using assms(1,5) by (simp add: read_update_outside)
  have c: "read_u32_at v (28 + n) = crc32c (take n (drop 28 v))"
    using assms(5,6) by (simp add: payload_valid_def)
  have dr: "drop 28 (v[k := b]) = (drop 28 v)[k - 28 := b]" using assms(1) by (simp add: drop_update_swap)
  show ?thesis
  proof (cases "k < 28 + n")
    case True
    then have "crc32c ((take n (drop 28 v))[k - 28 := b]) \<noteq> crc32c (take n (drop 28 v))"
      by (intro crc_update_ne) (use assms in auto)
    then show ?thesis
      unfolding payload_valid_def n dr using True c assms(1)
      by (simp add: take_update_swap read_update_outside)
  next
    case False
    then show ?thesis
      unfolding payload_valid_def n dr using c assms read_update_inside [of "28 + n" k v b]
      by (simp add: take_update_cancel)
  qed
qed

lemma pop_damaged:
  assumes "\<not> failed d" "sane d" "deliverable (fd_max_payload d) fr"
    "window d = (sent fr @ rest)[k := b]" "k < length (sent fr)" "sent fr ! k \<noteq> b"
  obtains s where "\<not> st_ok s" "pop d = (Inl s, d\<lparr>fd_status := s\<rparr>)"
proof -
  have m: "fd_max_payload d \<le> max_frame_payload" using assms(2) by (simp add: sane_def)
  let ?p = "fm_payload fr" and ?v = "sent fr @ rest"
  have p: "length ?p \<le> max_frame_payload" "length ?p \<le> fd_max_payload d"
    using assms(3) m by (simp_all add: deliverable_def)
  note s = sent_eq [OF assms(3) m]
  have len: "28 \<le> length ?v" "length (sent fr) = 32 + length ?p" by (simp_all add: s)
  note f = wire_fields [OF p(1) len(1), of ?v "fm_type fr" "fm_sequence fr" rest, folded s, simplified]
  have h: "header_valid (fd_max_payload d) ?v"
    using wire_header_valid [OF p(2) m len(1), of "fm_type fr" "fm_sequence fr" rest, folded s]
    by simp
  have vk: "?v ! k \<noteq> b" using assms(5,6) by (simp add: nth_append)
  have av: "available d = length ?v" using arg_cong [OF assms(4), of length] by simp
  show thesis
  proof (cases "k < 28")
    case True
    have "\<not> header_valid (fd_max_payload d) (window d)"
      unfolding assms(4) using damage_in_header [OF True len(1) vk] h by (simp add: header_valid_def)
    then show thesis using pop_bad_header [OF assms(1)] av len(1) that by auto
  next
    case False
    have v: "payload_valid ?v" unfolding s by (rule wire_payload_valid [OF p(1)])
    have "\<not> payload_valid (window d)"
      unfolding assms(4)
      by (rule damage_in_payload [of _ "length ?p"]) (use False assms(5) len vk f v in simp_all)
    moreover have "header_valid (fd_max_payload d) (window d)"
      using h False header_valid_prefix [of _ "window d"] header_valid_prefix [of _ ?v]
      by (simp add: assms(4) take_update_cancel)
    moreover have "unat (read_u32_at (window d) 20) = length ?p"
      using False f by (simp add: assms(4) read_update_outside)
    ultimately show thesis
      using pop_good_header [OF assms(1)] av len
      by (intro that [of "Status Code_corrupt Reason_integrity_failure ''frame payload integrity failure''"])
        simp_all
  qed
qed

text \<open>\<open>has_frame\<close> looks ahead: it holds when \<open>pop\<close> delivers a frame or rejects its payload.\<close>

lemma has_frame_pop:
  "has_frame d \<longleftrightarrow> \<not> failed d \<and> (\<forall>s. fst (pop d) = Inl s \<longrightarrow> st_reason s = Reason_integrity_failure)"
proof (cases "failed d \<or> available d < 28 \<or> \<not> header_valid (fd_max_payload d) (window d)")
  case True
  then consider "failed d" | "\<not> failed d" "available d < 28"
    | "\<not> failed d" "28 \<le> available d" "\<not> header_valid (fd_max_payload d) (window d)"
    using leI by blast
  then show ?thesis
  proof cases
    case 3
    then show ?thesis using pop_bad_header [OF 3] by (auto simp: has_frame_eq)
  qed (simp_all add: has_frame_eq pop_short)
next
  case False
  then show ?thesis using pop_good_header [of d] by (simp add: has_frame_eq not_le)
qed

section \<open>Guarantees\<close>



text \<open>
  C25: Damage is fatal. Take any decoder at a frame boundary, feed it an encoded frame in which one
  byte, anywhere in header, payload or checks, was replaced by a different one, and call \<open>pop\<close>:
  no frame comes out, the decoder has failed, and no later sequence of feeds and pops, whatever
  bytes it supplies, delivers a frame again.
\<close>

theorem damaged_frame_fatal:
  assumes "drive calls (frame_decoder m) = (earlier, d)" "\<not> failed d" "window d = []"
    and "deliverable (min m max_frame_payload) fr" "k < length (sent fr)" "b \<noteq> sent fr ! k"
  shows "\<exists>d'. drive (Feed ((sent fr)[k := b]) # Pop # later) d = ([], d') \<and> failed d'"
proof -
  let ?data = "(sent fr)[k := b]" and ?e = "snd (feed ((sent fr)[k := b]) d)"
  have d: "sane d" "fd_max_payload d = min m max_frame_payload"
    using drive_sane [OF frame_decoder_sane assms(1)] by (simp_all add: frame_decoder_def)
  have "length (sent fr) \<le> max_frame_bytes"
    using assms(4) by (subst sent_eq [OF assms(4)]) (simp_all add: deliverable_def frame_bounds)
  moreover have "available d = 0" using assms(3) by (simp flip: length_window)
  ultimately have e: "\<not> failed ?e" "window ?e = ?data" "fd_max_payload ?e = fd_max_payload d" "sane ?e"
    using feed_accepts [OF assms(2) _ d(1), of ?data] assms(3) by auto
  obtain s where s: "\<not> st_ok s" "pop ?e = (Inl s, ?e\<lparr>fd_status := s\<rparr>)"
    using pop_damaged [OF e(1,4), of fr "[]" k b] assms(4-6) e(2,3) d(2) by auto
  moreover have "failed (?e\<lparr>fd_status := s\<rparr>)" using s(1) by (simp add: failed_def)
  ultimately show ?thesis by (simp add: drive_failed)
qed

theorem damaged_frame_fatal_witness:
  "let fr = \<lparr>fm_version = 1, fm_type = MsgType_promote_req, fm_flags = 0, fm_sequence = 9,
       fm_payload = [5]\<rparr>
   in \<exists>d. drive [Feed ((sent fr)[0 := 0]), Pop, Feed (sent fr), Pop] (frame_decoder 64) = ([], d) \<and>
        failed d"
proof -
  define fr where "fr = \<lparr>fm_version = 1, fm_type = MsgType_promote_req, fm_flags = 0,
    fm_sequence = 9, fm_payload = [5 :: byte]\<rparr>"
  have dl: "deliverable (min 64 max_frame_payload) fr"
    by (simp add: fr_def deliverable_def protocol_version_def frame_bounds)
  have "length (sent fr) = 33" "sent fr ! 0 = 0x50"
    unfolding sent_eq [OF dl min.cobounded2]
    by (simp_all add: fr_def wire_frame_def wire_head_def nth_append frame_magic_def)
  then show ?thesis
    using damaged_frame_fatal [of "[]" 64 "[]" "frame_decoder 64" fr 0 0 "[Feed (sent fr), Pop]"] dl
    unfolding Let_def fr_def by (simp add: failed_def frame_decoder_def window_def)
qed

text \<open>
  C32: Bounded buffering. Whatever is fed to a decoder and whenever it is popped, it never holds more
  than one maximum frame and never reads past its buffer, and every frame it returns has the
  protocol version, zero flags and a payload within the configured bound.
\<close>

theorem decoder_bounded:
  assumes "drive calls (frame_decoder m) = (frames, d)"
  shows "length (fd_buffer d) \<le> max_frame_bytes \<and> fd_consumed d \<le> length (fd_buffer d) \<and>
    (\<forall>fr \<in> set frames. fm_version fr = protocol_version \<and> fm_flags fr = 0 \<and>
       length (fm_payload fr) \<le> min m max_frame_payload)"
  using drive_sane [OF frame_decoder_sane assms] by (auto simp: sane_def frame_decoder_def)

theorem decoder_bounded_witness:
  "snd (drive [Feed [80, 70], Pop, Feed [70]] (frame_decoder 64)) =
     \<lparr>fd_buffer = [80, 70, 70], fd_consumed = 0, fd_max_payload = 64, fd_status = ok_status\<rparr> \<and>
   length (fd_buffer (snd (drive [Feed [80, 70], Pop, Feed [70]] (frame_decoder 64)))) \<le> max_frame_bytes"
proof -
  have "drive [Feed [80, 70], Pop, Feed [70]] (frame_decoder 64) =
      ([], \<lparr>fd_buffer = [80, 70, 70], fd_consumed = 0, fd_max_payload = 64, fd_status = ok_status\<rparr>)"
    by (simp add: feed_def pop_def frame_decoder_def available_def compact_buffer_def frame_bounds Let_def)
  then show ?thesis using decoder_bounded by fastforce
qed

end
