(* ===== verification/PFF_Sort.thy ===== *)
theory PFF_Sort
  imports PFF_Prelude
begin

text \<open>
  The bottom-up merge sort of the selector (\<open>deterministic_sort\<close> in \<open>src/selector.cpp\<close>).
  A pass with run width \<open>w\<close> replaces each segment \<open>data[start, start + 2w)\<close> by the merge of
  its two halves; the outer loop doubles \<open>w\<close> while \<open>w < n\<close>. The comparison counter is the
  64-bit counter the source increments before each call of \<open>less\<close>.

  The locale \<open>weak_order\<close> states what the sort needs of its comparison. Inside it the result is
  shown to be a sorted permutation, to be unique when no two elements are tied, and so to be
  the same for every permutation of the input.
\<close>

section \<open>Model\<close>

fun merge_runs :: "('a \<Rightarrow> 'a \<Rightarrow> bool) \<Rightarrow> 'a list \<Rightarrow> 'a list \<Rightarrow> u64 \<Rightarrow> 'a list \<times> u64" where
  "merge_runs lt (x # xs) (y # ys) comparisons =
     (if lt y x then
        (case merge_runs lt (x # xs) ys (comparisons + 1) of (r, c) \<Rightarrow> (y # r, c))
      else
        (case merge_runs lt xs (y # ys) (comparisons + 1) of (r, c) \<Rightarrow> (x # r, c)))"
| "merge_runs lt xs [] comparisons = (xs, comparisons)"
| "merge_runs lt [] ys comparisons = (ys, comparisons)"

function merge_pass :: "('a \<Rightarrow> 'a \<Rightarrow> bool) \<Rightarrow> nat \<Rightarrow> 'a list \<Rightarrow> u64 \<Rightarrow> 'a list \<times> u64" where
  "merge_pass lt width xs comparisons =
     (if xs = [] \<or> width = 0 then (xs, comparisons)
      else
        (case merge_runs lt (take width xs) (take width (drop width xs)) comparisons of
           (m, c) \<Rightarrow>
             (case merge_pass lt width (drop (2 * width) xs) c of
                (r, c') \<Rightarrow> (m @ r, c'))))"
  by pat_completeness auto
termination
  by (relation "measure (\<lambda>(lt, width, xs, c). length xs)") auto

function sort_passes :: "('a \<Rightarrow> 'a \<Rightarrow> bool) \<Rightarrow> nat \<Rightarrow> nat \<Rightarrow> 'a list \<Rightarrow> u64 \<Rightarrow> 'a list \<times> u64" where
  "sort_passes lt width n xs comparisons =
     (if 0 < width \<and> width < n then
        (case merge_pass lt width xs comparisons of
           (ys, c) \<Rightarrow> sort_passes lt (width * 2) n ys c)
      else (xs, comparisons))"
  by pat_completeness auto
termination
  by (relation "measure (\<lambda>(lt, width, n, xs, c). n - width)") auto

definition deterministic_sort ::
  "('a \<Rightarrow> 'a \<Rightarrow> bool) \<Rightarrow> 'a list \<Rightarrow> u64 \<Rightarrow> 'a list \<times> u64" where
  "deterministic_sort lt data comparisons =
     (let n = length data in
      if n < 2 then (data, comparisons) else sort_passes lt 1 n data comparisons)"

declare merge_pass.simps [simp del] sort_passes.simps [simp del]

section \<open>Permutation\<close>

lemma mset_merge_runs: "mset (fst (merge_runs lt xs ys c)) = mset xs + mset ys"
  by (induction lt xs ys c rule: merge_runs.induct) (auto split: prod.splits)

lemma length_merge_runs: "length (fst (merge_runs lt xs ys c)) = length xs + length ys"
  by (metis mset_merge_runs size_mset size_union)

lemma merge_pass_Nil [simp]: "merge_pass lt w [] c = ([], c)"
  by (simp add: merge_pass.simps)

lemma merge_pass_step:
  assumes "xs \<noteq> []" "0 < w"
  obtains c' where "fst (merge_pass lt w xs c) =
    fst (merge_runs lt (take w xs) (take w (drop w xs)) c) @
    fst (merge_pass lt w (drop (2 * w) xs) c')"
proof -
  obtain m k where "merge_runs lt (take w xs) (take w (drop w xs)) c = (m, k)" by fastforce
  then have "fst (merge_pass lt w xs c) = m @ fst (merge_pass lt w (drop (2 * w) xs) k)"
    using assms by (simp add: merge_pass.simps [of lt w xs c] split: prod.splits)
  with \<open>merge_runs _ _ _ _ = _\<close> that show thesis by simp
qed

lemma take_take_drop: "take w xs @ take w (drop w xs) @ drop (2 * w) xs = xs"
  by (metis append_take_drop_id drop_drop mult_2)

lemma mset_merge_pass: "mset (fst (merge_pass lt w xs c)) = mset xs"
proof (induction "length xs" arbitrary: xs c rule: less_induct)
  case less
  show ?case
  proof (cases "xs = [] \<or> w = 0")
    case True
    then show ?thesis by (simp add: merge_pass.simps)
  next
    case False
    then obtain c' where step: "fst (merge_pass lt w xs c) =
        fst (merge_runs lt (take w xs) (take w (drop w xs)) c) @
        fst (merge_pass lt w (drop (2 * w) xs) c')"
      using merge_pass_step by blast
    have "mset (fst (merge_pass lt w (drop (2 * w) xs) c')) = mset (drop (2 * w) xs)"
      using less False by simp
    then have "mset (fst (merge_pass lt w xs c)) =
        mset (take w xs @ take w (drop w xs) @ drop (2 * w) xs)"
      using step by (simp add: mset_merge_runs)
    then show ?thesis by (simp only: take_take_drop)
  qed
qed

lemma length_merge_pass: "length (fst (merge_pass lt w xs c)) = length xs"
  by (metis mset_merge_pass size_mset)

lemma mset_sort_passes: "mset (fst (sort_passes lt w n xs c)) = mset xs"
proof (induction lt w n xs c rule: sort_passes.induct)
  case (1 lt w n xs c)
  obtain ys c' where p: "merge_pass lt w xs c = (ys, c')" by fastforce
  then have "mset ys = mset xs" by (metis fst_conv mset_merge_pass)
  with 1 p show ?case by (simp add: sort_passes.simps [of lt w])
qed

lemma mset_deterministic_sort: "mset (fst (deterministic_sort lt xs c)) = mset xs"
  by (simp add: deterministic_sort_def Let_def mset_sort_passes)

section \<open>Order\<close>

lemma set_merge_runs: "set (fst (merge_runs lt xs ys c)) = set xs \<union> set ys"
  by (metis mset_merge_runs set_mset_mset set_mset_union)

lemma sorted_merge_runs:
  assumes "\<And>x y z. \<not> lt x y \<Longrightarrow> \<not> lt y z \<Longrightarrow> \<not> lt x z"
    and "\<And>x y. lt x y \<Longrightarrow> \<not> lt y x"
    and "sorted_wrt (\<lambda>x y. \<not> lt y x) xs" "sorted_wrt (\<lambda>x y. \<not> lt y x) ys"
  shows "sorted_wrt (\<lambda>x y. \<not> lt y x) (fst (merge_runs lt xs ys c))"
  using assms
proof (induction lt xs ys c rule: merge_runs.induct)
  case (1 lt x xs y ys c)
  show ?case
  proof (cases "lt y x")
    case True
    have "sorted_wrt (\<lambda>x y. \<not> lt y x) (fst (merge_runs lt (x # xs) ys (c + 1)))"
      by (rule "1.IH"(1) [OF True "1.prems"(1,2)]) (use "1.prems"(3,4) in simp_all)
    moreover have "\<not> lt x y" using True by (rule "1.prems"(2))
    then have "\<not> lt z y" if "z \<in> set (x # xs) \<union> set ys" for z
      using that "1.prems"(1) [of z x y] "1.prems"(3,4) by auto
    ultimately show ?thesis
      using True set_merge_runs [of lt "x # xs" ys "c + 1"] by (auto split: prod.splits)
  next
    case False
    have "sorted_wrt (\<lambda>x y. \<not> lt y x) (fst (merge_runs lt xs (y # ys) (c + 1)))"
      by (rule "1.IH"(2) [OF False "1.prems"(1,2)]) (use "1.prems"(3,4) in simp_all)
    moreover have "\<not> lt z x" if "z \<in> set xs \<union> set (y # ys)" for z
      using that False "1.prems"(1) [of z y x] "1.prems"(3,4) by auto
    ultimately show ?thesis
      using False set_merge_runs [of lt xs "y # ys" "c + 1"] by (auto split: prod.splits)
  qed
next
  case 2
  show ?case using "2.prems"(3) by simp
next
  case 3
  show ?case using "3.prems"(4) by simp
qed

lemma sorted_wrt_strict:
  "sorted_wrt (\<lambda>x y. \<not> lt y x) xs \<Longrightarrow> distinct xs \<Longrightarrow>
     \<forall>x \<in> set xs. \<forall>y \<in> set xs. x \<noteq> y \<longrightarrow> lt x y \<or> lt y x \<Longrightarrow> sorted_wrt lt xs"
  by (induction xs) auto

text \<open>A strict weak order: what a comparison of the standard library has to be.\<close>

locale weak_order =
  fixes lt :: "'a \<Rightarrow> 'a \<Rightarrow> bool"
  assumes irrefl: "\<not> lt x x"
    and trans: "lt x y \<Longrightarrow> lt y z \<Longrightarrow> lt x z"
    and incomparable: "\<not> lt x y \<Longrightarrow> \<not> lt y z \<Longrightarrow> \<not> lt x z"
begin

definition in_order :: "'a list \<Rightarrow> bool" where
  "in_order xs \<longleftrightarrow> sorted_wrt (\<lambda>x y. \<not> lt y x) xs"

function sorted_runs :: "nat \<Rightarrow> 'a list \<Rightarrow> bool" where
  "sorted_runs w xs =
     (if xs = [] \<or> w = 0 then True else in_order (take w xs) \<and> sorted_runs w (drop w xs))"
  by pat_completeness auto
termination
  by (relation "measure (\<lambda>(w, xs). length xs)") auto

declare sorted_runs.simps [simp del]

lemma asym: "lt x y \<Longrightarrow> \<not> lt y x"
  using irrefl trans by blast

lemma in_order_merge:
  "in_order xs \<Longrightarrow> in_order ys \<Longrightarrow> in_order (fst (merge_runs lt xs ys c))"
  unfolding in_order_def by (rule sorted_merge_runs [OF incomparable asym])

lemma sorted_runs_one: "sorted_runs 1 xs"
proof (induction xs)
  case (Cons x xs)
  then show ?case by (subst sorted_runs.simps) (simp add: in_order_def)
qed (simp add: sorted_runs.simps)

lemma sorted_runsD:
  "sorted_runs w xs \<Longrightarrow> 0 < w \<Longrightarrow> in_order (take w xs) \<and> sorted_runs w (drop w xs)"
  by (cases "xs = []") (simp_all add: sorted_runs.simps [of w xs] in_order_def)

lemma sorted_runs_append:
  assumes "length m = w \<or> r = []" "length m \<le> w" "in_order m" "sorted_runs w r"
  shows "sorted_runs w (m @ r)"
  using assms by (subst sorted_runs.simps) (auto simp: sorted_runs.simps [of w "[]"])

lemma sorted_runs_merge_pass:
  "sorted_runs w xs \<Longrightarrow> 0 < w \<Longrightarrow> sorted_runs (2 * w) (fst (merge_pass lt w xs c))"
proof (induction "length xs" arbitrary: xs c rule: less_induct)
  case less
  show ?case
  proof (cases "xs = []")
    case True
    then show ?thesis by (simp add: sorted_runs.simps)
  next
    case False
    obtain c' where step: "fst (merge_pass lt w xs c) =
        fst (merge_runs lt (take w xs) (take w (drop w xs)) c) @
        fst (merge_pass lt w (drop (2 * w) xs) c')" (is "_ = ?m @ ?r")
      using merge_pass_step False less.prems(2) by blast
    have runs: "in_order (take w xs)" "sorted_runs w (drop w xs)"
      using sorted_runsD less.prems by blast+
    then have rest: "in_order (take w (drop w xs))" "sorted_runs w (drop (2 * w) xs)"
      using sorted_runsD [of w "drop w xs"] less.prems(2) by (simp_all add: mult_2)
    have "in_order ?m"
      using runs(1) rest(1) by (rule in_order_merge)
    moreover have "sorted_runs (2 * w) ?r"
      using less.hyps rest(2) less.prems(2) False by simp
    moreover have "length ?m = min (2 * w) (length xs)"
      by (simp add: length_merge_runs)
    moreover have "?r = []" if "length xs \<le> 2 * w"
      using that by simp
    ultimately show ?thesis
      unfolding step by (intro sorted_runs_append) (auto simp: min_def)
  qed
qed

lemma in_order_sort_passes:
  "sorted_runs w xs \<Longrightarrow> 0 < w \<Longrightarrow> length xs = n \<Longrightarrow>
     in_order (fst (sort_passes lt w n xs c))"
proof (induction "n - w" arbitrary: w xs c rule: less_induct)
  case less
  obtain ys c' where p: "merge_pass lt w xs c = (ys, c')" by fastforce
  then have "length ys = length xs" "sorted_runs (2 * w) ys"
    using length_merge_pass [of lt w xs c] sorted_runs_merge_pass [of w xs c] less by auto
  moreover have "in_order xs" if "n \<le> w"
    using that less.prems sorted_runsD [of w xs] by simp
  ultimately show ?case
    using less p by (subst sort_passes.simps) (auto simp: mult.commute)
qed

lemma in_order_deterministic_sort: "in_order (fst (deterministic_sort lt xs c))"
proof (cases "length xs < 2")
  case True
  then have "in_order xs" by (cases xs) (auto simp: in_order_def)
  with True show ?thesis by (simp add: deterministic_sort_def)
next
  case False
  then show ?thesis
    using in_order_sort_passes [OF sorted_runs_one] by (simp add: deterministic_sort_def)
qed

text \<open>When no two elements are tied the order of the result is strict, so it is unique.\<close>

definition untied :: "'a set \<Rightarrow> bool" where
  "untied A \<longleftrightarrow> (\<forall>x \<in> A. \<forall>y \<in> A. x \<noteq> y \<longrightarrow> lt x y \<or> lt y x)"

lemma strictly_sorted:
  assumes "untied (set xs)" "distinct xs"
  shows "sorted_wrt lt (fst (deterministic_sort lt xs c))"
proof -
  let ?ys = "fst (deterministic_sort lt xs c)"
  have "mset ?ys = mset xs" by (rule mset_deterministic_sort)
  then have "set ?ys = set xs" "distinct ?ys"
    using assms(2) mset_eq_setD mset_eq_imp_distinct_iff by blast+
  moreover have "sorted_wrt (\<lambda>x y. \<not> lt y x) ?ys"
    using in_order_deterministic_sort [of xs c] by (simp add: in_order_def)
  ultimately show ?thesis
    using assms(1) by (auto simp: untied_def intro: sorted_wrt_strict)
qed

lemma sort_permutation_invariant:
  assumes "untied (set xs)" "distinct xs" "mset xs = mset ys"
  shows "fst (deterministic_sort lt xs c) = fst (deterministic_sort lt ys d)"
proof (rule sorted_wrt_unique [of lt])
  have "set ys = set xs" "distinct ys"
    using assms(2,3) mset_eq_setD mset_eq_imp_distinct_iff by blast+
  with assms show "sorted_wrt lt (fst (deterministic_sort lt ys d))"
    by (intro strictly_sorted) auto
  show "sorted_wrt lt (fst (deterministic_sort lt xs c))"
    using assms by (intro strictly_sorted) auto
  show "set (fst (deterministic_sort lt xs c)) = set (fst (deterministic_sort lt ys d))"
    by (metis assms(3) mset_deterministic_sort set_mset_mset)
qed (use irrefl trans in blast)+

end

end
