(* ===== verification/PFF_Selector.thy ===== *)
theory PFF_Selector
  imports PFF_Decision PFF_Sort
begin

text \<open>
  The deterministic selector: \<open>include/pff/selector.hpp\<close> and \<open>src/selector.cpp\<close>.

  \<open>evaluate\<close> is composed of the source's phases: the guards (\<open>evaluate_guards\<close>), scoring of
  every member (\<open>build_entries\<close>), the sort, the bounded scan (\<open>scan_members\<close>), and the
  conclusion (\<open>conclude\<close>). The work counters are threaded through as in the source.

  Shown here: what a gate verdict means for a member; the scan's summary as functions of the
  ranked members; that the ranked sequence depends only on the set of members; and the
  characterisation of every conclusion, from which the properties of the root theory follow.
\<close>

unbundle bit_operations_syntax

section \<open>Model\<close>

record SelectionInput =
  si_incumbent :: PathId
  si_set :: "AlternateSet option"
  si_obligations :: "ServiceObligations option"
  si_policy :: "FailoverPolicy option"
  si_current :: AuthorityVector
  si_expected_set_generation :: Generation
  si_fenced_paths :: "PathId list"
  si_decision_id :: DecisionId
  si_attempt :: AttemptId
  si_provenance :: Provenance

record RankedEntry =
  re_assessment :: CandidateAssessment
  re_comparison :: AuthorityComparison
  re_candidate_index :: size_t
  re_score_ok :: bool

record GateOutcome =
  go_verdict :: CandidateVerdict
  go_reason :: Reason

primrec contains :: "PathId list \<Rightarrow> PathId \<Rightarrow> bool" where
  "contains [] path = False"
| "contains (candidate # paths) path = (if candidate = path then True else contains paths path)"

subsection \<open>Gates\<close>

definition gate :: "SelectionStats \<Rightarrow> SelectionStats" where
  "gate st = st\<lparr>ss_gate_evaluations := ss_gate_evaluations st + 1\<rparr>"

definition fence_lookup :: "SelectionStats \<Rightarrow> SelectionStats" where
  "fence_lookup st = st\<lparr>ss_fence_lookups := ss_fence_lookups st + 1\<rparr>"

definition exclude :: "Reason \<Rightarrow> SelectionStats \<Rightarrow> GateOutcome \<times> SelectionStats" where
  "exclude r st = (\<lparr>go_verdict = CandidateVerdict_excluded, go_reason = r\<rparr>, st)"

definition undetermined :: "Reason \<Rightarrow> SelectionStats \<Rightarrow> GateOutcome \<times> SelectionStats" where
  "undetermined r st = (\<lparr>go_verdict = CandidateVerdict_indeterminate, go_reason = r\<rparr>, st)"

text \<open>
  The gates in source order. \<open>evidence_gates\<close> are the three gates an obligation switches on,
  \<open>quality_gates\<close> the numeric ones.
\<close>

definition quality_gates ::
  "AlternateCandidate \<Rightarrow> RankedEntry \<Rightarrow> FailoverPolicy \<Rightarrow> ServiceObligations \<Rightarrow> SelectionStats \<Rightarrow>
   GateOutcome \<times> SelectionStats" where
  "quality_gates candidate entry policy obligations st =
     (let e = ca_evidence candidate;
          st = gate st
      in if pe_capabilities e AND so_required_capabilities obligations \<noteq>
              so_required_capabilities obligations
         then exclude Reason_capability_missing st
         else
     (let st = gate st in
      if sint (pe_health_ppm e) < sint (so_min_health_ppm obligations)
      then exclude Reason_health_below_obligation st
      else
     (let st = gate st in
      if sint (pe_cost_units e) > sint (so_max_cost_units obligations)
      then exclude Reason_cost_above_obligation st
      else
     (let st = gate st in
      if sint (sc_total (cas_terms (re_assessment entry))) < sint (fp_min_score policy)
      then exclude Reason_score_below_policy st
      else
        (\<lparr>go_verdict = CandidateVerdict_promotable_not_selected,
          go_reason = Reason_promotable_not_selected\<rparr>, st)))))"

definition capacity_gate ::
  "AlternateCandidate \<Rightarrow> RankedEntry \<Rightarrow> FailoverPolicy \<Rightarrow> ServiceObligations \<Rightarrow> SelectionStats \<Rightarrow>
   GateOutcome \<times> SelectionStats" where
  "capacity_gate candidate entry policy obligations st =
     (if so_require_capacity obligations then
        (let st = gate st in
         case pe_capacity (ca_evidence candidate) of
           CapacityClass_sufficient \<Rightarrow> quality_gates candidate entry policy obligations st
         | CapacityClass_insufficient \<Rightarrow> exclude Reason_capacity_insufficient st
         | CapacityClass_unknown \<Rightarrow> undetermined Reason_capacity_unknown st)
      else quality_gates candidate entry policy obligations st)"

definition reachability_gate ::
  "AlternateCandidate \<Rightarrow> RankedEntry \<Rightarrow> FailoverPolicy \<Rightarrow> ServiceObligations \<Rightarrow> SelectionStats \<Rightarrow>
   GateOutcome \<times> SelectionStats" where
  "reachability_gate candidate entry policy obligations st =
     (if so_require_reachable obligations then
        (let st = gate st in
         case pe_reachability (ca_evidence candidate) of
           Reachability_reachable \<Rightarrow> capacity_gate candidate entry policy obligations st
         | Reachability_unreachable \<Rightarrow> exclude Reason_reachability_unreachable st
         | Reachability_unknown \<Rightarrow> undetermined Reason_reachability_unknown st)
      else capacity_gate candidate entry policy obligations st)"

definition evidence_gates ::
  "AlternateCandidate \<Rightarrow> RankedEntry \<Rightarrow> FailoverPolicy \<Rightarrow> ServiceObligations \<Rightarrow> SelectionStats \<Rightarrow>
   GateOutcome \<times> SelectionStats" where
  "evidence_gates candidate entry policy obligations st =
     (if so_require_fresh_evidence obligations then
        (let st = gate st in
         case pe_freshness (ca_evidence candidate) of
           Freshness_fresh \<Rightarrow> reachability_gate candidate entry policy obligations st
         | Freshness_stale \<Rightarrow> exclude Reason_evidence_stale st
         | Freshness_unknown \<Rightarrow> undetermined Reason_evidence_unknown st)
      else reachability_gate candidate entry policy obligations st)"

definition apply_gates ::
  "AlternateCandidate \<Rightarrow> RankedEntry \<Rightarrow> FailoverPolicy \<Rightarrow> ServiceObligations \<Rightarrow> PathId list \<Rightarrow>
   PathId \<Rightarrow> SelectionStats \<Rightarrow> GateOutcome \<times> SelectionStats" where
  "apply_gates candidate entry policy obligations fenced_paths incumbent st =
     (let st = gate st in
      if ca_path candidate = incumbent then exclude Reason_incumbent_is_self st else
     (let st = gate st in
      if ca_withdrawn candidate then exclude Reason_withdrawn st else
     (let st = gate (fence_lookup st) in
      if contains fenced_paths (ca_path candidate) then exclude Reason_path_fenced st else
     (let st = gate st in
      if cmp_overall (re_comparison entry) = AuthorityClass_stale
      then exclude Reason_authority_stale st else
     (let st = gate st in
      if cmp_overall (re_comparison entry) = AuthorityClass_unknown
      then undetermined Reason_authority_unknown st else
     (let st = gate st in
      if \<not> re_score_ok entry then exclude Reason_score_overflow st else
     (let st = gate st in
      case pe_eligibility (ca_evidence candidate) of
        Eligibility_eligible \<Rightarrow> evidence_gates candidate entry policy obligations st
      | Eligibility_ineligible \<Rightarrow> exclude Reason_eligibility_ineligible st
      | Eligibility_unknown \<Rightarrow> undetermined Reason_eligibility_unknown st)))))))"

subsection \<open>Documents and order\<close>

definition explain :: "PromotionDecision \<Rightarrow> Reason \<Rightarrow> i64 \<Rightarrow> PromotionDecision" where
  "explain decision reason value =
     (if length (pd_explanation decision) < max_explanation_steps
      then decision\<lparr>pd_explanation := pd_explanation decision @ [(reason, value)]\<rparr>
      else decision)"

definition refuse ::
  "PromotionDecision \<Rightarrow> PromotionOutcome \<Rightarrow> Reason \<Rightarrow> i64 \<Rightarrow> PromotionDecision" where
  "refuse decision outcome reason detail =
     explain (decision\<lparr>pd_outcome := outcome, pd_reason := reason, pd_selected := absent\<rparr>)
       reason detail"

definition canonical_less :: "CandidateAssessment \<Rightarrow> CandidateAssessment \<Rightarrow> bool" where
  "canonical_less a b =
     (if sc_total (cas_terms a) \<noteq> sc_total (cas_terms b)
      then sint (sc_total (cas_terms a)) > sint (sc_total (cas_terms b))
      else if cas_upstream_rank a \<noteq> cas_upstream_rank b
      then cas_upstream_rank a < cas_upstream_rank b
      else cas_path a < cas_path b)"

definition entry_less :: "RankedEntry \<Rightarrow> RankedEntry \<Rightarrow> bool" where
  "entry_less a b = canonical_less (re_assessment a) (re_assessment b)"

subsection \<open>Phases of the evaluation\<close>

definition initial_decision :: "SelectionInput \<Rightarrow> PromotionDecision" where
  "initial_decision input = empty_decision
     \<lparr>pd_id := si_decision_id input, pd_incumbent := si_incumbent input,
      pd_basis := si_current input, pd_attempt := si_attempt input,
      pd_provenance := si_provenance input,
      pd_authority_kind := AuthorityKind_recommendation,
      pd_outcome := PromotionOutcome_unsupported, pd_reason := Reason_none\<rparr>"

definition described_decision ::
  "SelectionInput \<Rightarrow> AlternateSet \<Rightarrow> FailoverPolicy \<Rightarrow> ServiceObligations \<Rightarrow> PromotionDecision" where
  "described_decision input st policy obligations = (initial_decision input)
     \<lparr>pd_set := as_id st, pd_set_generation := as_generation st,
      pd_policy_generation := fp_generation policy,
      pd_obligations_generation := so_generation obligations,
      pd_supplied := length (as_candidates st),
      pd_stats := (pd_stats (initial_decision input))
        \<lparr>ss_candidates_supplied := word_of_nat (length (as_candidates st))\<rparr>,
      pd_set_complete := (as_completeness st = SetCompleteness_complete)\<rparr>"

text \<open>A generation the caller does not hold: the refusal of the two generation guards.\<close>

definition refuse_generation ::
  "PromotionDecision \<Rightarrow> AuthorityClass \<Rightarrow> Reason \<Rightarrow> PromotionDecision" where
  "refuse_generation decision cls stale_reason =
     (let conflict = (cls = AuthorityClass_conflict);
          reason = (if cls = AuthorityClass_stale then stale_reason
                    else if conflict then Reason_generation_conflict
                    else Reason_authority_unknown)
      in refuse decision
           (if conflict then PromotionOutcome_refused_conflict
            else PromotionOutcome_refused_stale_authority) reason 0)"

text \<open>The guards before any member is looked at; \<^const>\<open>None\<close> when all of them pass.\<close>

definition evaluate_guards ::
  "SelectionInput \<Rightarrow> AlternateSet \<Rightarrow> FailoverPolicy \<Rightarrow> ServiceObligations \<Rightarrow> PromotionDecision \<Rightarrow>
   PromotionDecision option" where
  "evaluate_guards input st policy obligations decision =
     (if \<not> st_ok (validate_policy policy) then
        Some (refuse decision PromotionOutcome_refused_policy_invalid Reason_policy_invalid 0)
      else if \<not> st_ok (validate_obligations obligations) then
        Some (refuse decision PromotionOutcome_refused_obligations_invalid
          Reason_obligations_invalid 0)
      else
     (let set_status = validate_set st in
      if \<not> st_ok set_status then
        Some (refuse decision PromotionOutcome_refused_invalid_input (st_reason set_status) 0)
      else if \<not> valid (si_incumbent input) then
        Some (refuse decision PromotionOutcome_refused_invalid_input Reason_domain_invalid 0)
      else
     (let policy_class = classify_generation (fp_generation policy) (av_policy (si_current input))
      in if policy_class \<noteq> AuthorityClass_current then
        Some (refuse_generation decision policy_class Reason_policy_generation_stale)
      else
     (let obligations_class =
            classify_generation (so_generation obligations) (av_obligations (si_current input))
      in if obligations_class \<noteq> AuthorityClass_current then
        Some (refuse_generation decision obligations_class Reason_obligations_generation_stale)
      else if valid (si_expected_set_generation input) \<and>
              si_expected_set_generation input \<noteq> as_generation st then
        (let conflict = si_expected_set_generation input > as_generation st in
         Some (refuse decision
           (if conflict then PromotionOutcome_refused_conflict
            else PromotionOutcome_refused_stale_authority)
           (if conflict then Reason_generation_conflict else Reason_set_generation_mismatch) 0))
      else None))))"

definition make_entry ::
  "FailoverPolicy \<Rightarrow> ServiceObligations \<Rightarrow> AuthorityVector \<Rightarrow> size_t \<Rightarrow> AlternateCandidate \<Rightarrow>
   RankedEntry" where
  "make_entry policy obligations current index candidate =
     (let terms = compute_score policy obligations (ca_evidence candidate)
                    (ca_upstream_rank candidate)
      in \<lparr>re_assessment =
            \<lparr>cas_path = ca_path candidate, cas_upstream_rank = ca_upstream_rank candidate,
             cas_terms = (case terms of Inr t \<Rightarrow> t | Inl _ \<Rightarrow> zero_terms),
             cas_verdict = CandidateVerdict_excluded, cas_reason = Reason_none,
             cas_authority = AuthorityClass_unknown\<rparr>,
          re_comparison = classify (ca_authority candidate) current,
          re_candidate_index = index,
          re_score_ok = (case terms of Inr _ \<Rightarrow> True | Inl _ \<Rightarrow> False)\<rparr>)"

fun build_entries ::
  "FailoverPolicy \<Rightarrow> ServiceObligations \<Rightarrow> AuthorityVector \<Rightarrow> size_t \<Rightarrow> AlternateCandidate list \<Rightarrow>
   SelectionStats \<Rightarrow> RankedEntry list \<times> SelectionStats" where
  "build_entries policy obligations current index [] st = ([], st)"
| "build_entries policy obligations current index (c # cs) st =
     (case build_entries policy obligations current (index + 1) cs
             (st\<lparr>ss_score_evaluations := ss_score_evaluations st + 1\<rparr>) of
        (es, st') \<Rightarrow> (make_entry policy obligations current index c # es, st'))"

record ScanState =
  sn_stats :: SelectionStats
  sn_first_promotable :: "size_t option"
  sn_first_indeterminate :: "size_t option"
  sn_indeterminate_count :: size_t
  sn_stale_exclusions :: size_t
  sn_quality_exclusions :: size_t
  sn_fatal_conflict :: bool
  sn_ranked :: "CandidateAssessment list"

definition scan_start :: "SelectionStats \<Rightarrow> ScanState" where
  "scan_start stats = \<lparr>sn_stats = stats, sn_first_promotable = None, sn_first_indeterminate = None,
     sn_indeterminate_count = 0, sn_stale_exclusions = 0, sn_quality_exclusions = 0,
     sn_fatal_conflict = False, sn_ranked = []\<rparr>"

text \<open>
  One iteration of the scan. The sentinel \<open>numeric_limits<size_t>::max()\<close> of the two index
  variables is \<^const>\<open>None\<close>.
\<close>

definition scan_member ::
  "FailoverPolicy \<Rightarrow> ServiceObligations \<Rightarrow> PathId list \<Rightarrow> PathId \<Rightarrow> AlternateCandidate list \<Rightarrow>
   size_t \<Rightarrow> RankedEntry \<Rightarrow> ScanState \<Rightarrow> ScanState" where
  "scan_member policy obligations fenced incumbent candidates i entry sn =
     (let candidate = candidates ! re_candidate_index entry;
          sn = (if cmp_overall (re_comparison entry) = AuthorityClass_conflict
                then sn\<lparr>sn_fatal_conflict := True\<rparr> else sn)
      in case apply_gates candidate entry policy obligations fenced incumbent (sn_stats sn) of
           (outcome, stats) \<Rightarrow>
     (let sn = sn\<lparr>sn_stats := stats\<rparr>;
          assessment = (re_assessment entry)
            \<lparr>cas_verdict := go_verdict outcome, cas_reason := go_reason outcome,
             cas_authority := cmp_overall (re_comparison entry)\<rparr>;
          sn = (if go_verdict outcome = CandidateVerdict_promotable_not_selected \<and>
                   sn_first_promotable sn = None
                then sn\<lparr>sn_first_promotable := Some i\<rparr> else sn);
          sn = (if go_verdict outcome = CandidateVerdict_indeterminate then
                  (if sn_first_indeterminate sn = None
                   then sn\<lparr>sn_first_indeterminate := Some i\<rparr> else sn)
                  \<lparr>sn_indeterminate_count := sn_indeterminate_count sn + 1\<rparr>
                else if go_verdict outcome = CandidateVerdict_excluded then
                  (if go_reason outcome = Reason_authority_stale
                   then sn\<lparr>sn_stale_exclusions := sn_stale_exclusions sn + 1\<rparr>
                   else sn\<lparr>sn_quality_exclusions := sn_quality_exclusions sn + 1\<rparr>)
                else sn)
      in sn\<lparr>sn_ranked := sn_ranked sn @ [assessment]\<rparr>))"

primrec scan_members ::
  "FailoverPolicy \<Rightarrow> ServiceObligations \<Rightarrow> PathId list \<Rightarrow> PathId \<Rightarrow> AlternateCandidate list \<Rightarrow>
   RankedEntry list \<Rightarrow> size_t \<Rightarrow> ScanState \<Rightarrow> ScanState" where
  "scan_members policy obligations fenced incumbent candidates [] i sn = sn"
| "scan_members policy obligations fenced incumbent candidates (e # es) i sn =
     scan_members policy obligations fenced incumbent candidates es (i + 1)
       (scan_member policy obligations fenced incumbent candidates i e sn)"

primrec explain_exclusions ::
  "CandidateAssessment list \<Rightarrow> PromotionDecision \<Rightarrow> PromotionDecision" where
  "explain_exclusions [] decision = decision"
| "explain_exclusions (a # as) decision =
     explain_exclusions as
       (if cas_verdict a = CandidateVerdict_excluded then
          explain (decision\<lparr>pd_stats := (pd_stats decision)
            \<lparr>ss_definite_exclusions := ss_definite_exclusions (pd_stats decision) + 1\<rparr>\<rparr>)
            (cas_reason a) (cas_path a)
        else decision)"

primrec report_indeterminate :: "CandidateAssessment list \<Rightarrow> PathId list \<Rightarrow> PathId list" where
  "report_indeterminate [] acc = acc"
| "report_indeterminate (a # as) acc =
     report_indeterminate as
       (if cas_verdict a = CandidateVerdict_indeterminate \<and>
           length acc < max_indeterminate_reported
        then acc @ [cas_path a] else acc)"

definition index_before :: "size_t option \<Rightarrow> size_t \<Rightarrow> bool" where
  "index_before i j = (case i of None \<Rightarrow> False | Some k \<Rightarrow> k < j)"

definition conclude ::
  "AlternateSet \<Rightarrow> FailoverPolicy \<Rightarrow> size_t \<Rightarrow> ScanState \<Rightarrow> PromotionDecision \<Rightarrow> PromotionDecision"
where
  "conclude st policy supplied sn decision =
     (if sn_fatal_conflict sn then
        refuse decision PromotionOutcome_refused_conflict Reason_generation_conflict
          (word_of_nat (sn_indeterminate_count sn))
      else
      (case sn_first_promotable sn of
         Some first_promotable \<Rightarrow>
           (let decision = decision\<lparr>pd_indeterminate_above :=
                  report_indeterminate (take first_promotable (pd_ranked decision))
                    (pd_indeterminate_above decision)\<rparr>
            in if index_before (sn_first_indeterminate sn) first_promotable \<and>
                  \<not> fp_allow_unknown_skip policy
               then refuse decision PromotionOutcome_indeterminate_unknown_member
                      Reason_eligibility_unknown (word_of_nat (sn_indeterminate_count sn))
               else
                 (let winner = pd_ranked decision ! first_promotable in
                  decision
                    \<lparr>pd_ranked := (pd_ranked decision)[first_promotable := winner
                        \<lparr>cas_verdict := CandidateVerdict_selected, cas_reason := Reason_selected\<rparr>],
                     pd_selected := cas_path winner,
                     pd_outcome := PromotionOutcome_authorized,
                     pd_reason := Reason_selected\<rparr>))
       | None \<Rightarrow>
           (if sn_indeterminate_count sn > 0 then
              refuse decision PromotionOutcome_indeterminate_unknown_member
                Reason_eligibility_unknown (word_of_nat (sn_indeterminate_count sn))
            else if pd_search_limited decision then
              refuse decision PromotionOutcome_indeterminate_search_limit
                Reason_search_limit_reached (word_of_nat supplied)
            else if as_completeness st \<noteq> SetCompleteness_complete then
              refuse decision PromotionOutcome_indeterminate_incomplete_set
                (if as_completeness st = SetCompleteness_partial then Reason_set_incomplete
                 else Reason_set_completeness_unknown) (word_of_nat supplied)
            else if sn_stale_exclusions sn > 0 then
              refuse decision PromotionOutcome_refused_stale_authority Reason_authority_stale
                (word_of_nat (sn_stale_exclusions sn))
            else
              refuse decision PromotionOutcome_refused_proven_no_alternate
                Reason_proven_no_alternate (word_of_nat supplied))))"

text \<open>Everything after the guards.\<close>

definition search ::
  "SelectionInput \<Rightarrow> AlternateSet \<Rightarrow> FailoverPolicy \<Rightarrow> ServiceObligations \<Rightarrow> PromotionDecision \<Rightarrow>
   PromotionDecision" where
  "search input st policy obligations decision =
     (case build_entries policy obligations (si_current input) 0 (as_candidates st)
             (pd_stats decision) of
        (entries, stats) \<Rightarrow>
      case deterministic_sort entry_less entries (ss_ordering_comparisons stats) of
        (entries, comparisons) \<Rightarrow>
     (let supplied = length entries;
          declared_limit = unat (fp_search_limit policy);
          limit = min supplied declared_limit;
          stats = stats\<lparr>ss_ordering_comparisons := comparisons,
                        ss_candidates_considered := word_of_nat limit\<rparr>;
          decision = decision\<lparr>pd_examined := limit, pd_search_limited := supplied > limit\<rparr>;
          sn = scan_members policy obligations (si_fenced_paths input) (si_incumbent input)
                 (as_candidates st) (take limit entries) 0 (scan_start stats);
          decision = explain_exclusions (sn_ranked sn)
            (decision\<lparr>pd_stats := sn_stats sn, pd_ranked := sn_ranked sn\<rparr>);
          decision = decision\<lparr>pd_stats := (pd_stats decision)
            \<lparr>ss_indeterminate_members := word_of_nat (sn_indeterminate_count sn)\<rparr>\<rparr>
      in conclude st policy supplied sn decision))"

definition evaluate :: "SelectionInput \<Rightarrow> PromotionDecision Result" where
  "evaluate input =
     (case (si_set input, si_policy input, si_obligations input) of
        (Some st, Some policy, Some obligations) \<Rightarrow>
          (let decision = described_decision input st policy obligations in
           case evaluate_guards input st policy obligations decision of
             Some refusal \<Rightarrow> Inr refusal
           | None \<Rightarrow> Inr (search input st policy obligations decision))
      | _ \<Rightarrow> Inr (refuse (initial_decision input) PromotionOutcome_refused_invalid_input
               Reason_invalid_payload 0))"

section \<open>What a verdict means\<close>

lemma contains_iff [simp]: "contains paths path \<longleftrightarrow> path \<in> set paths"
  by (induction paths) auto

lemmas gate_defs =
  apply_gates_def evidence_gates_def reachability_gate_def capacity_gate_def quality_gates_def
  exclude_def undetermined_def

lemmas verdict_splits =
  Eligibility.splits Freshness.splits Reachability.splits CapacityClass.splits

text \<open>The promotability predicate of one member, read off the documentation of the gates.\<close>

definition quality_meets :: "ServiceObligations \<Rightarrow> PathEvidence \<Rightarrow> bool" where
  "quality_meets ob e \<longleftrightarrow>
     pe_capabilities e AND so_required_capabilities ob = so_required_capabilities ob \<and>
     sint (so_min_health_ppm ob) \<le> sint (pe_health_ppm e) \<and>
     sint (pe_cost_units e) \<le> sint (so_max_cost_units ob)"

definition evidence_meets :: "ServiceObligations \<Rightarrow> PathEvidence \<Rightarrow> bool" where
  "evidence_meets ob e \<longleftrightarrow>
     pe_eligibility e = Eligibility_eligible \<and>
     (so_require_fresh_evidence ob \<longrightarrow> pe_freshness e = Freshness_fresh) \<and>
     (so_require_reachable ob \<longrightarrow> pe_reachability e = Reachability_reachable) \<and>
     (so_require_capacity ob \<longrightarrow> pe_capacity e = CapacityClass_sufficient) \<and>
     quality_meets ob e"

text \<open>A definite failure: a statement of the evidence itself, never the absence of one.\<close>

definition evidence_fails :: "ServiceObligations \<Rightarrow> PathEvidence \<Rightarrow> bool" where
  "evidence_fails ob e \<longleftrightarrow>
     pe_eligibility e = Eligibility_ineligible \<or>
     (so_require_fresh_evidence ob \<and> pe_freshness e = Freshness_stale) \<or>
     (so_require_reachable ob \<and> pe_reachability e = Reachability_unreachable) \<or>
     (so_require_capacity ob \<and> pe_capacity e = CapacityClass_insufficient) \<or>
     \<not> quality_meets ob e"

definition may_serve :: "PathId list \<Rightarrow> PathId \<Rightarrow> AlternateCandidate \<Rightarrow> bool" where
  "may_serve fenced inc c \<longleftrightarrow>
     ca_path c \<noteq> inc \<and> \<not> ca_withdrawn c \<and> ca_path c \<notin> set fenced"

definition entry_score :: "RankedEntry \<Rightarrow> int" where
  "entry_score e = sint (sc_total (cas_terms (re_assessment e)))"

lemma quality_gates_verdict:
  "go_verdict (fst (quality_gates c e p ob st)) =
     (if quality_meets ob (ca_evidence c) \<and> sint (fp_min_score p) \<le> entry_score e
      then CandidateVerdict_promotable_not_selected else CandidateVerdict_excluded)"
  "go_reason (fst (quality_gates c e p ob st)) \<noteq> Reason_authority_stale"
  by (simp_all add: quality_gates_def exclude_def quality_meets_def entry_score_def Let_def)

text \<open>
  The obligation-controlled gates: promotable exactly when the evidence meets the obligations
  and the score the policy; excluded only on a definite failure.
\<close>

lemma evidence_gates_verdict:
  assumes "pe_eligibility (ca_evidence c) = Eligibility_eligible"
  shows
  "go_verdict (fst (evidence_gates c e p ob st)) = CandidateVerdict_promotable_not_selected \<longleftrightarrow>
     evidence_meets ob (ca_evidence c) \<and> sint (fp_min_score p) \<le> entry_score e"
  "go_verdict (fst (evidence_gates c e p ob st)) = CandidateVerdict_excluded \<Longrightarrow>
     evidence_fails ob (ca_evidence c) \<or> entry_score e < sint (fp_min_score p)"
  "go_reason (fst (evidence_gates c e p ob st)) \<noteq> Reason_authority_stale"
  using assms
  by (auto simp: evidence_gates_def reachability_gate_def capacity_gate_def exclude_def
      undetermined_def evidence_meets_def evidence_fails_def quality_gates_verdict Let_def
      split: Freshness.splits Reachability.splits CapacityClass.splits if_splits)

lemma apply_gates_promotable:
  "go_verdict (fst (apply_gates c e p ob fenced inc st)) =
     CandidateVerdict_promotable_not_selected \<longleftrightarrow>
   may_serve fenced inc c \<and>
   cmp_overall (re_comparison e) \<noteq> AuthorityClass_stale \<and>
   cmp_overall (re_comparison e) \<noteq> AuthorityClass_unknown \<and>
   re_score_ok e \<and> evidence_meets ob (ca_evidence c) \<and> sint (fp_min_score p) \<le> entry_score e"
  by (cases "pe_eligibility (ca_evidence c)")
    (simp_all add: apply_gates_def exclude_def undetermined_def may_serve_def Let_def
      evidence_gates_verdict(1) evidence_meets_def)

lemma apply_gates_excluded:
  assumes "go_verdict (fst (apply_gates c e p ob fenced inc st)) = CandidateVerdict_excluded"
    and "go_reason (fst (apply_gates c e p ob fenced inc st)) \<noteq> Reason_authority_stale"
  shows "\<not> may_serve fenced inc c \<or>
    cmp_overall (re_comparison e) \<notin> {AuthorityClass_stale, AuthorityClass_unknown} \<and>
    (\<not> re_score_ok e \<or> evidence_fails ob (ca_evidence c) \<or>
     entry_score e < sint (fp_min_score p))"
  using assms evidence_gates_verdict(2) [of c e p ob]
  by (cases "pe_eligibility (ca_evidence c)")
    (auto simp: apply_gates_def exclude_def undetermined_def may_serve_def Let_def
      evidence_fails_def [of ob "ca_evidence c"] split: if_splits)

lemma apply_gates_stale_reason:
  "go_reason (fst (apply_gates c e p ob fenced inc st)) = Reason_authority_stale \<longleftrightarrow>
     may_serve fenced inc c \<and> cmp_overall (re_comparison e) = AuthorityClass_stale"
  by (cases "pe_eligibility (ca_evidence c)")
    (simp_all add: apply_gates_def exclude_def undetermined_def may_serve_def Let_def
      evidence_gates_verdict(3))

lemma apply_gates_not_selected:
  "go_verdict (fst (apply_gates c e p ob fenced inc st)) \<noteq> CandidateVerdict_selected"
  by (simp add: gate_defs Let_def split: verdict_splits)

section \<open>The canonical order\<close>

text \<open>The order is lexicographic in score (descending), upstream rank and path identity.\<close>

lemma canonical_less_key:
  "canonical_less a b \<longleftrightarrow>
     sint (sc_total (cas_terms b)) < sint (sc_total (cas_terms a)) \<or>
     sint (sc_total (cas_terms b)) = sint (sc_total (cas_terms a)) \<and>
     (cas_upstream_rank a < cas_upstream_rank b \<or>
      cas_upstream_rank a = cas_upstream_rank b \<and> cas_path a < cas_path b)"
proof -
  have "x = y \<longleftrightarrow> sint x = sint y" for x y :: i64 by (auto intro: i64_eqI)
  then show ?thesis by (auto simp: canonical_less_def)
qed

lemma canonical_less_total:
  "canonical_less a b \<or> canonical_less b a \<or> cas_path a = cas_path b"
  unfolding canonical_less_key by fastforce

interpretation canonical: weak_order canonical_less
  by unfold_locales (auto simp: canonical_less_key not_less)

interpretation entries: weak_order entry_less
  unfolding entry_less_def
  by unfold_locales
    (fact canonical.irrefl, rule canonical.trans, assumption+, rule canonical.incomparable)

section \<open>The ranking\<close>

lemma build_entries_eq:
  "build_entries p ob cur i cs st =
     (map2 (make_entry p ob cur) [i..<i + length cs] cs,
      st\<lparr>ss_score_evaluations := ss_score_evaluations st + word_of_nat (length cs)\<rparr>)"
proof (induction p ob cur i cs st rule: build_entries.induct)
  case (2 p ob cur i c cs st)
  have "[i..<i + length (c # cs)] = i # [i + 1..<i + 1 + length cs]"
    by (simp add: upt_conv_Cons del: upt_Suc)
  with 2 show ?case by (simp add: algebra_simps del: upt_Suc)
qed simp

text \<open>
  The members of a set in the order the scan visits them. An entry only carries the index of
  its member; \<open>member_at\<close> follows it.
\<close>

definition ranked_entries ::
  "FailoverPolicy \<Rightarrow> ServiceObligations \<Rightarrow> AuthorityVector \<Rightarrow> AlternateCandidate list \<Rightarrow> u64 \<Rightarrow>
   RankedEntry list" where
  "ranked_entries p ob cur cs comparisons =
     fst (deterministic_sort entry_less (map2 (make_entry p ob cur) [0..<length cs] cs) comparisons)"

definition ranking ::
  "FailoverPolicy \<Rightarrow> ServiceObligations \<Rightarrow> AuthorityVector \<Rightarrow> AlternateCandidate list \<Rightarrow>
   AlternateCandidate list" where
  "ranking p ob cur cs =
     map (\<lambda>e. cs ! re_candidate_index e) (ranked_entries p ob cur cs 0)"

definition member_less ::
  "FailoverPolicy \<Rightarrow> ServiceObligations \<Rightarrow> AlternateCandidate \<Rightarrow> AlternateCandidate \<Rightarrow> bool" where
  "member_less p ob c d =
     canonical_less (re_assessment (make_entry p ob av_absent 0 c))
       (re_assessment (make_entry p ob av_absent 0 d))"

lemma re_candidate_index_make [simp]: "re_candidate_index (make_entry p ob cur i c) = i"
  by (simp add: make_entry_def Let_def)

lemma re_assessment_make:
  "re_assessment (make_entry p ob cur i c) = re_assessment (make_entry p ob cur' j c)"
  by (simp add: make_entry_def Let_def)

lemma cas_path_make [simp]: "cas_path (re_assessment (make_entry p ob cur i c)) = ca_path c"
  by (simp add: make_entry_def Let_def)

lemma entry_less_make [simp]:
  "entry_less (make_entry p ob cur i c) (make_entry p ob cur j d) \<longleftrightarrow> member_less p ob c d"
  unfolding entry_less_def member_less_def
  using re_assessment_make [of p ob cur i c av_absent 0]
    re_assessment_make [of p ob cur j d av_absent 0] by simp

lemma set_ranked_entries:
  "set (ranked_entries p ob cur cs n) =
     set (map2 (make_entry p ob cur) [0..<length cs] cs)"
  unfolding ranked_entries_def by (metis mset_deterministic_sort set_mset_mset)

lemma length_ranked_entries [simp]: "length (ranked_entries p ob cur cs n) = length cs"
  unfolding ranked_entries_def
  by (metis (no_types, lifting) diff_zero length_map length_upt length_zip min.idem
      mset_deterministic_sort size_mset)

lemma ranked_entry_of_member:
  "e \<in> set (ranked_entries p ob cur cs n) \<Longrightarrow>
     e = make_entry p ob cur (re_candidate_index e) (cs ! re_candidate_index e)"
  unfolding set_ranked_entries by (auto simp: set_zip)

lemma map_nth_index: "map (\<lambda>e. cs ! re_candidate_index e)
    (map2 (make_entry p ob cur) [0..<length cs] cs) = cs"
  by (rule nth_equalityI) simp_all

lemma mset_ranking: "mset (ranking p ob cur cs) = mset cs"
proof -
  have "mset (ranking p ob cur cs) = image_mset (\<lambda>e. cs ! re_candidate_index e)
      (mset (map2 (make_entry p ob cur) [0..<length cs] cs))"
    by (simp add: ranking_def ranked_entries_def mset_deterministic_sort)
  then show ?thesis by (simp only: mset_map [symmetric] map_nth_index)
qed

lemma set_ranking [simp]: "set (ranking p ob cur cs) = set cs"
  by (metis mset_ranking set_mset_mset)

lemma length_ranking [simp]: "length (ranking p ob cur cs) = length cs"
  by (simp add: ranking_def)

lemma sorted_ranking:
  "sorted_wrt (\<lambda>c d. \<not> member_less p ob d c) (ranking p ob cur cs)"
proof -
  have "sorted_wrt (\<lambda>e e'. \<not> entry_less e' e) (ranked_entries p ob cur cs 0)"
    using entries.in_order_deterministic_sort
    by (simp add: entries.in_order_def ranked_entries_def)
  then have "sorted_wrt (\<lambda>e e'. \<not> member_less p ob
      (cs ! re_candidate_index e') (cs ! re_candidate_index e)) (ranked_entries p ob cur cs 0)"
    by (rule sorted_wrt_mono_rel [rotated]) (metis entry_less_make ranked_entry_of_member)
  then show ?thesis by (simp add: ranking_def sorted_wrt_map)
qed

lemma member_less_order:
  "\<not> member_less p ob c c"
  "member_less p ob a b \<Longrightarrow> member_less p ob b c \<Longrightarrow> member_less p ob a c"
  "member_less p ob a b \<or> member_less p ob b a \<or> ca_path a = ca_path b"
  unfolding member_less_def
  using canonical.irrefl canonical.trans
    canonical_less_total [of "re_assessment (make_entry p ob av_absent 0 a)"
      "re_assessment (make_entry p ob av_absent 0 b)"] by auto

lemma strict_ranking:
  assumes "distinct (map ca_path cs)"
  shows "sorted_wrt (member_less p ob) (ranking p ob cur cs)"
proof (rule sorted_wrt_strict [OF sorted_ranking])
  have "distinct cs" using assms by (simp add: distinct_map)
  then show "distinct (ranking p ob cur cs)"
    using mset_ranking mset_eq_imp_distinct_iff by blast
  show "\<forall>x \<in> set (ranking p ob cur cs). \<forall>y \<in> set (ranking p ob cur cs).
      x \<noteq> y \<longrightarrow> member_less p ob x y \<or> member_less p ob y x"
  proof (intro ballI impI)
    fix x y assume "x \<in> set (ranking p ob cur cs)" "y \<in> set (ranking p ob cur cs)" "x \<noteq> y"
    then have "ca_path x \<noteq> ca_path y" using assms by (auto simp: distinct_map inj_on_def)
    then show "member_less p ob x y \<or> member_less p ob y x"
      using member_less_order(3) [of p ob x y] by blast
  qed
qed

text \<open>The ranking is a function of the set of members alone.\<close>

lemma ranking_permutation:
  assumes "distinct (map ca_path cs)" "mset cs = mset ds"
  shows "ranking p ob cur cs = ranking p ob cur' ds"
proof (rule sorted_wrt_unique [OF member_less_order(1,2)])
  have "distinct (map ca_path ds)"
    using assms by (metis mset_eq_imp_distinct_iff mset_map)
  then show "sorted_wrt (member_less p ob) (ranking p ob cur' ds)"
    by (rule strict_ranking)
  show "sorted_wrt (member_less p ob) (ranking p ob cur cs)"
    using assms(1) by (rule strict_ranking)
  show "set (ranking p ob cur cs) = set (ranking p ob cur' ds)"
    using assms(2) mset_eq_setD by auto
qed

section \<open>The scan as a summary of the assessed members\<close>

definition member_outcome ::
  "FailoverPolicy \<Rightarrow> ServiceObligations \<Rightarrow> AuthorityVector \<Rightarrow> PathId list \<Rightarrow> PathId \<Rightarrow>
   AlternateCandidate \<Rightarrow> GateOutcome" where
  "member_outcome p ob cur fenced inc c =
     fst (apply_gates c (make_entry p ob cur 0 c) p ob fenced inc zero_stats)"

definition assess ::
  "FailoverPolicy \<Rightarrow> ServiceObligations \<Rightarrow> AuthorityVector \<Rightarrow> PathId list \<Rightarrow> PathId \<Rightarrow>
   AlternateCandidate \<Rightarrow> CandidateAssessment" where
  "assess p ob cur fenced inc c =
     (re_assessment (make_entry p ob cur 0 c))
       \<lparr>cas_verdict := go_verdict (member_outcome p ob cur fenced inc c),
        cas_reason := go_reason (member_outcome p ob cur fenced inc c),
        cas_authority := classify_overall (ca_authority c) cur\<rparr>"

abbreviation promotable :: "CandidateAssessment \<Rightarrow> bool" where
  "promotable a \<equiv> cas_verdict a = CandidateVerdict_promotable_not_selected"

abbreviation unsettled :: "CandidateAssessment \<Rightarrow> bool" where
  "unsettled a \<equiv> cas_verdict a = CandidateVerdict_indeterminate"

abbreviation conflicting :: "CandidateAssessment \<Rightarrow> bool" where
  "conflicting a \<equiv> cas_authority a = AuthorityClass_conflict"

definition stale_exclusion :: "CandidateAssessment \<Rightarrow> bool" where
  "stale_exclusion a \<longleftrightarrow>
     cas_verdict a = CandidateVerdict_excluded \<and> cas_reason a = Reason_authority_stale"

lemma ex_nat_split: "(\<exists>m. Q m) \<longleftrightarrow> Q 0 \<or> (\<exists>m. Q (Suc m))"
  by (metis not0_implies_Suc)

primrec first_at :: "('a \<Rightarrow> bool) \<Rightarrow> nat \<Rightarrow> 'a list \<Rightarrow> nat option" where
  "first_at P i [] = None"
| "first_at P i (x # xs) = (if P x then Some i else first_at P (i + 1) xs)"

lemma first_at_None: "first_at P i xs = None \<longleftrightarrow> (\<forall>x \<in> set xs. \<not> P x)"
  by (induction xs arbitrary: i) auto

lemma first_at_Some:
  "first_at P i xs = Some k \<longleftrightarrow>
     (\<exists>m. k = i + m \<and> m < length xs \<and> P (xs ! m) \<and> (\<forall>j < m. \<not> P (xs ! j)))"
proof (induction xs arbitrary: i)
  case (Cons x xs)
  have "(\<exists>m. k = i + m \<and> m < length (x # xs) \<and> P ((x # xs) ! m) \<and>
      (\<forall>j < m. \<not> P ((x # xs) ! j))) \<longleftrightarrow>
    k = i \<and> P x \<or> \<not> P x \<and> (\<exists>m. k = i + 1 + m \<and> m < length xs \<and> P (xs ! m) \<and>
      (\<forall>j < m. \<not> P (xs ! j)))"
    by (subst ex_nat_split) (simp add: All_less_Suc2 conj_ac)
  then show ?case using Cons.IH [of "i + 1"] by (auto simp only: first_at.simps split: if_splits)
qed simp

text \<open>The work counters a member costs, and the counters after a scan.\<close>

definition member_work ::
  "FailoverPolicy \<Rightarrow> ServiceObligations \<Rightarrow> AuthorityVector \<Rightarrow> PathId list \<Rightarrow> PathId \<Rightarrow>
   AlternateCandidate \<Rightarrow> SelectionStats" where
  "member_work p ob cur fenced inc c =
     snd (apply_gates c (make_entry p ob cur 0 c) p ob fenced inc zero_stats)"

definition add_work :: "SelectionStats \<Rightarrow> u64 \<Rightarrow> u64 \<Rightarrow> SelectionStats" where
  "add_work st g f = st\<lparr>ss_gate_evaluations := ss_gate_evaluations st + g,
     ss_fence_lookups := ss_fence_lookups st + f\<rparr>"

lemma add_work_simps [simp]:
  "add_work st 0 0 = st" "add_work (add_work st a b) c d = add_work st (a + c) (b + d)"
  "gate (add_work st g f) = add_work st (g + 1) f"
  "fence_lookup (add_work st g f) = add_work st g (f + 1)"
  "ss_gate_evaluations (add_work zero_stats g f) = g"
  "ss_fence_lookups (add_work zero_stats g f) = f"
  by (simp_all add: add_work_def gate_def fence_lookup_def zero_stats_def ac_simps)

lemma gate_work: "gate st = add_work st 1 0" "fence_lookup st = add_work st 0 1"
  by (simp_all add: add_work_def gate_def fence_lookup_def)

definition counts :: "(SelectionStats \<Rightarrow> GateOutcome \<times> SelectionStats) \<Rightarrow> bool" where
  "counts F \<longleftrightarrow> (\<forall>st. F st = (fst (F zero_stats), add_work st
     (ss_gate_evaluations (snd (F zero_stats))) (ss_fence_lookups (snd (F zero_stats)))))"

lemma counts_if: "counts F \<Longrightarrow> counts G \<Longrightarrow> counts (\<lambda>st. if b then F st else G st)"
  by (cases b) simp_all

lemma counts_cases:
  "counts F \<Longrightarrow> counts G \<Longrightarrow> counts H \<Longrightarrow> counts (\<lambda>st. case el of Eligibility_eligible \<Rightarrow> F st
     | Eligibility_ineligible \<Rightarrow> G st | Eligibility_unknown \<Rightarrow> H st)"
  "counts F \<Longrightarrow> counts G \<Longrightarrow> counts H \<Longrightarrow> counts (\<lambda>st. case fr of Freshness_fresh \<Rightarrow> F st
     | Freshness_stale \<Rightarrow> G st | Freshness_unknown \<Rightarrow> H st)"
  "counts F \<Longrightarrow> counts G \<Longrightarrow> counts H \<Longrightarrow> counts (\<lambda>st. case re of Reachability_reachable \<Rightarrow> F st
     | Reachability_unreachable \<Rightarrow> G st | Reachability_unknown \<Rightarrow> H st)"
  "counts F \<Longrightarrow> counts G \<Longrightarrow> counts H \<Longrightarrow> counts (\<lambda>st. case ca of CapacityClass_sufficient \<Rightarrow> F st
     | CapacityClass_insufficient \<Rightarrow> G st | CapacityClass_unknown \<Rightarrow> H st)"
  by (cases el, simp_all) (cases fr, simp_all, cases re, simp_all, cases ca, simp_all)

lemma counts_apply_gates: "counts (apply_gates c e p ob fenced inc)"
  unfolding gate_defs Let_def
  by (intro counts_if counts_cases) (simp_all add: counts_def gate_work)

lemma apply_gates_index:
  "apply_gates c (make_entry p ob cur i c) p ob fenced inc st =
     apply_gates c (make_entry p ob cur 0 c) p ob fenced inc st"
  unfolding gate_defs make_entry_def Let_def RankedEntry.simps by (rule refl)

lemma apply_gates_work:
  "apply_gates c (make_entry p ob cur i c) p ob fenced inc st =
     (member_outcome p ob cur fenced inc c,
      add_work st (ss_gate_evaluations (member_work p ob cur fenced inc c))
        (ss_fence_lookups (member_work p ob cur fenced inc c)))"
  unfolding apply_gates_index [of _ _ _ _ i]
  using counts_apply_gates unfolding counts_def member_outcome_def member_work_def by blast

lemma scan_member_step:
  assumes e: "e = make_entry p ob cur (re_candidate_index e) c"
    and c: "cs ! re_candidate_index e = c"
    and a_def: "a = assess p ob cur fenced inc c"
    and sn'_def: "sn' = scan_member p ob fenced inc cs i e sn"
  shows "sn_ranked sn' = sn_ranked sn @ [a]"
    and "sn_fatal_conflict sn' \<longleftrightarrow> sn_fatal_conflict sn \<or> conflicting a"
    and "sn_first_promotable sn' =
      (if sn_first_promotable sn = None \<and> promotable a then Some i else sn_first_promotable sn)"
    and "sn_first_indeterminate sn' =
      (if sn_first_indeterminate sn = None \<and> unsettled a then Some i
       else sn_first_indeterminate sn)"
    and "sn_indeterminate_count sn' =
      sn_indeterminate_count sn + (if unsettled a then 1 else 0)"
    and "sn_stale_exclusions sn' =
      sn_stale_exclusions sn + (if stale_exclusion a then 1 else 0)"
proof -
  define out where "out = member_outcome p ob cur fenced inc c"
  obtain stats where g: "apply_gates c e p ob fenced inc (sn_stats (if
      cmp_overall (re_comparison e) = AuthorityClass_conflict
      then sn\<lparr>sn_fatal_conflict := True\<rparr> else sn)) = (out, stats)"
    using apply_gates_work e unfolding out_def by metis
  have cmp: "cmp_overall (re_comparison e) = classify_overall (ca_authority c) cur"
    by (subst e) (simp add: make_entry_def Let_def classify_overall_def)
  have ra: "re_assessment e = re_assessment (make_entry p ob cur 0 c)"
    by (subst e) (rule re_assessment_make)
  have a: "a = (re_assessment e)\<lparr>cas_verdict := go_verdict out, cas_reason := go_reason out,
      cas_authority := cmp_overall (re_comparison e)\<rparr>"
    by (simp add: a_def assess_def out_def cmp ra)
  note [simp] = sn'_def scan_member_def c Let_def g stale_exclusion_def
  show "sn_ranked sn' = sn_ranked sn @ [a]" by (simp add: a)
  show "sn_fatal_conflict sn' \<longleftrightarrow> sn_fatal_conflict sn \<or> conflicting a" by (simp add: a)
  show "sn_first_promotable sn' =
      (if sn_first_promotable sn = None \<and> promotable a then Some i else sn_first_promotable sn)"
    by (simp add: a)
  show "sn_first_indeterminate sn' =
      (if sn_first_indeterminate sn = None \<and> unsettled a then Some i
       else sn_first_indeterminate sn)"
    by (simp add: a)
  show "sn_indeterminate_count sn' =
      sn_indeterminate_count sn + (if unsettled a then 1 else 0)" by (simp add: a)
  show "sn_stale_exclusions sn' =
      sn_stale_exclusions sn + (if stale_exclusion a then 1 else 0)" by (simp add: a)
qed

lemma scan_members_summary:
  assumes "\<forall>e \<in> set es. e = make_entry p ob cur (re_candidate_index e) (cs ! re_candidate_index e)"
    and as_def: "as = map (\<lambda>e. assess p ob cur fenced inc (cs ! re_candidate_index e)) es"
    and sn'_def: "sn' = scan_members p ob fenced inc cs es i sn"
  shows "sn_ranked sn' = sn_ranked sn @ as \<and>
    (sn_fatal_conflict sn' \<longleftrightarrow> sn_fatal_conflict sn \<or> (\<exists>a \<in> set as. conflicting a)) \<and>
    sn_first_promotable sn' = (case sn_first_promotable sn of
       Some k \<Rightarrow> Some k | None \<Rightarrow> first_at promotable i as) \<and>
    sn_first_indeterminate sn' = (case sn_first_indeterminate sn of
       Some k \<Rightarrow> Some k | None \<Rightarrow> first_at unsettled i as) \<and>
    sn_indeterminate_count sn' = sn_indeterminate_count sn + length (filter unsettled as) \<and>
    sn_stale_exclusions sn' = sn_stale_exclusions sn + length (filter stale_exclusion as)"
  using assms(1) unfolding as_def sn'_def
proof (induction es arbitrary: i sn)
  case Nil
  show ?case by (simp split: option.split)
next
  case (Cons e es)
  have e: "e = make_entry p ob cur (re_candidate_index e) (cs ! re_candidate_index e)"
    using Cons.prems by simp
  note step = scan_member_step [OF e refl refl refl, where fenced = fenced and inc = inc and i = i
      and sn = sn]
  show ?case
    using Cons.IH [of "i + 1" "scan_member p ob fenced inc cs i e sn"] Cons.prems
    by (auto simp: step split: option.splits)
qed

section \<open>The search in closed form\<close>

lemma scan_member_stats:
  assumes "e = make_entry p ob cur (re_candidate_index e) (cs ! re_candidate_index e)"
  shows "sn_stats (scan_member p ob fenced inc cs i e sn) =
    add_work (sn_stats sn)
      (ss_gate_evaluations (member_work p ob cur fenced inc (cs ! re_candidate_index e)))
      (ss_fence_lookups (member_work p ob cur fenced inc (cs ! re_candidate_index e)))"
proof -
  let ?c = "cs ! re_candidate_index e"
  obtain out where "apply_gates ?c e p ob fenced inc (sn_stats sn) =
    (out, add_work (sn_stats sn) (ss_gate_evaluations (member_work p ob cur fenced inc ?c))
       (ss_fence_lookups (member_work p ob cur fenced inc ?c)))"
    using apply_gates_work assms by metis
  then show ?thesis by (simp add: scan_member_def Let_def)
qed

lemma scan_members_stats:
  assumes "\<forall>e \<in> set es. e = make_entry p ob cur (re_candidate_index e) (cs ! re_candidate_index e)"
  shows "sn_stats (scan_members p ob fenced inc cs es i sn) =
    add_work (sn_stats sn)
      (\<Sum>c \<leftarrow> map (\<lambda>e. cs ! re_candidate_index e) es.
         ss_gate_evaluations (member_work p ob cur fenced inc c))
      (\<Sum>c \<leftarrow> map (\<lambda>e. cs ! re_candidate_index e) es.
         ss_fence_lookups (member_work p ob cur fenced inc c))"
  using assms
proof (induction es arbitrary: i sn)
  case (Cons e es)
  note step = scan_member_stats [of e p ob cur cs fenced inc i sn]
  show ?case
    using Cons.IH [of "i + 1" "scan_member p ob fenced inc cs i e sn"] Cons.prems step
    by (simp add: comp_def)
qed simp

text \<open>The explanation and the list of members above the winner, cut at their bounds.\<close>

lemma explain_eq:
  "length (pd_explanation d) \<le> max_explanation_steps \<Longrightarrow>
     explain d r v = d\<lparr>pd_explanation := take max_explanation_steps (pd_explanation d @ [(r, v)])\<rparr>"
  by (simp add: explain_def)

definition exclusions :: "CandidateAssessment list \<Rightarrow> CandidateAssessment list" where
  "exclusions as = filter (\<lambda>a. cas_verdict a = CandidateVerdict_excluded) as"

lemma explain_exclusions_eq:
  "length (pd_explanation d) \<le> max_explanation_steps \<Longrightarrow>
   explain_exclusions as d = d
     \<lparr>pd_explanation := take max_explanation_steps
        (pd_explanation d @ map (\<lambda>a. (cas_reason a, cas_path a)) (exclusions as)),
      pd_stats := (pd_stats d)\<lparr>ss_definite_exclusions :=
        ss_definite_exclusions (pd_stats d) + word_of_nat (length (exclusions as))\<rparr>\<rparr>"
proof (induction as arbitrary: d)
  case (Cons a as)
  show ?case
  proof (cases "length (pd_explanation d) = max_explanation_steps")
    case True
    then show ?thesis using Cons.IH by (simp add: exclusions_def explain_def ac_simps)
  next
    case False
    then have "length (pd_explanation d) < max_explanation_steps" using Cons.prems by simp
    then show ?thesis
      using Cons.IH by (simp add: exclusions_def explain_def take_Cons' ac_simps)
  qed
qed (simp add: exclusions_def)

lemma report_indeterminate_eq:
  "length acc \<le> max_indeterminate_reported \<Longrightarrow>
   report_indeterminate as acc =
     take max_indeterminate_reported (acc @ map cas_path (filter unsettled as))"
  by (induction as arbitrary: acc) (auto simp: take_Cons')

definition summarise :: "CandidateAssessment list \<Rightarrow> ScanState" where
  "summarise as = \<lparr>sn_stats = zero_stats, sn_first_promotable = first_at promotable 0 as,
     sn_first_indeterminate = first_at unsettled 0 as,
     sn_indeterminate_count = length (filter unsettled as),
     sn_stale_exclusions = length (filter stale_exclusion as), sn_quality_exclusions = 0,
     sn_fatal_conflict = (\<exists>a \<in> set as. conflicting a), sn_ranked = as\<rparr>"

definition examined_members ::
  "FailoverPolicy \<Rightarrow> ServiceObligations \<Rightarrow> AuthorityVector \<Rightarrow> AlternateCandidate list \<Rightarrow>
   AlternateCandidate list" where
  "examined_members p ob cur cs = take (unat (fp_search_limit p)) (ranking p ob cur cs)"

definition assessments ::
  "SelectionInput \<Rightarrow> AlternateSet \<Rightarrow> FailoverPolicy \<Rightarrow> ServiceObligations \<Rightarrow>
   CandidateAssessment list" where
  "assessments input st p ob =
     map (assess p ob (si_current input) (si_fenced_paths input) (si_incumbent input))
       (examined_members p ob (si_current input) (as_candidates st))"

definition search_work ::
  "SelectionInput \<Rightarrow> AlternateSet \<Rightarrow> FailoverPolicy \<Rightarrow> ServiceObligations \<Rightarrow> u64 \<Rightarrow>
   SelectionStats" where
  "search_work input st p ob comparisons =
     (let n = length (as_candidates st);
          ms = examined_members p ob (si_current input) (as_candidates st);
          work = member_work p ob (si_current input) (si_fenced_paths input) (si_incumbent input);
          as = assessments input st p ob
      in \<lparr>ss_candidates_supplied = word_of_nat n,
          ss_candidates_considered = word_of_nat (length ms),
          ss_score_evaluations = word_of_nat n, ss_ordering_comparisons = comparisons,
          ss_gate_evaluations = (\<Sum>c \<leftarrow> ms. ss_gate_evaluations (work c)),
          ss_definite_exclusions = word_of_nat (length (exclusions as)),
          ss_indeterminate_members = word_of_nat (length (filter unsettled as)),
          ss_fence_lookups = (\<Sum>c \<leftarrow> ms. ss_fence_lookups (work c))\<rparr>)"

definition scanned_decision ::
  "SelectionInput \<Rightarrow> AlternateSet \<Rightarrow> FailoverPolicy \<Rightarrow> ServiceObligations \<Rightarrow> u64 \<Rightarrow>
   PromotionDecision" where
  "scanned_decision input st p ob comparisons =
     (let n = length (as_candidates st);
          limit = min n (unat (fp_search_limit p));
          as = assessments input st p ob
      in (described_decision input st p ob)
        \<lparr>pd_examined := limit, pd_search_limited := n > limit, pd_ranked := as,
         pd_explanation := take max_explanation_steps
           (map (\<lambda>a. (cas_reason a, cas_path a)) (exclusions as)),
         pd_stats := search_work input st p ob comparisons\<rparr>)"

lemma conclude_cong:
  assumes "sn_first_promotable sn = sn_first_promotable sn'"
    "sn_first_indeterminate sn = sn_first_indeterminate sn'"
    "sn_indeterminate_count sn = sn_indeterminate_count sn'"
    "sn_stale_exclusions sn = sn_stale_exclusions sn'"
    "sn_fatal_conflict sn = sn_fatal_conflict sn'"
  shows "conclude st p n sn d = conclude st p n sn' d"
  unfolding conclude_def assms by (rule refl)

lemma search_closed:
  obtains comparisons where
    "search input st p ob (described_decision input st p ob) =
       conclude st p (length (as_candidates st)) (summarise (assessments input st p ob))
         (scanned_decision input st p ob comparisons)"
proof -
  let ?cs = "as_candidates st" and ?cur = "si_current input"
  let ?d = "described_decision input st p ob"
  let ?n = "length ?cs" let ?limit = "min ?n (unat (fp_search_limit p))"
  obtain es comparisons where sort: "deterministic_sort entry_less
      (map2 (make_entry p ob ?cur) [0..<?n] ?cs) 0 = (es, comparisons)" by fastforce
  then have es: "es = ranked_entries p ob ?cur ?cs 0" by (simp add: ranked_entries_def)
  define stats where "stats = (pd_stats ?d)
    \<lparr>ss_score_evaluations := ss_score_evaluations (pd_stats ?d) + word_of_nat ?n,
     ss_ordering_comparisons := comparisons, ss_candidates_considered := word_of_nat ?limit\<rparr>"
  let ?fenced = "si_fenced_paths input" and ?inc = "si_incumbent input"
  define sn where "sn = scan_members p ob ?fenced ?inc ?cs (take ?limit es) 0 (scan_start stats)"
  have refl_es: "\<forall>e \<in> set (take ?limit es). e = make_entry p ob ?cur (re_candidate_index e)
      (?cs ! re_candidate_index e)"
    using ranked_entry_of_member es in_set_takeD by metis
  have ms: "map (\<lambda>e. ?cs ! re_candidate_index e) (take ?limit es) =
      examined_members p ob ?cur ?cs"
    by (simp add: examined_members_def ranking_def es take_map min_def)
  have as: "assessments input st p ob =
      map (\<lambda>e. assess p ob ?cur ?fenced ?inc (?cs ! re_candidate_index e)) (take ?limit es)"
    by (simp add: assessments_def flip: ms)
  note summary = scan_members_summary [OF refl_es as refl, of 0 "scan_start stats",
      folded sn_def]
  have work: "sn_stats sn = add_work stats
      (\<Sum>c \<leftarrow> examined_members p ob ?cur ?cs.
         ss_gate_evaluations (member_work p ob ?cur ?fenced ?inc c))
      (\<Sum>c \<leftarrow> examined_members p ob ?cur ?cs.
         ss_fence_lookups (member_work p ob ?cur ?fenced ?inc c))"
    unfolding sn_def by (subst scan_members_stats [OF refl_es]) (simp add: ms scan_start_def)
  have ranked: "sn_ranked sn = assessments input st p ob"
    using summary by (simp add: scan_start_def)
  have len: "length (examined_members p ob ?cur ?cs) = ?limit"
    by (simp add: examined_members_def min_def)
  have "ss_ordering_comparisons (pd_stats ?d) = 0" and n: "length es = ?n"
    by (simp_all add: described_decision_def initial_decision_def empty_decision_def
        zero_stats_def es)
  then have "search input st p ob ?d = conclude st p ?n sn
      (let d = explain_exclusions (sn_ranked sn) (?d\<lparr>pd_examined := ?limit,
            pd_search_limited := ?n > ?limit, pd_stats := sn_stats sn, pd_ranked := sn_ranked sn\<rparr>)
       in d\<lparr>pd_stats := (pd_stats d)
            \<lparr>ss_indeterminate_members := word_of_nat (sn_indeterminate_count sn)\<rparr>\<rparr>)"
    using sort by (simp add: search_def build_entries_eq Let_def n sn_def stats_def)
  also have "\<dots> = conclude st p ?n sn (scanned_decision input st p ob comparisons)"
    using len summary
    by (simp add: described_decision_def initial_decision_def empty_decision_def zero_stats_def
        Let_def explain_exclusions_eq scanned_decision_def search_work_def work stats_def
        add_work_def scan_start_def)
  finally have "search input st p ob ?d = conclude st p ?n sn
      (scanned_decision input st p ob comparisons)" .
  moreover have "conclude st p ?n sn d =
      conclude st p ?n (summarise (assessments input st p ob)) d" for d
    by (rule conclude_cong) (use summary in \<open>simp_all add: summarise_def scan_start_def\<close>)
  ultimately show thesis using that by simp
qed

section \<open>Guards and conclusions\<close>

lemma refuse_fields [simp]:
  "pd_outcome (refuse d out r v) = out" "pd_reason (refuse d out r v) = r"
  "pd_selected (refuse d out r v) = 0" "pd_ranked (refuse d out r v) = pd_ranked d"
  "pd_authority_kind (refuse d out r v) = pd_authority_kind d"
  "pd_stats (refuse d out r v) = pd_stats d"
  "pd_basis (refuse d out r v) = pd_basis d" "pd_supplied (refuse d out r v) = pd_supplied d"
  "pd_indeterminate_above (refuse d out r v) = pd_indeterminate_above d"
  "pd_set_complete (refuse d out r v) = pd_set_complete d"
  by (simp_all add: refuse_def explain_def absent_def)

lemma explain_bounded:
  "length (pd_explanation d) \<le> max_explanation_steps \<Longrightarrow>
     length (pd_explanation (explain d r v)) \<le> max_explanation_steps"
  by (simp add: explain_def)

lemma refuse_bounded:
  "length (pd_explanation d) \<le> max_explanation_steps \<Longrightarrow>
     length (pd_explanation (refuse d out r v)) \<le> max_explanation_steps"
  unfolding refuse_def by (rule explain_bounded) simp

definition guards_pass ::
  "SelectionInput \<Rightarrow> AlternateSet \<Rightarrow> FailoverPolicy \<Rightarrow> ServiceObligations \<Rightarrow> bool" where
  "guards_pass input st p ob \<longleftrightarrow>
     st_ok (validate_policy p) \<and> st_ok (validate_obligations ob) \<and> st_ok (validate_set st) \<and>
     valid (si_incumbent input) \<and>
     fp_generation p = av_policy (si_current input) \<and>
     so_generation ob = av_obligations (si_current input) \<and>
     (valid (si_expected_set_generation input) \<longrightarrow>
        si_expected_set_generation input = as_generation st)"

lemma guards_None: "evaluate_guards input st p ob d = None \<longleftrightarrow> guards_pass input st p ob"
  by (auto simp: evaluate_guards_def guards_pass_def Let_def validate_policy_ok
      validate_obligations_ok)

text \<open>What a guard refuses carries no selection and no claim about the members.\<close>

definition guard_outcomes :: "PromotionOutcome set" where
  "guard_outcomes =
     {PromotionOutcome_refused_policy_invalid, PromotionOutcome_refused_obligations_invalid,
      PromotionOutcome_refused_invalid_input, PromotionOutcome_refused_conflict,
      PromotionOutcome_refused_stale_authority}"

lemma guards_Some:
  assumes "evaluate_guards input st p ob d = Some r"
  obtains out reason where "r = refuse d out reason 0" "out \<in> guard_outcomes"
  using assms
  by (auto simp: evaluate_guards_def refuse_generation_def guard_outcomes_def Let_def
      split: if_splits)

definition concluded ::
  "SelectionInput \<Rightarrow> AlternateSet \<Rightarrow> FailoverPolicy \<Rightarrow> ServiceObligations \<Rightarrow> u64 \<Rightarrow>
   PromotionDecision" where
  "concluded input st p ob comparisons =
     conclude st p (length (as_candidates st)) (summarise (assessments input st p ob))
       (scanned_decision input st p ob comparisons)"

lemma evaluate_cases:
  assumes "evaluate input = Inr d"
  obtains (missing) "d = refuse (initial_decision input) PromotionOutcome_refused_invalid_input
        Reason_invalid_payload 0"
  | (guarded) st p ob out reason where
      "si_set input = Some st" "si_policy input = Some p" "si_obligations input = Some ob"
      "d = refuse (described_decision input st p ob) out reason 0" "out \<in> guard_outcomes"
      "\<not> guards_pass input st p ob"
  | (searched) st p ob comparisons where
      "si_set input = Some st" "si_policy input = Some p" "si_obligations input = Some ob"
      "guards_pass input st p ob" "d = concluded input st p ob comparisons"
proof (cases "si_set input = None \<or> si_policy input = None \<or> si_obligations input = None")
  case True
  with assms missing show thesis
    by (auto simp: evaluate_def split: option.splits)
next
  case False
  then obtain st p ob where in3: "si_set input = Some st" "si_policy input = Some p"
    "si_obligations input = Some ob" by auto
  let ?d = "described_decision input st p ob"
  show thesis
  proof (cases "evaluate_guards input st p ob ?d")
    case None
    then have "d = search input st p ob ?d" using assms in3 by (simp add: evaluate_def Let_def)
    moreover obtain n where "search input st p ob ?d = concluded input st p ob n"
      using search_closed unfolding concluded_def by metis
    ultimately show thesis using searched in3 None guards_None by blast
  next
    case (Some r)
    then have "d = r" using assms in3 by (simp add: evaluate_def Let_def)
    moreover have "\<not> guards_pass input st p ob" using Some guards_None [of input st p ob ?d] by simp
    ultimately show thesis using guarded in3 guards_Some [OF Some] by metis
  qed
qed

lemma evaluate_searched:
  assumes "si_set input = Some st" "si_policy input = Some p" "si_obligations input = Some ob"
    "guards_pass input st p ob"
  obtains comparisons where "evaluate input = Inr (concluded input st p ob comparisons)"
proof -
  have "evaluate_guards input st p ob (described_decision input st p ob) = None"
    using assms(4) by (simp add: guards_None)
  then have "evaluate input = Inr (search input st p ob (described_decision input st p ob))"
    using assms by (simp add: evaluate_def Let_def)
  then show thesis using search_closed that unfolding concluded_def by metis
qed

lemma index_before_first:
  "index_before (first_at P 0 as) k \<longleftrightarrow> (\<exists>j < k. j < length as \<and> P (as ! j))"
proof (cases "first_at P 0 as")
  case None
  moreover from None have "\<forall>x \<in> set as. \<not> P x" by (simp add: first_at_None)
  ultimately show ?thesis by (simp add: index_before_def)
next
  case (Some m)
  then have "m < length as" "P (as ! m)" "\<forall>j < m. \<not> P (as ! j)"
    by (auto simp: first_at_Some)
  then show ?thesis
    using Some by (auto simp: index_before_def) (metis linorder_neqE_nat order_less_trans)
qed

definition blocked :: "FailoverPolicy \<Rightarrow> CandidateAssessment list \<Rightarrow> nat \<Rightarrow> bool" where
  "blocked p as k \<longleftrightarrow> \<not> fp_allow_unknown_skip p \<and> (\<exists>j < k. unsettled (as ! j))"

lemma conclude_outcome:
  assumes as_def: "as = assessments input st p ob"
  shows "pd_outcome (concluded input st p ob n) =
    (if \<exists>a \<in> set as. conflicting a then PromotionOutcome_refused_conflict
     else case first_at promotable 0 as of
       Some k \<Rightarrow> if blocked p as k then PromotionOutcome_indeterminate_unknown_member
                 else PromotionOutcome_authorized
     | None \<Rightarrow>
         if \<exists>a \<in> set as. unsettled a then PromotionOutcome_indeterminate_unknown_member
         else if length (as_candidates st) > unat (fp_search_limit p)
         then PromotionOutcome_indeterminate_search_limit
         else if as_completeness st \<noteq> SetCompleteness_complete
         then PromotionOutcome_indeterminate_incomplete_set
         else if \<exists>a \<in> set as. stale_exclusion a then PromotionOutcome_refused_stale_authority
         else PromotionOutcome_refused_proven_no_alternate)"
proof -
  have before: "index_before (first_at unsettled 0 as) k \<and> \<not> fp_allow_unknown_skip p \<longleftrightarrow>
      blocked p as k" if "first_at promotable 0 as = Some k" for k
    using that by (auto simp: index_before_first blocked_def first_at_Some)
  have "pd_search_limited (scanned_decision input st p ob n) \<longleftrightarrow>
      length (as_candidates st) > unat (fp_search_limit p)"
    by (auto simp: scanned_decision_def Let_def)
  then show ?thesis
    using before
    by (auto simp: concluded_def conclude_def summarise_def Let_def filter_empty_conv as_def
        split: option.splits)
qed

lemma concluded_authorized:
  assumes "pd_outcome (concluded input st p ob n) = PromotionOutcome_authorized"
  obtains k where "k < length (assessments input st p ob)"
    "promotable (assessments input st p ob ! k)"
    "\<forall>j < k. \<not> promotable (assessments input st p ob ! j)"
    "\<forall>a \<in> set (assessments input st p ob). \<not> conflicting a"
    "\<not> blocked p (assessments input st p ob) k"
    "pd_selected (concluded input st p ob n) = cas_path (assessments input st p ob ! k)"
proof -
  let ?as = "assessments input st p ob"
  from assms obtain k where k: "first_at promotable 0 ?as = Some k"
    "\<forall>a \<in> set ?as. \<not> conflicting a" "\<not> blocked p ?as k"
    by (auto simp: conclude_outcome [OF refl] split: if_splits option.splits)
  moreover from k(1) have "k < length ?as" "promotable (?as ! k)" "\<forall>j < k. \<not> promotable (?as ! j)"
    by (auto simp: first_at_Some)
  moreover have "\<not> (index_before (first_at unsettled 0 ?as) k \<and> \<not> fp_allow_unknown_skip p)"
    using k(3) by (auto simp: index_before_first blocked_def)
  ultimately show thesis
    by (intro that [of k])
      (auto simp: concluded_def conclude_def summarise_def Let_def scanned_decision_def)
qed

end
