(* ===== verification/PFF_Selection.thy ===== *)
theory PFF_Selection
  imports PFF_Selector
begin

text \<open>
  The properties of the selector (\<open>Selector::evaluate\<close>, \<open>src/selector.cpp\<close>), stated over
  the supplied members rather than over the scan: what an authorised decision entails, that the
  winner is optimal, that the document does not depend on the order in which the members are
  supplied, when a refusal is a proof, and that missing knowledge never reads as a verdict.
\<close>

section \<open>Members\<close>

lemma member_score:
  assumes "st_ok (validate_policy p)"
  shows "re_score_ok (make_entry p ob cur i c)"
    and "entry_score (make_entry p ob cur i c) =
      objective p ob (ca_evidence c) (ca_upstream_rank c)"
proof -
  obtain t where "compute_score p ob (ca_evidence c) (ca_upstream_rank c) = Inr t"
    "sint (sc_total t) = objective p ob (ca_evidence c) (ca_upstream_rank c)"
    using compute_score_valid [OF assms] by metis
  then show "re_score_ok (make_entry p ob cur i c)"
    and "entry_score (make_entry p ob cur i c) =
      objective p ob (ca_evidence c) (ca_upstream_rank c)"
    by (simp_all add: make_entry_def entry_score_def Let_def)
qed

abbreviation member_objective ::
  "FailoverPolicy \<Rightarrow> ServiceObligations \<Rightarrow> AlternateCandidate \<Rightarrow> int" where
  "member_objective p ob c \<equiv> objective p ob (ca_evidence c) (ca_upstream_rank c)"

lemma member_less_objective:
  assumes "st_ok (validate_policy p)"
  shows "member_less p ob c d \<longleftrightarrow>
    member_objective p ob d < member_objective p ob c \<or>
    member_objective p ob d = member_objective p ob c \<and>
    (ca_upstream_rank c < ca_upstream_rank d \<or>
     ca_upstream_rank c = ca_upstream_rank d \<and> ca_path c < ca_path d)"
proof -
  have rank: "cas_upstream_rank (re_assessment (make_entry p ob cur i c)) = ca_upstream_rank c"
    for cur i c by (simp add: make_entry_def Let_def)
  have score: "sint (sc_total (cas_terms (re_assessment (make_entry p ob cur i c)))) =
      member_objective p ob c" for cur i c
    using member_score(2) [OF assms] by (simp add: entry_score_def)
  show ?thesis unfolding member_less_def canonical_less_key rank score cas_path_make by (rule refl)
qed

text \<open>
  A member the current generations, the obligations, the policy and the fences all admit, each
  statement being made of the supplied data alone.
\<close>

definition legal_alternate ::
  "SelectionInput \<Rightarrow> FailoverPolicy \<Rightarrow> ServiceObligations \<Rightarrow> AlternateCandidate \<Rightarrow> bool" where
  "legal_alternate input p ob c \<longleftrightarrow>
     may_serve (si_fenced_paths input) (si_incumbent input) c \<and>
     fields_present (si_current input) \<and> ca_authority c = si_current input \<and>
     evidence_meets ob (ca_evidence c) \<and>
     sint (fp_min_score p) \<le> member_objective p ob c"

text \<open>A member that is definitely not promotable, by a statement of its own data.\<close>

definition illegal_alternate ::
  "SelectionInput \<Rightarrow> FailoverPolicy \<Rightarrow> ServiceObligations \<Rightarrow> AlternateCandidate \<Rightarrow> bool" where
  "illegal_alternate input p ob c \<longleftrightarrow>
     \<not> may_serve (si_fenced_paths input) (si_incumbent input) c \<or>
     fields_present (si_current input) \<and> ca_authority c = si_current input \<and>
     (evidence_fails ob (ca_evidence c) \<or> member_objective p ob c < sint (fp_min_score p))"

abbreviation assess_for ::
  "SelectionInput \<Rightarrow> FailoverPolicy \<Rightarrow> ServiceObligations \<Rightarrow> AlternateCandidate \<Rightarrow>
   CandidateAssessment" where
  "assess_for input p ob \<equiv>
     assess p ob (si_current input) (si_fenced_paths input) (si_incumbent input)"

lemma assess_simps [simp]:
  "cas_path (assess p ob cur fenced inc c) = ca_path c"
  "cas_authority (assess p ob cur fenced inc c) = classify_overall (ca_authority c) cur"
  "cas_verdict (assess p ob cur fenced inc c) = go_verdict (member_outcome p ob cur fenced inc c)"
  "cas_reason (assess p ob cur fenced inc c) = go_reason (member_outcome p ob cur fenced inc c)"
  by (simp_all add: assess_def)

lemma cmp_overall_make [simp]:
  "cmp_overall (re_comparison (make_entry p ob cur i c)) = classify_overall (ca_authority c) cur"
  by (simp add: make_entry_def Let_def classify_overall_def)

lemma promotable_legal:
  assumes "st_ok (validate_policy p)"
  shows "promotable (assess_for input p ob c) \<and> \<not> conflicting (assess_for input p ob c) \<longleftrightarrow>
    legal_alternate input p ob c"
proof -
  have "x \<noteq> AuthorityClass_stale \<and> x \<noteq> AuthorityClass_unknown \<and> x \<noteq> AuthorityClass_conflict \<longleftrightarrow>
      x = AuthorityClass_current" for x by (cases x) simp_all
  note cls = this [of "classify_overall (ca_authority c) (si_current input)",
      unfolded classify_overall_current_iff]
  show ?thesis
    using cls by (auto simp: member_outcome_def apply_gates_promotable member_score [OF assms]
        legal_alternate_def)
qed

lemma excluded_illegal:
  assumes "st_ok (validate_policy p)"
    and "cas_verdict (assess_for input p ob c) = CandidateVerdict_excluded"
    and "\<not> stale_exclusion (assess_for input p ob c)"
    and "\<not> conflicting (assess_for input p ob c)"
  shows "illegal_alternate input p ob c"
proof -
  let ?cls = "classify_overall (ca_authority c) (si_current input)"
  have "\<not> may_serve (si_fenced_paths input) (si_incumbent input) c \<or>
      ?cls \<notin> {AuthorityClass_stale, AuthorityClass_unknown} \<and>
      (evidence_fails ob (ca_evidence c) \<or> member_objective p ob c < sint (fp_min_score p))"
    using apply_gates_excluded [of c "make_entry p ob (si_current input) 0 c" p ob
        "si_fenced_paths input" "si_incumbent input" zero_stats] assms(2,3)
    by (simp add: member_outcome_def stale_exclusion_def member_score [OF assms(1)])
  moreover have "?cls = AuthorityClass_current"
    if "?cls \<notin> {AuthorityClass_stale, AuthorityClass_unknown}"
    using that assms(4) by (cases ?cls) auto
  ultimately show ?thesis
    using classify_overall_current_iff by (auto simp: illegal_alternate_def)
qed

lemma settled_excluded:
  assumes "\<not> promotable (assess_for input p ob c)" "\<not> unsettled (assess_for input p ob c)"
  shows "cas_verdict (assess_for input p ob c) = CandidateVerdict_excluded"
  using assms apply_gates_not_selected
  by (cases "cas_verdict (assess_for input p ob c)") (simp_all add: member_outcome_def)

text \<open>No member is both.\<close>

lemma illegal_not_legal: "illegal_alternate input p ob c \<Longrightarrow> \<not> legal_alternate input p ob c"
  by (auto simp: illegal_alternate_def legal_alternate_def evidence_fails_def evidence_meets_def)

section \<open>Positions\<close>

lemma assessment_at:
  assumes "k < length (assessments input st p ob)"
  obtains c where "c = ranking p ob (si_current input) (as_candidates st) ! k"
    "k < length (as_candidates st)"
    "c \<in> set (as_candidates st)" "assessments input st p ob ! k = assess_for input p ob c"
proof -
  let ?r = "ranking p ob (si_current input) (as_candidates st)"
  have k: "k < unat (fp_search_limit p)" "k < length (as_candidates st)"
    using assms by (simp_all add: assessments_def examined_members_def)
  have "?r ! k \<in> set ?r" using k by (intro nth_mem) simp
  then show thesis
    using k by (intro that [of "?r ! k"]) (simp_all add: assessments_def examined_members_def)
qed

lemma earlier_assessed:
  assumes "st_ok (validate_set st)" "k < length (assessments input st p ob)"
    and "c = ranking p ob (si_current input) (as_candidates st) ! k"
    and "d \<in> set (as_candidates st)" "member_less p ob d c"
  obtains j where "j < k" "assessments input st p ob ! j = assess_for input p ob d"
proof -
  let ?r = "ranking p ob (si_current input) (as_candidates st)"
  have k: "k < length ?r" "k < unat (fp_search_limit p)"
    using assms(2) by (simp_all add: assessments_def examined_members_def)
  obtain j where j: "j < length ?r" "?r ! j = d"
    using assms(4) by (metis in_set_conv_nth set_ranking)
  have "\<not> k \<le> j"
  proof
    assume "k \<le> j"
    then consider "k = j" | "k < j" by linarith
    then have "\<not> member_less p ob d c"
    proof cases
      case 1
      then show ?thesis using j assms(3) member_less_order(1) by simp
    next
      case 2
      then show ?thesis
        using sorted_wrt_nth_less [OF sorted_ranking] j assms(3) by blast
    qed
    then show False using assms(5) by simp
  qed
  then have "j < k" by simp
  moreover have "assessments input st p ob ! j = assess_for input p ob d"
    using \<open>j < k\<close> k j by (simp add: assessments_def examined_members_def)
  ultimately show thesis by (rule that)
qed

lemma guards_passD:
  assumes "guards_pass input st p ob"
  shows "st_ok (validate_policy p)" "st_ok (validate_obligations ob)" "st_ok (validate_set st)"
    "distinct (map ca_path (as_candidates st))"
  using assms by (auto simp: guards_pass_def validate_set_ok)

text \<open>The winner of an authorised decision, as a member.\<close>

lemma authorized_winner:
  assumes "evaluate input = Inr d" "pd_outcome d = PromotionOutcome_authorized"
  obtains st p ob k c where
    "si_set input = Some st" "si_policy input = Some p" "si_obligations input = Some ob"
    "guards_pass input st p ob" "k < length (assessments input st p ob)"
    "c = ranking p ob (si_current input) (as_candidates st) ! k" "c \<in> set (as_candidates st)"
    "pd_selected d = ca_path c" "legal_alternate input p ob c"
    "\<forall>j < k. \<not> promotable (assessments input st p ob ! j)"
    "\<forall>a \<in> set (assessments input st p ob). \<not> conflicting a"
    "\<not> blocked p (assessments input st p ob) k"
  using assms(1)
proof (cases rule: evaluate_cases)
  case (searched st p ob n)
  obtain k where k: "k < length (assessments input st p ob)"
    "promotable (assessments input st p ob ! k)"
    "\<forall>j < k. \<not> promotable (assessments input st p ob ! j)"
    "\<forall>a \<in> set (assessments input st p ob). \<not> conflicting a"
    "\<not> blocked p (assessments input st p ob) k"
    "pd_selected d = cas_path (assessments input st p ob ! k)"
    using concluded_authorized assms(2) searched(5) by metis
  obtain c where c: "c = ranking p ob (si_current input) (as_candidates st) ! k"
    "c \<in> set (as_candidates st)" "assessments input st p ob ! k = assess_for input p ob c"
    using assessment_at k(1) by metis
  have "legal_alternate input p ob c"
    using promotable_legal [OF guards_passD(1) [OF searched(4)]] k c nth_mem by metis
  with that k c searched show thesis by (metis assess_simps(1))
qed (use assms(2) in \<open>auto simp: guard_outcomes_def\<close>)

section \<open>A sample input\<close>

text \<open>
  Concrete inputs at which the properties are instantiated: an incumbent 9 and four members of
  which 3 scores best but is of unknown eligibility, 1 and 2 are legal, and 4 is fenced.
\<close>

definition sample_vector :: AuthorityVector where
  "sample_vector = \<lparr>av_topology = 2, av_path_authority = 3, av_policy = 4, av_obligations = 5,
     av_epoch = 6, av_boot = 7\<rparr>"

definition sample_evidence :: "PathId \<Rightarrow> Eligibility \<Rightarrow> i64 \<Rightarrow> PathEvidence" where
  "sample_evidence path eligibility health =
     \<lparr>pe_id = path + 100, pe_path = path, pe_freshness = Freshness_fresh,
      pe_eligibility = eligibility, pe_reachability = Reachability_reachable,
      pe_capacity = CapacityClass_sufficient, pe_capabilities = 3, pe_health_ppm = health,
      pe_cost_units = 10, pe_observation_seq = 1, pe_observed_under = sample_vector,
      pe_provenance = Provenance_synthetic\<rparr>"

definition sample_member :: "PathId \<Rightarrow> Eligibility \<Rightarrow> i64 \<Rightarrow> AlternateCandidate" where
  "sample_member path eligibility health =
     \<lparr>ca_path = path, ca_upstream_rank = 1, ca_withdrawn = False,
      ca_evidence = sample_evidence path eligibility health, ca_authority = sample_vector\<rparr>"

definition sample_members :: "AlternateCandidate list" where
  "sample_members =
     [sample_member 1 Eligibility_eligible 500000, sample_member 2 Eligibility_eligible 600000,
      sample_member 3 Eligibility_unknown 900000, sample_member 4 Eligibility_eligible 800000]"

definition sample_set :: "AlternateCandidate list \<Rightarrow> AlternateSet" where
  "sample_set cs = \<lparr>as_id = 1, as_generation = 1, as_completeness = SetCompleteness_complete,
     as_candidates = cs\<rparr>"

definition sample_policy :: FailoverPolicy where
  "sample_policy = default_policy\<lparr>fp_generation := 4\<rparr>"

definition sample_obligations :: ServiceObligations where
  "sample_obligations = default_obligations\<lparr>so_generation := 5, so_required_capabilities := 1\<rparr>"

definition sample_input :: "AlternateCandidate list \<Rightarrow> FailoverPolicy \<Rightarrow> SelectionInput" where
  "sample_input cs p =
     \<lparr>si_incumbent = 9, si_set = Some (sample_set cs), si_obligations = Some sample_obligations,
      si_policy = Some p, si_current = sample_vector, si_expected_set_generation = 1,
      si_fenced_paths = [4], si_decision_id = 11, si_attempt = 0,
      si_provenance = Provenance_synthetic\<rparr>"

definition settled_input :: SelectionInput where
  "settled_input = sample_input (filter (\<lambda>c. ca_path c \<in> {1, 2}) sample_members) sample_policy"

definition fenced_input :: SelectionInput where
  "fenced_input = sample_input (filter (\<lambda>c. ca_path c \<in> {2, 4}) sample_members) sample_policy"

definition barren_input :: SelectionInput where
  "barren_input = sample_input (filter (\<lambda>c. ca_path c = 4) sample_members) sample_policy"

definition decided :: "SelectionInput \<Rightarrow> PromotionDecision" where
  "decided input = (case evaluate input of Inr d \<Rightarrow> d | Inl _ \<Rightarrow> empty_decision)"

lemma evaluate_decided: "evaluate input = Inr (decided input)"
  by (simp add: decided_def evaluate_def Let_def split: option.split)

text \<open>The definitions a sample run unfolds.\<close>

lemmas sample_defs =
  sample_vector_def sample_evidence_def sample_member_def sample_members_def sample_set_def
  sample_policy_def sample_obligations_def sample_input_def settled_input_def
  fenced_input_def barren_input_def default_policy_def default_obligations_def

lemmas limit_defs =
  max_candidates_per_set_def health_scale_def cost_scale_def rank_scale_def max_weight_def
  policy_weights_def max_attempts_def max_search_limit_def default_search_limit_def int64_defs
  max_explanation_steps_def max_indeterminate_reported_def

lemma popcount_one: "popcount 1 = 1"
  by (simp add: popcount_def upt_rec numeral_eq_Suc)

lemmas score_defs =
  compute_score_def checked_mul_def checked_add_def clamp_i64_def popcount_one

lemmas classify_defs =
  classify_def classify_generation_def classify_epoch_def classify_boot_def merge_class_def
  classify_reason_def

lemmas run_defs =
  decided_def evaluate_def evaluate_guards_def search_def make_entry_def deterministic_sort_def
  sort_passes.simps merge_pass.simps entry_less_def canonical_less_def scan_member_def gate_defs
  explain_def described_decision_def initial_decision_def conclude_def refuse_def gate_def
  fence_lookup_def zero_stats_def empty_decision_def scan_start_def index_before_def
  valid_def absent_def Let_def

lemma settled_run:
  "pd_outcome (decided settled_input) = PromotionOutcome_authorized \<and>
   pd_selected (decided settled_input) = 2"
  by (simp add: run_defs sample_defs score_defs classify_defs limit_defs validation)

lemma fenced_run:
  "pd_outcome (decided fenced_input) = PromotionOutcome_authorized \<and>
   pd_selected (decided fenced_input) = 2"
  by (simp add: run_defs sample_defs score_defs classify_defs limit_defs validation)

lemma barren_run:
  "pd_outcome (decided barren_input) = PromotionOutcome_refused_proven_no_alternate"
  by (simp add: run_defs sample_defs score_defs classify_defs limit_defs validation)

lemma sample_guards:
  "guards_pass settled_input (sample_set (filter (\<lambda>c. ca_path c \<in> {1, 2}) sample_members))
     sample_policy sample_obligations"
  by (simp add: guards_pass_def sample_defs validation valid_def limit_defs)

lemma legal_one:
  "legal_alternate settled_input sample_policy sample_obligations
     (sample_member 1 Eligibility_eligible 500000)"
  by (simp add: legal_alternate_def may_serve_def evidence_meets_def quality_meets_def
      fields_present_def objective_def clamp_i64_def popcount_one valid_def sample_defs limit_defs)

lemma legal_two:
  "legal_alternate settled_input sample_policy sample_obligations
     (sample_member 2 Eligibility_eligible 600000)"
  by (simp add: legal_alternate_def may_serve_def evidence_meets_def quality_meets_def
      fields_present_def objective_def clamp_i64_def popcount_one valid_def sample_defs limit_defs)

section \<open>Shape of the document\<close>

lemma conclude_shape:
  "pd_authority_kind (conclude st p n sn d) = pd_authority_kind d"
  "pd_basis (conclude st p n sn d) = pd_basis d"
  "length (pd_ranked (conclude st p n sn d)) = length (pd_ranked d)"
  "pd_outcome (conclude st p n sn d) = PromotionOutcome_authorized \<or>
     pd_selected (conclude st p n sn d) = 0"
  by (cases "sn_first_promotable sn"; simp add: conclude_def Let_def)+

lemma conclude_bounds:
  assumes "length (pd_explanation d) \<le> max_explanation_steps"
    and "pd_indeterminate_above d = []"
  shows "length (pd_explanation (conclude st p n sn d)) \<le> max_explanation_steps"
    and "length (pd_indeterminate_above (conclude st p n sn d)) \<le> max_indeterminate_reported"
  using assms
  by (cases "sn_first_promotable sn";
      simp add: conclude_def Let_def refuse_bounded report_indeterminate_eq)+

lemma initial_shape:
  "pd_authority_kind (initial_decision input) = AuthorityKind_recommendation"
  "pd_basis (initial_decision input) = si_current input"
  "pd_explanation (initial_decision input) = []" "pd_ranked (initial_decision input) = []"
  "pd_indeterminate_above (initial_decision input) = []"
  by (simp_all add: initial_decision_def empty_decision_def)

lemma described_shape:
  "pd_authority_kind (described_decision input st p ob) = AuthorityKind_recommendation"
  "pd_basis (described_decision input st p ob) = si_current input"
  "pd_explanation (described_decision input st p ob) = []"
  "pd_ranked (described_decision input st p ob) = []"
  "pd_indeterminate_above (described_decision input st p ob) = []"
  by (simp_all add: described_decision_def initial_shape)

lemma scanned_shape:
  "pd_authority_kind (scanned_decision input st p ob n) = AuthorityKind_recommendation"
  "pd_basis (scanned_decision input st p ob n) = si_current input"
  "length (pd_explanation (scanned_decision input st p ob n)) \<le> max_explanation_steps"
  "length (pd_ranked (scanned_decision input st p ob n)) \<le> length (as_candidates st)"
  "pd_indeterminate_above (scanned_decision input st p ob n) = []"
  by (simp_all add: scanned_decision_def Let_def described_shape assessments_def
      examined_members_def)

section \<open>Properties\<close>

text \<open>
  C2: Soundness of a selection. Whenever \<open>Selector::evaluate\<close> answers AUTHORIZED, all inputs were
  supplied and validated under exactly the generations the caller holds, and the selected path
  belongs to a supplied member that is neither the incumbent, nor withdrawn, nor fenced, was
  declared under exactly the caller's current authority vector with every field present, meets
  every obligation, and reaches the policy's minimum score.
\<close>

theorem evaluate_authorized_sound:
  assumes "evaluate input = Inr d" "pd_outcome d = PromotionOutcome_authorized"
  shows "\<exists>st p ob c. si_set input = Some st \<and> si_policy input = Some p \<and>
    si_obligations input = Some ob \<and> guards_pass input st p ob \<and>
    c \<in> set (as_candidates st) \<and> pd_selected d = ca_path c \<and> legal_alternate input p ob c"
  using authorized_winner [OF assms] by metis

theorem evaluate_authorized_sound_witness:
  "\<exists>st p ob c. si_set settled_input = Some st \<and> si_policy settled_input = Some p \<and>
    si_obligations settled_input = Some ob \<and> guards_pass settled_input st p ob \<and>
    c \<in> set (as_candidates st) \<and> pd_selected (decided settled_input) = ca_path c \<and>
    legal_alternate settled_input p ob c"
  using evaluate_authorized_sound [OF evaluate_decided] settled_run by blast

text \<open>
  C19: Optimality. The selected member beats every other legal member of the whole supplied set
  in the documented order: a higher objective, or an equal objective and a lower upstream rank,
  or both equal and a lower path identity. The search limit does not weaken this, because the
  limit is applied after ranking.
\<close>

theorem evaluate_selects_optimum:
  assumes "evaluate input = Inr d" "pd_outcome d = PromotionOutcome_authorized"
    and "si_set input = Some st" "si_policy input = Some p" "si_obligations input = Some ob"
    and "c \<in> set (as_candidates st)" "pd_selected d = ca_path c"
    and "c' \<in> set (as_candidates st)" "legal_alternate input p ob c'" "c' \<noteq> c"
  shows "member_objective p ob c' < member_objective p ob c \<or>
    member_objective p ob c' = member_objective p ob c \<and>
    (ca_upstream_rank c < ca_upstream_rank c' \<or>
     ca_upstream_rank c = ca_upstream_rank c' \<and> ca_path c < ca_path c')"
proof -
  obtain k w where w: "guards_pass input st p ob" "k < length (assessments input st p ob)"
    "w = ranking p ob (si_current input) (as_candidates st) ! k" "w \<in> set (as_candidates st)"
    "pd_selected d = ca_path w" "\<forall>j < k. \<not> promotable (assessments input st p ob ! j)"
    using authorized_winner [OF assms(1,2)] assms(3-5) by (metis option.inject)
  note pol = guards_passD(1) [OF w(1)] and paths = guards_passD(4) [OF w(1)]
  have eq: "w = c" "ca_path c' \<noteq> ca_path c"
    using paths w(4,5) assms(6-8,10) by (auto simp: distinct_map inj_on_def)
  have "\<not> member_less p ob c' c"
  proof
    assume "member_less p ob c' c"
    then obtain j where "j < k" "assessments input st p ob ! j = assess_for input p ob c'"
      using earlier_assessed [OF guards_passD(3) [OF w(1)] w(2) w(3) assms(8)] eq(1) by blast
    then show False using w(6) promotable_legal [OF pol] assms(9) by metis
  qed
  then have "member_less p ob c c'" using member_less_order(3) eq(2) by metis
  then show ?thesis unfolding member_less_objective [OF pol] .
qed

theorem evaluate_selects_optimum_witness:
  "member_objective sample_policy sample_obligations (sample_member 1 Eligibility_eligible 500000)
     < member_objective sample_policy sample_obligations
         (sample_member 2 Eligibility_eligible 600000)"
  using evaluate_selects_optimum [OF evaluate_decided, where input = settled_input
      and st = "sample_set (filter (\<lambda>c. ca_path c \<in> {1, 2}) sample_members)"
      and p = sample_policy and ob = sample_obligations
      and c = "sample_member 2 Eligibility_eligible 600000"
      and c' = "sample_member 1 Eligibility_eligible 500000"] settled_run legal_one
  by (simp add: sample_defs)

definition forget_comparisons :: "PromotionDecision \<Rightarrow> PromotionDecision" where
  "forget_comparisons d = d\<lparr>pd_stats := (pd_stats d)\<lparr>ss_ordering_comparisons := 0\<rparr>\<rparr>"

lemma forget_refuse:
  "forget_comparisons (refuse d out r v) = refuse (forget_comparisons d) out r v"
  by (simp add: forget_comparisons_def refuse_def explain_def)

lemma forget_conclude:
  "forget_comparisons (conclude st p n sn d) = conclude st p n sn (forget_comparisons d)"
proof -
  have fields: "pd_ranked (forget_comparisons d) = pd_ranked d"
    "pd_indeterminate_above (forget_comparisons d) = pd_indeterminate_above d"
    "pd_search_limited (forget_comparisons d) = pd_search_limited d"
    "forget_comparisons (d\<lparr>pd_indeterminate_above := xs\<rparr>) =
       (forget_comparisons d)\<lparr>pd_indeterminate_above := xs\<rparr>"
    "forget_comparisons (d\<lparr>pd_indeterminate_above := xs, pd_ranked := as, pd_selected := e,
         pd_outcome := a, pd_reason := b\<rparr>) =
       (forget_comparisons d)\<lparr>pd_indeterminate_above := xs, pd_ranked := as, pd_selected := e,
         pd_outcome := a, pd_reason := b\<rparr>" for d xs a b e as
    by (simp_all add: forget_comparisons_def)
  show ?thesis
    by (cases "sn_first_promotable sn") (simp_all add: conclude_def forget_refuse fields Let_def)
qed

lemma concluded_permutation:
  assumes "st_ok (validate_set st)" "mset cs = mset (as_candidates st)"
  shows "forget_comparisons (concluded input (st\<lparr>as_candidates := cs\<rparr>) p ob m) =
    forget_comparisons (concluded input st p ob n)"
proof -
  have "distinct (map ca_path (as_candidates st))" using assms(1) by (simp add: validate_set_ok)
  then have rank: "ranking p ob cur cs = ranking p ob cur (as_candidates st)" for cur
    using ranking_permutation assms(2) by metis
  have len: "length cs = length (as_candidates st)" using assms(2) by (rule mset_eq_length)
  have as: "assessments input (st\<lparr>as_candidates := cs\<rparr>) p ob = assessments input st p ob"
    by (simp add: assessments_def examined_members_def rank)
  have "forget_comparisons (scanned_decision input (st\<lparr>as_candidates := cs\<rparr>) p ob m) =
      forget_comparisons (scanned_decision input st p ob n)"
    by (simp add: scanned_decision_def search_work_def examined_members_def rank len as Let_def
        described_decision_def forget_comparisons_def)
  moreover have "conclude (st\<lparr>as_candidates := cs\<rparr>) p k sn d = conclude st p k sn d" for k sn d
    by (simp add: conclude_def)
  ultimately show ?thesis
    by (simp add: concluded_def forget_conclude as len)
qed

lemma validate_set_permutation:
  assumes "st_ok (validate_set st)" "mset cs = mset (as_candidates st)"
  shows "st_ok (validate_set (st\<lparr>as_candidates := cs\<rparr>))"
proof -
  have "distinct (map ca_path cs) \<longleftrightarrow> distinct (map ca_path (as_candidates st))"
    using assms(2) by (metis mset_eq_imp_distinct_iff mset_map)
  then show ?thesis
    using assms mset_eq_length [OF assms(2)] mset_eq_setD [OF assms(2)]
    by (simp add: validate_set_ok)
qed

lemma evaluate_permutation:
  assumes "si_set input = Some st" "st_ok (validate_set st)"
    and "mset cs = mset (as_candidates st)"
  shows "\<exists>d d'. evaluate input = Inr d \<and>
    evaluate (input\<lparr>si_set := Some (st\<lparr>as_candidates := cs\<rparr>)\<rparr>) = Inr d' \<and>
    forget_comparisons d = forget_comparisons d'"
proof (cases "si_policy input = None \<or> si_obligations input = None")
  case True
  then show ?thesis
    using assms(1) by (auto simp: evaluate_def initial_decision_def split: option.split)
next
  case False
  then obtain p ob where pob: "si_policy input = Some p" "si_obligations input = Some ob" by auto
  let ?st = "st\<lparr>as_candidates := cs\<rparr>" let ?in = "input\<lparr>si_set := Some ?st\<rparr>"
  have len: "length cs = length (as_candidates st)" using assms(3) by (rule mset_eq_length)
  have described: "described_decision ?in ?st p ob = described_decision input st p ob"
    by (simp add: described_decision_def initial_decision_def len)
  have fields: "si_incumbent ?in = si_incumbent input" "si_current ?in = si_current input"
    "si_expected_set_generation ?in = si_expected_set_generation input"
    "as_generation ?st = as_generation st" by simp_all
  have guards: "evaluate_guards ?in ?st p ob d = evaluate_guards input st p ob d" for d
    by (simp only: evaluate_guards_def Let_def fields validate_set_permutation [OF assms(2,3)]
        assms(2) simp_thms if_False)
  show ?thesis
  proof (cases "guards_pass input st p ob")
    case True
    then have "guards_pass ?in ?st p ob"
      using guards guards_None by metis
    then obtain m where m: "evaluate ?in = Inr (concluded ?in ?st p ob m)"
      using evaluate_searched [of ?in ?st p ob] pob by auto
    obtain n where n: "evaluate input = Inr (concluded input st p ob n)"
      using evaluate_searched [OF assms(1) pob True] .
    have "concluded ?in ?st p ob m = concluded input ?st p ob m"
      by (simp add: concluded_def scanned_decision_def search_work_def assessments_def
          described_decision_def initial_decision_def)
    with m n concluded_permutation [OF assms(2,3)] show ?thesis by metis
  next
    case False
    then obtain r where "evaluate_guards input st p ob (described_decision input st p ob) = Some r"
      using guards_None by (metis not_Some_eq)
    then have "evaluate input = Inr r" "evaluate ?in = Inr r"
      using guards described assms(1) pob by (simp_all add: evaluate_def)
    then show ?thesis by simp
  qed
qed

text \<open>
  C29: Determinism under reordering. For a valid set, supplying the same members in another order
  gives the same decision document in every field but one: the number of comparisons the sort
  spent.
\<close>

theorem evaluate_permutation_invariant:
  assumes "si_set input = Some st" "st_ok (validate_set st)"
    and "mset cs = mset (as_candidates st)"
  shows "\<exists>d d'. evaluate input = Inr d \<and>
    evaluate (input\<lparr>si_set := Some (st\<lparr>as_candidates := cs\<rparr>)\<rparr>) = Inr d' \<and>
    forget_comparisons d = forget_comparisons d'"
  using evaluate_permutation [OF assms] .

theorem evaluate_permutation_invariant_witness:
  "\<exists>d d'. evaluate settled_input = Inr d \<and>
    evaluate (settled_input\<lparr>si_set := Some (sample_set
       [sample_member 2 Eligibility_eligible 600000, sample_member 1 Eligibility_eligible 500000])\<rparr>)
      = Inr d' \<and> forget_comparisons d = forget_comparisons d'"
  using evaluate_permutation_invariant [of settled_input
      "sample_set (filter (\<lambda>c. ca_path c \<in> {1, 2}) sample_members)"
      "[sample_member 2 Eligibility_eligible 600000, sample_member 1 Eligibility_eligible 500000]"]
    guards_passD(3) [OF sample_guards]
  by (simp add: sample_defs)

text \<open>
  C21: A proof-carrying refusal is a proof. When the answer is REFUSED_PROVEN_NO_ALTERNATE, the
  set was declared complete, every supplied member was examined, and each one is definitely not
  promotable by a statement of its own data: it is the incumbent, withdrawn or fenced, or it
  is covered by exactly the current authority and definitely fails an obligation or the minimum
  score. In particular no member is a legal alternate.
\<close>

theorem proven_no_alternate_sound:
  assumes "evaluate input = Inr d"
    and "pd_outcome d = PromotionOutcome_refused_proven_no_alternate"
  shows "\<exists>st p ob. si_set input = Some st \<and> si_policy input = Some p \<and>
    si_obligations input = Some ob \<and> guards_pass input st p ob \<and>
    as_completeness st = SetCompleteness_complete \<and>
    (\<forall>c \<in> set (as_candidates st).
       illegal_alternate input p ob c \<and> \<not> legal_alternate input p ob c)"
  using assms(1)
proof (cases rule: evaluate_cases)
  case (searched st p ob n)
  let ?as = "assessments input st p ob"
  have none: "\<forall>a \<in> set ?as. \<not> conflicting a" "\<forall>a \<in> set ?as. \<not> promotable a"
    "\<forall>a \<in> set ?as. \<not> unsettled a" "\<forall>a \<in> set ?as. \<not> stale_exclusion a"
    and all: "length (as_candidates st) \<le> unat (fp_search_limit p)"
    "as_completeness st = SetCompleteness_complete"
    using assms(2) unfolding searched(5)
    by (auto simp: conclude_outcome [OF refl] first_at_None split: if_splits option.splits)
  have "set ?as = assess_for input p ob ` set (as_candidates st)"
    using all(1) by (simp add: assessments_def examined_members_def)
  then have "illegal_alternate input p ob c" if "c \<in> set (as_candidates st)" for c
    using none that
    by (intro excluded_illegal [OF guards_passD(1) [OF searched(4)]] settled_excluded) blast+
  then show ?thesis using searched all illegal_not_legal by blast
qed (use assms(2) in \<open>auto simp: guard_outcomes_def\<close>)

theorem proven_no_alternate_sound_witness:
  "\<exists>st p ob. si_set barren_input = Some st \<and> si_policy barren_input = Some p \<and>
    si_obligations barren_input = Some ob \<and> guards_pass barren_input st p ob \<and>
    as_completeness st = SetCompleteness_complete \<and>
    (\<forall>c \<in> set (as_candidates st).
       illegal_alternate barren_input p ob c \<and> \<not> legal_alternate barren_input p ob c)"
  by (rule proven_no_alternate_sound [OF evaluate_decided barren_run])

text \<open>
  C20: Fail-closed on missing knowledge. Unless the policy allows skipping unknown members, an
  AUTHORIZED decision implies that every supplied member ranked before the winner was definitely
  excluded: it is illegal by its own data, or the generations it was declared under are stale.
\<close>

theorem evaluate_fail_closed:
  assumes "evaluate input = Inr d" "pd_outcome d = PromotionOutcome_authorized"
    and "si_set input = Some st" "si_policy input = Some p" "si_obligations input = Some ob"
    and "\<not> fp_allow_unknown_skip p"
    and "c \<in> set (as_candidates st)" "pd_selected d = ca_path c"
    and "c' \<in> set (as_candidates st)" "member_less p ob c' c"
  shows "illegal_alternate input p ob c' \<or>
    classify_overall (ca_authority c') (si_current input) = AuthorityClass_stale"
proof -
  obtain k w where w: "guards_pass input st p ob" "k < length (assessments input st p ob)"
    "w = ranking p ob (si_current input) (as_candidates st) ! k" "w \<in> set (as_candidates st)"
    "pd_selected d = ca_path w" "\<forall>j < k. \<not> promotable (assessments input st p ob ! j)"
    "\<forall>a \<in> set (assessments input st p ob). \<not> conflicting a"
    "\<not> blocked p (assessments input st p ob) k"
    using authorized_winner [OF assms(1,2)] assms(3-5) by (metis option.inject)
  have "w = c"
    using guards_passD(4) [OF w(1)] w(4,5) assms(7,8) by (auto simp: distinct_map inj_on_def)
  then obtain j where j: "j < k" "assessments input st p ob ! j = assess_for input p ob c'"
    using earlier_assessed [OF guards_passD(3) [OF w(1)] w(2) w(3) assms(9)] assms(10) by blast
  let ?a = "assess_for input p ob c'"
  have "?a \<in> set (assessments input st p ob)"
    using j w(2) by (metis nth_mem order_less_trans)
  then have "\<not> promotable ?a" "\<not> unsettled ?a" "\<not> conflicting ?a"
    using w(6,7,8) j assms(6) by (auto simp: blocked_def)
  then have "cas_verdict ?a = CandidateVerdict_excluded" "\<not> conflicting ?a"
    using settled_excluded by blast+
  then show ?thesis
    using excluded_illegal [OF guards_passD(1) [OF w(1)]]
    by (cases "stale_exclusion ?a")
      (auto simp: stale_exclusion_def member_outcome_def apply_gates_stale_reason)
qed

theorem evaluate_fail_closed_witness:
  "illegal_alternate fenced_input sample_policy sample_obligations
     (sample_member 4 Eligibility_eligible 800000) \<or>
   classify_overall (ca_authority (sample_member 4 Eligibility_eligible 800000))
     (si_current fenced_input) = AuthorityClass_stale"
proof (rule evaluate_fail_closed [OF evaluate_decided, where input = fenced_input
      and st = "sample_set (filter (\<lambda>c. ca_path c \<in> {2, 4}) sample_members)"
      and c = "sample_member 2 Eligibility_eligible 600000"])
  show "member_less sample_policy sample_obligations
      (sample_member 4 Eligibility_eligible 800000) (sample_member 2 Eligibility_eligible 600000)"
    using guards_passD(1) [OF sample_guards]
    by (simp add: member_less_objective objective_def clamp_i64_def sample_defs limit_defs)
qed (use fenced_run in \<open>simp_all add: sample_defs\<close>)

text \<open>
  C28: Completeness of the search. If the guards pass, no examined member conflicts with the
  caller's generations or is of indeterminate standing, the set fits the search limit and some
  member is a legal alternate, then the answer is AUTHORIZED.
\<close>

theorem evaluate_finds_legal:
  assumes "si_set input = Some st" "si_policy input = Some p" "si_obligations input = Some ob"
    and "guards_pass input st p ob"
    and "length (as_candidates st) \<le> unat (fp_search_limit p)"
    and "\<forall>c \<in> set (as_candidates st).
      legal_alternate input p ob c \<or>
      cas_verdict (assess_for input p ob c) = CandidateVerdict_excluded \<and>
      classify_overall (ca_authority c) (si_current input) \<noteq> AuthorityClass_conflict"
    and "\<exists>c \<in> set (as_candidates st). legal_alternate input p ob c"
  shows "\<exists>d. evaluate input = Inr d \<and> pd_outcome d = PromotionOutcome_authorized"
proof -
  let ?as = "assessments input st p ob"
  obtain n where n: "evaluate input = Inr (concluded input st p ob n)"
    using evaluate_searched [OF assms(1-4)] .
  have as: "set ?as = assess_for input p ob ` set (as_candidates st)"
    using assms(5) by (simp add: assessments_def examined_members_def)
  note legal = promotable_legal [OF guards_passD(1) [OF assms(4)], where input = input and ob = ob]
  have member: "\<not> conflicting (assess_for input p ob c) \<and> \<not> unsettled (assess_for input p ob c)"
    if "c \<in> set (as_candidates st)" for c
  proof (cases "legal_alternate input p ob c")
    case True
    then show ?thesis using legal [where c = c] by (metis CandidateVerdict.distinct(9))
  next
    case False
    then show ?thesis using bspec [OF assms(6) that] by simp
  qed
  then have "\<not> (\<exists>a \<in> set ?as. conflicting a)" and settled: "\<not> (\<exists>a \<in> set ?as. unsettled a)"
    unfolding as by blast+
  moreover have "\<exists>a \<in> set ?as. promotable a" using assms(7) legal unfolding as by blast
  then have "first_at promotable 0 ?as \<noteq> None" by (simp only: first_at_None) blast
  then obtain k where k: "first_at promotable 0 ?as = Some k" by blast
  moreover have "k < length ?as" using k by (auto simp: first_at_Some)
  then have "\<not> blocked p ?as k" using settled by (auto simp: blocked_def)
  ultimately have "pd_outcome (concluded input st p ob n) = PromotionOutcome_authorized"
    by (simp add: conclude_outcome [OF refl])
  with n show ?thesis by blast
qed

theorem evaluate_finds_legal_witness:
  "\<exists>d. evaluate settled_input = Inr d \<and> pd_outcome d = PromotionOutcome_authorized"
proof (rule evaluate_finds_legal [OF _ _ _ sample_guards])
  show "\<forall>c \<in> set (as_candidates (sample_set (filter (\<lambda>c. ca_path c \<in> {1, 2}) sample_members))).
      legal_alternate settled_input sample_policy sample_obligations c \<or>
      cas_verdict (assess_for settled_input sample_policy sample_obligations c) =
        CandidateVerdict_excluded \<and>
      classify_overall (ca_authority c) (si_current settled_input) \<noteq> AuthorityClass_conflict"
    using legal_one legal_two by (simp add: sample_set_def sample_members_def sample_member_def)
  show "\<exists>c \<in> set (as_candidates (sample_set (filter (\<lambda>c. ca_path c \<in> {1, 2}) sample_members))).
      legal_alternate settled_input sample_policy sample_obligations c"
    using legal_one by (simp add: sample_set_def sample_members_def sample_member_def)
qed (simp_all add: sample_defs limit_defs)

text \<open>
  C37: Totality and shape of the document. Every input yields a decision, always of kind
  RECOMMENDATION and bound to the caller's vector; a path is selected exactly when the outcome is
  AUTHORIZED; and the variable-length parts respect their bounds.
\<close>

theorem evaluate_document:
  "\<exists>d. evaluate input = Inr d \<and> pd_authority_kind d = AuthorityKind_recommendation \<and>
     pd_basis d = si_current input \<and>
     (selected_something d \<longleftrightarrow> pd_outcome d = PromotionOutcome_authorized) \<and>
     length (pd_explanation d) \<le> max_explanation_steps \<and>
     length (pd_indeterminate_above d) \<le> max_indeterminate_reported \<and>
     length (pd_ranked d) \<le> max_candidates_per_set"
proof -
  let ?d = "decided input"
  have winner: "selected_something ?d" if auth: "pd_outcome ?d = PromotionOutcome_authorized"
  proof -
    obtain st p ob c where "guards_pass input st p ob" "c \<in> set (as_candidates st)"
      "pd_selected ?d = ca_path c"
      using authorized_winner [OF evaluate_decided auth] by metis
    then show ?thesis
      by (auto simp: selected_something_def dest!: guards_passD(3)
          simp add: validate_set_ok validate_candidate_ok)
  qed
  from evaluate_decided [of input] show ?thesis
  proof (cases rule: evaluate_cases)
    case missing
    then show ?thesis
      by (intro exI [of _ ?d]) (simp add: evaluate_decided selected_something_def initial_shape
          refuse_bounded)
  next
    case (guarded st p ob out reason)
    then show ?thesis
      by (intro exI [of _ ?d]) (auto simp: evaluate_decided selected_something_def described_shape
          refuse_bounded guard_outcomes_def)
  next
    case (searched st p ob n)
    have "length (as_candidates st) \<le> max_candidates_per_set"
      using guards_passD(3) [OF searched(4)] by (simp add: validate_set_ok)
    then have "length (pd_ranked ?d) \<le> max_candidates_per_set"
      using scanned_shape(4) [of input st p ob n] searched(5)
      by (simp add: concluded_def conclude_shape)
    moreover have "pd_outcome ?d = PromotionOutcome_authorized \<or> \<not> selected_something ?d"
      using conclude_shape(4) searched(5)
      by (metis concluded_def selected_something_def valid_absent(2))
    ultimately show ?thesis
      using searched(5) winner conclude_bounds [OF scanned_shape(3,5)]
      by (intro exI [of _ ?d])
        (auto simp: evaluate_decided concluded_def conclude_shape scanned_shape)
  qed
qed

end
