(* ===== verification/PFF_Snapshot.thy ===== *)
theory PFF_Snapshot
  imports PFF_Recovery
begin

text \<open>
  A snapshot document restores exactly the state it was taken from (\<open>encode_snapshot\<close>,
  \<open>decode_snapshot\<close> of \<open>src/store.cpp\<close>), for every state within the documented bounds; the size
  bounds of the format suffice for all of them.
\<close>

section \<open>Payloads decode to what they encode\<close>

lemma decode_exactly_at:
  assumes "run_state g (reader_at [] (bs @ [])) = (Inr v, reader_at bs [])"
  shows "decode_exactly g bs = Inr v"
  using assms by (simp add: decode_exactly_def byte_reader_at end_of_def codec)

lemma finish_written:
  "writes f bs \<Longrightarrow> length bs \<le> max_record_payload \<Longrightarrow> finish (f payload_writer) = bs"
  using writer_append [of f bs "[]" max_record_payload]
  by (simp add: finish_def payload_writer_def byte_writer_def bw_ok_def)

text \<open>The contract of a codec carries over to the record payload it is used for.\<close>

context codec
begin

lemma payload_eq:
  "length (enc v) \<le> max_record_payload \<Longrightarrow> finish (put v payload_writer) = enc v"
  by (rule finish_written [OF put_writes])

lemma payload_decodes: "wf v \<Longrightarrow> decode_exactly get (enc v) = Inr v"
  using get_at [of v "[]" "[]"] by (intro decode_exactly_at) simp

end

lemma enc_lengths [simp]:
  "length (enc_authority a) = 48" "length (enc_evidence e) = 97" "length (enc_candidate c) = 158"
  "length (enc_obligations ob) = 31" "length (enc_policy po) = 62" "length (enc_attempt at) = 127"
  "length (enc_fence f) = 98" "length (enc_lineage l) = 115"
  by (simp_all add: enc_authority_def enc_evidence_def enc_candidate_def enc_obligations_def
      enc_policy_def enc_attempt_def enc_fence_def enc_lineage_def enc_reason_def)

lemma length_enc_set: "length (enc_set st) = 21 + 158 * length (as_candidates st)"
proof -
  have "length (concat (map enc_candidate cs)) = 158 * length cs" for cs
    by (induction cs) simp_all
  then show ?thesis by (simp add: enc_set_def)
qed

lemma length_enc_set_le:
  "st_ok (validate_set st) \<Longrightarrow> length (enc_set st) \<le> 647189"
  by (simp add: length_enc_set validate_set_ok max_candidates_per_set_def)

definition enc_epoch :: "AuthorityVector \<times> u64 \<times> u64 \<times> u64 \<times> u64 \<Rightarrow> byte list" where
  "enc_epoch e = (case e of (a, r, x, y, z) \<Rightarrow> enc_authority a @ le 8 r @ le 8 x @ le 8 y @ le 8 z)"

definition put_epoch :: "AuthorityVector \<times> u64 \<times> u64 \<times> u64 \<times> u64 \<Rightarrow> ByteWriter \<Rightarrow> ByteWriter" where
  "put_epoch e = (case e of (a, r, x, y, z) \<Rightarrow>
     w_seq [put_authority a, w_u64 r, w_u64 x, w_u64 y, w_u64 z])"

interpretation epoch_codec: codec put_epoch get_epoch enc_epoch "\<lambda>_. True"
proof
  fix e :: "AuthorityVector \<times> u64 \<times> u64 \<times> u64 \<times> u64" and pre rest
  obtain a r x y z where e: "e = (a, r, x, y, z)" by (cases e)
  have "writes (put_epoch e) (enc_epoch e @ [])"
    unfolding put_epoch_def enc_epoch_def e prod.case append_assoc
    by (intro writes_seq_Cons writes_seq_Nil writes_prims authority_codec.put_writes)
  then show "writes (put_epoch e) (enc_epoch e)" by simp
  show "run_state get_epoch (reader_at pre (enc_epoch e @ rest)) =
      (Inr e, reader_at (pre @ enc_epoch e) rest)"
    by (simp add: e get_epoch_def enc_epoch_def codec authority_codec.get_at)
qed

lemma length_enc_epoch [simp]: "length (enc_epoch e) = 80"
  by (simp add: enc_epoch_def split: prod.split)

definition enc_counters :: "DurableState \<Rightarrow> byte list" where
  "enc_counters state = le 8 (ds_attempt_sequence state) @ le 8 (ds_fence_sequence state) @
     le 8 (ds_decision_sequence state) @ le 8 (ds_fence_overflow state) @
     le 8 (ds_attempts_dropped state) @ [if ds_lineage_truncated state then 1 else 0]"

lemma length_enc_counters [simp]: "length (enc_counters state) = 41"
  by (simp add: enc_counters_def)

lemma encode_counters_eq: "encode_counters_record state = enc_counters state"
proof -
  have "writes (w_seq [w_u64 (ds_attempt_sequence state), w_u64 (ds_fence_sequence state),
      w_u64 (ds_decision_sequence state), w_u64 (ds_fence_overflow state),
      w_u64 (ds_attempts_dropped state), w_boolean (ds_lineage_truncated state)])
      (enc_counters state @ [])"
    unfolding enc_counters_def append_assoc
    by (intro writes_seq_Cons writes_seq_Nil writes_prims)
  then show ?thesis
    unfolding encode_counters_record_def
    by (intro finish_written) (simp_all add: max_record_payload_def)
qed

lemma apply_counters_eq:
  "apply_counters state (enc_counters src) =
     (ok_status, state
       \<lparr>ds_attempt_sequence := max (ds_attempt_sequence state) (ds_attempt_sequence src),
        ds_fence_sequence := max (ds_fence_sequence state) (ds_fence_sequence src),
        ds_decision_sequence := max (ds_decision_sequence state) (ds_decision_sequence src),
        ds_fence_overflow := ds_fence_overflow src,
        ds_attempts_dropped := ds_attempts_dropped src,
        ds_lineage_truncated := ds_lineage_truncated state \<or> ds_lineage_truncated src\<rparr>)"
proof -
  have bool_end: "run_state r_boolean (reader_at pre [if b then 1 else 0]) =
      (b, reader_at (pre @ [if b then 1 else 0]) [])" for pre b
    using r_boolean_at [of pre b "[]"] by simp
  show ?thesis
    by (simp add: apply_counters_def enc_counters_def byte_reader_at codec bool_end end_of_def
        Let_def del: if_split)
qed

section \<open>The body\<close>

primrec frames_from :: "u64 \<Rightarrow> (RecordType \<times> byte list) list \<Rightarrow> byte list" where
  "frames_from q [] = []"
| "frames_from q (r # rs) = frame (fst r) q (snd r) @ frames_from (q + 1) rs"

definition emittable :: "(RecordType \<times> byte list) list \<Rightarrow> bool" where
  "emittable rs \<longleftrightarrow> (\<forall>r \<in> set rs. snd r \<noteq> [] \<and> length (snd r) \<le> max_record_payload)"

lemma length_frames_from:
  "length (frames_from q rs) = (\<Sum>r \<leftarrow> rs. 28 + length (snd r))"
  by (induction rs arbitrary: q) simp_all

lemma word_succ_range:
  assumes "unat (q :: u64) + (n + Suc 0) < 2 ^ 64"
  shows "q \<noteq> - 1" "unat (q + 1) + n < 2 ^ 64" "q + 1 \<noteq> 0"
proof -
  show "q \<noteq> - 1" using assms by (auto simp: unsigned_minus_1_eq_mask mask_eq_exp_minus_1)
  then show "unat (q + 1) + n < 2 ^ 64" using assms unat_plus1_64 by simp
  show "q + 1 \<noteq> 0" using \<open>q \<noteq> - 1\<close> by (simp add: eq_neg_iff_add_eq_0)
qed

lemma list_ex_key: "x \<notin> set (map f xs) \<Longrightarrow> \<not> list_ex (\<lambda>c. f c = x) xs"
  by (induction xs) auto

lemma emit_all:
  assumes "emittable rs" "unat q + length rs < 2 ^ 64"
    and "length b + length (frames_from (q + 1) rs) \<le> m"
  shows "foldl (\<lambda>b r. emit_record r b)
      \<lparr>sb_body = \<lparr>bw_buffer = b, bw_max_size = m, bw_status = ok_status\<rparr>, sb_record_count = n,
       sb_frame_sequence = q, sb_encoding_failed = False\<rparr> rs =
    \<lparr>sb_body = \<lparr>bw_buffer = b @ frames_from (q + 1) rs, bw_max_size = m, bw_status = ok_status\<rparr>,
     sb_record_count = n + word_of_nat (length rs), sb_frame_sequence = q + word_of_nat (length rs),
     sb_encoding_failed = False\<rparr>"
  using assms
proof (induction rs arbitrary: b q n)
  case (Cons r rs)
  note q = word_succ_range [OF Cons.prems(2) [unfolded list.size]]
  have fr: "frameable (q + 1) (snd r)" "snd r \<noteq> []"
    using Cons.prems(1) q(3) by (auto simp: emittable_def frameable_def)
  have "emit_record r \<lparr>sb_body = \<lparr>bw_buffer = b, bw_max_size = m, bw_status = ok_status\<rparr>,
      sb_record_count = n, sb_frame_sequence = q, sb_encoding_failed = False\<rparr> =
    \<lparr>sb_body = \<lparr>bw_buffer = b @ frame (fst r) (q + 1) (snd r), bw_max_size = m,
       bw_status = ok_status\<rparr>,
     sb_record_count = n + 1, sb_frame_sequence = q + 1, sb_encoding_failed = False\<rparr>"
    using fr Cons.prems(3)
    by (cases r) (simp add: emit_record_def encode_journal_record_eq
        writer_append [OF writes_bytes] Let_def)
  moreover have "emittable rs" using Cons.prems(1) by (simp add: emittable_def)
  ultimately show ?case
    using Cons.IH [of "q + 1" "b @ frame (fst r) (q + 1) (snd r)" "n + 1"] Cons.prems(3) q(2)
    by (simp add: ac_simps)
qed simp

section \<open>Reading the body back\<close>

primrec apply_all :: "DurableState \<Rightarrow> (RecordType \<times> byte list) list \<Rightarrow> DurableState option" where
  "apply_all state [] = Some state"
| "apply_all state (r # rs) =
     (case apply_record state (fst r) (snd r) of
        (status, state') \<Rightarrow> if st_ok status then apply_all state' rs else None)"

lemma apply_all_append:
  "apply_all state (xs @ ys) = Option.bind (apply_all state xs) (\<lambda>s. apply_all s ys)"
  by (induction xs arbitrary: state) (simp_all split: prod.split)

lemma read_u32_frame: "read_u32_at (frame t q p @ rest) (24 + length p) = crc32c p"
proof (rule read_le(2), intro allI impI)
  fix i :: nat assume i: "i < 4"
  have "(frame t q p @ rest) ! (24 + length p + i) =
      take 4 (drop (24 + length p) (frame t q p @ rest)) ! i"
    using i by (simp add: nth_append frame_def)
  then show "(frame t q p @ rest) ! (24 + length p + i) = le 4 (crc32c p) ! i"
    by (simp only: frame_parts)
qed

lemma decode_records:
  assumes "emittable rs" "unat q + length rs < 2 ^ 64" "q \<noteq> 0"
    and "apply_all state rs = Some state'"
  shows "decode_snapshot_records (frames_from q rs) state n =
    Inr (state', n + word_of_nat (length rs))"
  using assms
proof (induction rs arbitrary: q state n)
  case Nil
  then show ?case by (simp add: decode_snapshot_records.simps)
next
  case (Cons r rs)
  obtain t p where r: "r = (t, p)" by (cases r)
  have fr: "frameable q p" using Cons.prems(1,3) r by (simp add: emittable_def frameable_def)
  obtain status st1 where ap: "apply_record state t p = (status, st1)" "st_ok status"
    "apply_all st1 rs = Some state'"
    using Cons.prems(4) r by (auto split: prod.splits if_splits)
  let ?rest = "frames_from (q + 1) rs"
  have h: "decode_journal_header (take journal_header_bytes (frame t q p @ ?rest)) =
      Inr (frame_header t q p)"
    using decode_frame_header [OF fr] by (simp only: journal_header_bytes_def frame_parts)
  have len: "unat (jh_payload_length (frame_header t q p)) = length p"
    using unat_payload_length [OF fr] by (simp add: frame_header_def)
  have tot: "journal_header_bytes + length p + journal_trailer_bytes = 28 + length p"
    by (simp add: frame_sizes)
  have parts: "take (length p) (drop journal_header_bytes (frame t q p @ ?rest)) = p"
    "read_u32_at (frame t q p @ ?rest) (journal_header_bytes + length p) = crc32c p"
    by (simp_all only: journal_header_bytes_def frame_parts read_u32_frame)
  have type: "record_type_of (jh_type (frame_header t q p)) = t"
    by (simp add: frame_header_def record_type_known)
  note step = decode_snapshot_records.simps [of "frame t q p @ ?rest" state n,
      unfolded h sum.case Let_def len tot parts type frame_parts]
  have "decode_snapshot_records (frame t q p @ ?rest) state n =
      decode_snapshot_records ?rest st1 (n + 1)"
    unfolding step using ap(1,2) by (simp add: journal_header_bytes_def)
  moreover note word_succ_range [OF Cons.prems(2) [unfolded list.size]]
  moreover have "emittable rs" using Cons.prems(1) by (simp add: emittable_def)
  ultimately show ?case
    using Cons.IH [of "q + 1" st1 "n + 1"] ap(3) r by (simp add: ac_simps)
qed

section \<open>Well-formed states\<close>

definition wf_state :: "DurableState \<Rightarrow> bool" where
  "wf_state s \<longleftrightarrow>
     (if ds_has_policy s
      then st_ok (validate_policy (ds_policy s)) \<and>
           av_policy (ds_authority s) = fp_generation (ds_policy s)
      else ds_policy s = default_policy) \<and>
     (if ds_has_obligations s
      then st_ok (validate_obligations (ds_obligations s)) \<and>
           av_obligations (ds_authority s) = so_generation (ds_obligations s)
      else ds_obligations s = default_obligations) \<and>
     (\<forall>v \<in> set (ds_sets s). st_ok (validate_set v)) \<and> distinct (map as_id (ds_sets s)) \<and>
     length (ds_sets s) \<le> max_alternate_sets \<and> length (ds_fences s) \<le> max_fences \<and>
     distinct (map ar_id (ds_attempts s)) \<and> length (ds_attempts s) \<le> max_attempts \<and>
     length (ds_lineage s) \<le> max_lineage"

lemma apply_sets:
  assumes "\<forall>v \<in> set vs. st_ok (validate_set v)" "distinct (map as_id (ds_sets state @ vs))"
    and "length (ds_sets state @ vs) \<le> max_alternate_sets"
  shows "apply_all state (map (\<lambda>v. (RecordType_alternate_set_put, encode_set_record v)) vs) =
    Some (state\<lparr>ds_sets := ds_sets state @ vs\<rparr>)"
  using assms
proof (induction vs arbitrary: state)
  case (Cons v vs)
  have "length (enc_set v) \<le> max_record_payload"
    using Cons.prems(1) length_enc_set_le [of v] by (simp add: max_record_payload_def)
  then have "decode_exactly get_set (encode_set_record v) = Inr v"
    using Cons.prems(1)
    by (simp add: encode_set_record_def set_codec.payload_eq set_codec.payload_decodes)
  moreover have "\<not> list_ex (\<lambda>c. as_id c = as_id v) (ds_sets state)"
    using Cons.prems(2) by (intro list_ex_key) auto
  ultimately show ?case
    using Cons.prems Cons.IH [of "state\<lparr>ds_sets := ds_sets state @ [v]\<rparr>"]
    by (simp add: apply_record_def apply_set_def)
qed simp

lemma apply_fences:
  "length (ds_fences state @ vs) \<le> max_fences \<Longrightarrow>
   apply_all state (map (\<lambda>v. (RecordType_fence_recorded, encode_fence_record v)) vs) =
     Some (state\<lparr>ds_fences := ds_fences state @ vs\<rparr>)"
proof (induction vs arbitrary: state)
  case (Cons v vs)
  then show ?case
    by (simp add: encode_fence_record_def fence_codec.payload_eq fence_codec.payload_decodes
        max_record_payload_def apply_record_def apply_fence_def)
qed simp

lemma apply_attempts:
  assumes "distinct (map ar_id (ds_attempts state @ vs))"
    and "length (ds_attempts state @ vs) \<le> max_attempts"
  shows "apply_all state (map (\<lambda>v. (RecordType_attempt_state, encode_attempt_record v)) vs) =
    Some (state\<lparr>ds_attempts := ds_attempts state @ vs\<rparr>)"
  using assms
proof (induction vs arbitrary: state)
  case (Cons v vs)
  have "\<not> list_ex (\<lambda>c. ar_id c = ar_id v) (ds_attempts state)"
    using Cons.prems(1) by (intro list_ex_key) auto
  then show ?case
    using Cons.prems Cons.IH [of "state\<lparr>ds_attempts := ds_attempts state @ [v]\<rparr>"]
    by (simp add: encode_attempt_record_def attempt_codec.payload_eq attempt_codec.payload_decodes
        max_record_payload_def apply_record_def apply_attempt_def)
qed simp

lemma apply_lineages:
  "length (ds_lineage state @ vs) \<le> max_lineage \<Longrightarrow>
   apply_all state (map (\<lambda>v. (RecordType_lineage_entry, encode_lineage_record v)) vs) =
     Some (state\<lparr>ds_lineage := ds_lineage state @ vs\<rparr>)"
proof (induction vs arbitrary: state)
  case (Cons v vs)
  then show ?case
    by (simp add: encode_lineage_record_def lineage_codec.payload_eq lineage_codec.payload_decodes
        max_record_payload_def apply_record_def apply_lineage_def Let_def)
qed simp

lemma encode_epoch_eq: "encode_epoch_record a r x y z = enc_epoch (a, r, x, y, z)"
  using epoch_codec.payload_eq [of "(a, r, x, y, z)"]
  by (simp add: encode_epoch_record_def put_epoch_def max_record_payload_def)

section \<open>The round trip\<close>

lemma snapshot_records_apply:
  assumes "wf_state s"
  shows "apply_all (empty_state\<lparr>ds_last_sequence := ds_last_sequence s\<rparr>) (snapshot_records s) =
    Some s"
proof -
  let ?s0 = "empty_state\<lparr>ds_last_sequence := ds_last_sequence s\<rparr>"
  let ?s1 = "?s0\<lparr>ds_attempt_sequence := ds_attempt_sequence s,
    ds_fence_sequence := ds_fence_sequence s, ds_decision_sequence := ds_decision_sequence s,
    ds_fence_overflow := ds_fence_overflow s, ds_attempts_dropped := ds_attempts_dropped s,
    ds_lineage_truncated := ds_lineage_truncated s, ds_authority := ds_authority s,
    ds_restart_count := ds_restart_count s\<rparr>"
  let ?s2 = "if ds_has_policy s then ?s1\<lparr>ds_policy := ds_policy s, ds_has_policy := True\<rparr> else ?s1"
  let ?s3 = "if ds_has_obligations s
    then ?s2\<lparr>ds_obligations := ds_obligations s, ds_has_obligations := True\<rparr> else ?s2"
  have max0: "max 0 x = x" for x :: u64 by simp
  have s1: "apply_all ?s0 [(RecordType_counters, encode_counters_record s),
      (RecordType_epoch_advance, encode_epoch_record (ds_authority s) (ds_restart_count s)
         (ds_attempt_sequence s) (ds_fence_sequence s) (ds_decision_sequence s))] = Some ?s1"
    by (simp add: apply_record_def encode_counters_eq apply_counters_eq encode_epoch_eq
        epoch_codec.payload_decodes apply_epoch_def empty_state_def max0)
  have s2: "apply_all ?s1 (if ds_has_policy s
      then [(RecordType_policy_set, encode_policy_record (ds_policy s))] else []) = Some ?s2"
    using assms
    by (simp add: wf_state_def apply_record_def encode_policy_record_def policy_codec.payload_eq
        policy_codec.payload_decodes max_record_payload_def apply_policy_def)
  have s3: "apply_all ?s2 (if ds_has_obligations s
      then [(RecordType_obligations_set, encode_obligations_record (ds_obligations s))] else [])
      = Some ?s3"
    using assms
    by (simp add: wf_state_def apply_record_def encode_obligations_record_def
        obligations_codec.payload_eq obligations_codec.payload_decodes max_record_payload_def
        apply_obligations_def)
  have empty: "ds_sets ?s3 = []" "ds_fences ?s3 = []" "ds_attempts ?s3 = []" "ds_lineage ?s3 = []"
    by (simp_all add: empty_state_def)
  have s4: "apply_all ?s0 (snapshot_records s) = Some (?s3\<lparr>ds_sets := ds_sets s,
      ds_fences := ds_fences s, ds_attempts := ds_attempts s, ds_lineage := ds_lineage s\<rparr>)"
    unfolding snapshot_records_def apply_all_append s1 s2 s3 Option.bind.simps
    using assms empty
    by (simp add: apply_sets apply_fences apply_attempts apply_lineages wf_state_def
        empty_state_def)
  moreover have "?s3\<lparr>ds_sets := ds_sets s, ds_fences := ds_fences s, ds_attempts := ds_attempts s,
      ds_lineage := ds_lineage s\<rparr> = s"
    using assms by (cases s) (auto simp: wf_state_def empty_state_def)
  ultimately show ?thesis by simp
qed

text \<open>The sizes of the parts; together they stay below the bounds of the format.\<close>

lemma sum_list_le: "\<forall>v \<in> set vs. g v \<le> (K :: nat) \<Longrightarrow> sum_list (map g vs) \<le> length vs * K"
  by (induction vs) (auto intro: add_mono)

lemmas payload_eqs =
  encode_set_record_def set_codec.payload_eq encode_fence_record_def fence_codec.payload_eq
  encode_attempt_record_def attempt_codec.payload_eq encode_lineage_record_def
  lineage_codec.payload_eq encode_policy_record_def policy_codec.payload_eq
  encode_obligations_record_def obligations_codec.payload_eq encode_counters_eq encode_epoch_eq

lemma payload_lengths:
  "length (encode_counters_record s) = 41" "length (encode_epoch_record a r x y z) = 80"
  "length (encode_policy_record p) = 62" "length (encode_obligations_record ob) = 31"
  "length (encode_fence_record f) = 98" "length (encode_attempt_record at) = 127"
  "length (encode_lineage_record l) = 115"
  by (simp_all add: payload_eqs max_record_payload_def)

lemma set_payload_length:
  assumes "st_ok (validate_set v)"
  shows "0 < length (encode_set_record v)" "length (encode_set_record v) \<le> 647189"
  using length_enc_set_le [OF assms] length_enc_set [of v]
  by (simp_all add: payload_eqs max_record_payload_def)

lemma snapshot_records_small:
  assumes "wf_state s"
  shows "emittable (snapshot_records s)" "length (snapshot_records s) \<le> 9284"
    "length (frames_from q (snapshot_records s)) \<le> 42682758"
proof -
  have sets: "\<forall>v \<in> set (ds_sets s). st_ok (validate_set v)"
    and len: "length (ds_sets s) \<le> 64" "length (ds_fences s) \<le> 4096"
      "length (ds_attempts s) \<le> 1024" "length (ds_lineage s) \<le> 4096"
    using assms by (simp_all add: wf_state_def max_alternate_sets_def max_fences_def
        max_attempts_def max_lineage_def)
  show "emittable (snapshot_records s)"
    using sets set_payload_length payload_lengths
    by (fastforce simp: emittable_def snapshot_records_def max_record_payload_def
        dest!: arg_cong [of _ _ length])
  show "length (snapshot_records s) \<le> 9284"
    using len by (simp add: snapshot_records_def)
  let ?size = "\<lambda>r :: RecordType \<times> byte list. 28 + length (snd r)"
  have "(\<Sum>r \<leftarrow> map (\<lambda>v. (RecordType_alternate_set_put, encode_set_record v)) (ds_sets s). ?size r)
      \<le> length (ds_sets s) * 647217"
    using sets set_payload_length(2) unfolding map_map by (intro sum_list_le) fastforce
  moreover have "(\<Sum>r \<leftarrow> map (\<lambda>v. (RecordType_fence_recorded, encode_fence_record v)) (ds_fences s).
      ?size r) = length (ds_fences s) * 126"
    "(\<Sum>r \<leftarrow> map (\<lambda>v. (RecordType_attempt_state, encode_attempt_record v)) (ds_attempts s).
      ?size r) = length (ds_attempts s) * 155"
    "(\<Sum>r \<leftarrow> map (\<lambda>v. (RecordType_lineage_entry, encode_lineage_record v)) (ds_lineage s).
      ?size r) = length (ds_lineage s) * 143"
    by (simp_all add: payload_lengths comp_def sum_list_triv)
  ultimately show "length (frames_from q (snapshot_records s)) \<le> 42682758"
    using len by (simp add: length_frames_from snapshot_records_def payload_lengths)
qed

definition snapshot_head :: "DurableState \<Rightarrow> byte list" where
  "snapshot_head s =
     le 4 snapshot_magic @ le 2 durable_format_version @ le 2 (0 :: u16) @
     le 8 (ds_last_sequence s) @ le 4 (word_of_nat (length (snapshot_records s)) :: u32) @
     le 4 (word_of_nat (length (frames_from 1 (snapshot_records s))) :: u32) @
     le 4 (0 :: u32) @ le 4 (0 :: u32)"

definition snapshot_prefix :: "DurableState \<Rightarrow> byte list" where
  "snapshot_prefix s = snapshot_head s @ le 4 (crc32c (snapshot_head s)) @ le 4 (0 :: u32)"

lemma length_snapshot_prefix [simp]:
  "length (snapshot_head s) = 32" "length (snapshot_prefix s) = 40"
  by (simp_all add: snapshot_head_def snapshot_prefix_def)

lemma encode_snapshot_eq:
  assumes "wf_state s"
  shows "encode_snapshot s =
    (let body = snapshot_prefix s @ frames_from 1 (snapshot_records s)
     in body @ le 4 (crc32c body) @ le 4 snapshot_footer_magic)"
proof -
  define m where "m = max_snapshot_bytes + 64"
  let ?body = "frames_from 1 (snapshot_records s)"
  note small = snapshot_records_small [OF assms]
  have m: "32 \<le> m" "48 + length ?body \<le> m" "length ?body \<le> max_snapshot_bytes"
    using small(3) [of 1] by (simp_all add: m_def max_snapshot_bytes_def)
  have b: "snapshot_body s =
      \<lparr>sb_body = \<lparr>bw_buffer = ?body, bw_max_size = max_snapshot_bytes, bw_status = ok_status\<rparr>,
       sb_record_count = word_of_nat (length (snapshot_records s)),
       sb_frame_sequence = word_of_nat (length (snapshot_records s)),
       sb_encoding_failed = False\<rparr>"
    using emit_all [OF small(1), of 0 "[]" max_snapshot_bytes 0] small(2) m(3)
    by (simp add: snapshot_body_def byte_writer_def)
  have "writes (w_seq [w_u32 snapshot_magic, w_u16 durable_format_version, w_u16 0,
      w_u64 (ds_last_sequence s), w_u32 (word_of_nat (length (snapshot_records s))),
      w_u32 (word_of_nat (length ?body)), w_u32 0, w_u32 0]) (snapshot_head s @ [])"
    unfolding snapshot_head_def append_assoc
    by (intro writes_seq_Cons writes_seq_Nil writes_prims)
  then have head: "w_seq [w_u32 snapshot_magic, w_u16 durable_format_version, w_u16 0,
      w_u64 (ds_last_sequence s), w_u32 (word_of_nat (length (snapshot_records s))),
      w_u32 (word_of_nat (length ?body)), w_u32 0, w_u32 0] (byte_writer m) =
      \<lparr>bw_buffer = snapshot_head s, bw_max_size = m, bw_status = ok_status\<rparr>"
    using writer_append [of _ "snapshot_head s" "[]" m] m by (simp add: byte_writer_def)
  show ?thesis
    using m unfolding encode_snapshot_def m_def [symmetric]
    by (simp add: b head bw_ok_def finish_def Let_def snapshot_prefix_def
        writer_append [OF writes_prims(3)] writer_append [OF writes_bytes])
qed

definition snapshot_header_of :: "DurableState \<Rightarrow> SnapshotHeader" where
  "snapshot_header_of s =
     \<lparr>sh_magic = snapshot_magic, sh_version = durable_format_version, sh_flags = 0,
      sh_sequence = ds_last_sequence s,
      sh_record_count = word_of_nat (length (snapshot_records s)),
      sh_payload_length = word_of_nat (length (frames_from 1 (snapshot_records s))),
      sh_header_crc = crc32c (snapshot_head s)\<rparr>"

lemma get_snapshot_header_at:
  "run_state get_snapshot_header (byte_reader (snapshot_prefix s)) =
     (snapshot_header_of s, reader_at (snapshot_prefix s) [])"
proof -
  have "run_state get_snapshot_header (reader_at [] (snapshot_head s @ le 4 c @ le 4 (0 :: u32))) =
      ((snapshot_header_of s)\<lparr>sh_header_crc := c\<rparr>,
       reader_at (snapshot_head s @ le 4 c @ le 4 (0 :: u32)) [])" for c
    by (simp add: get_snapshot_header_def snapshot_head_def snapshot_header_of_def codec)
  then show ?thesis
    by (simp add: byte_reader_at snapshot_prefix_def snapshot_header_of_def)
qed

lemma read_u32_append: "read_u32_at (xs @ le 4 v @ ys) (length xs) = v"
  by (rule read_le(2)) (simp add: nth_append)

lemma decode_encode_snapshot:
  assumes "wf_state s"
  shows "decode_snapshot (encode_snapshot s) = Inr s"
proof -
  let ?rs = "snapshot_records s"
  define body where "body = frames_from 1 ?rs"
  define pre where "pre = snapshot_prefix s @ body"
  define bytes where "bytes = pre @ le 4 (crc32c pre) @ le 4 snapshot_footer_magic"
  note small = snapshot_records_small [OF assms]
  have body: "length body \<le> 42682758" using small(3) by (simp add: body_def)
  then have unat: "unat (word_of_nat (length body) :: u32) = length body"
    "unat (word_of_nat (length ?rs) :: u32) = length ?rs"
    using small(2) by (simp_all add: unat_of_nat)
  have len: "length bytes = 48 + length body" "length pre = 40 + length body"
    by (simp_all add: bytes_def pre_def)
  have take40: "take 40 bytes = snapshot_prefix s" "take 32 bytes = snapshot_head s"
    "take (40 + length body) bytes = pre" "take (length body) (drop 40 bytes) = body"
    by (simp_all add: bytes_def pre_def snapshot_prefix_def)
  have crcs: "read_u32_at bytes (40 + length body) = crc32c pre"
    "read_u32_at bytes (40 + length body + 4) = snapshot_footer_magic"
    using read_u32_append [of pre "crc32c pre"] read_u32_append [of "pre @ le 4 (crc32c pre)"
        snapshot_footer_magic "[]"] len(2)
    by (simp_all add: bytes_def)
  have header: "st_ok (snapshot_header_status bytes (snapshot_header_of s))"
    using body small(2) unat
    by (simp add: snapshot_header_status_def snapshot_header_of_def take40
        kSnapshotHeaderCrcOffset_def max_snapshot_bytes_def max_snapshot_records_def
        flip: body_def)
  have framing: "st_ok (snapshot_frame_status bytes (length body))"
    using len crcs by (simp add: snapshot_frame_status_def snapshot_header_bytes_def take40)
  have records: "decode_snapshot_records body
      (empty_state\<lparr>ds_last_sequence := ds_last_sequence s\<rparr>) 0 = Inr (s, word_of_nat (length ?rs))"
    using decode_records [OF small(1), of 1 _ s 0] snapshot_records_apply [OF assms] small(2)
    by (simp add: body_def)
  have fields: "sh_sequence (snapshot_header_of s) = ds_last_sequence s"
    "unat (sh_payload_length (snapshot_header_of s)) = length body"
    "sh_record_count (snapshot_header_of s) = word_of_nat (length ?rs)"
    using unat by (simp_all add: snapshot_header_of_def flip: body_def)
  have "decode_snapshot bytes = Inr s"
    using len header framing
    by (simp add: decode_snapshot_def snapshot_header_bytes_def take40 get_snapshot_header_at
        fields records Let_def)
  then show ?thesis
    using encode_snapshot_eq [OF assms] by (simp add: bytes_def pre_def body_def Let_def)
qed

lemma encode_snapshot_size:
  "wf_state s \<Longrightarrow> encode_snapshot s \<noteq> [] \<and> length (encode_snapshot s) \<le> max_snapshot_bytes + 64"
  using encode_snapshot_eq [of s] snapshot_records_small(3) [of s 1]
  by (auto simp: Let_def max_snapshot_bytes_def snapshot_prefix_def snapshot_head_def le_def)

end
