(* ===== verification/PFF_Document.thy ===== *)
theory PFF_Document
  imports PFF_Selection PFF_Snapshot
begin

unbundle bit_operations_syntax

text \<open>
  The decision document of \<open>src/decision.cpp\<close>: canonical bytes, digest and description, and what
  they inherit from the selector and the wire format together. Every decision the selector makes
  has a canonical form, it decodes to the decision, and it does not depend on the order in which
  the members were supplied.
\<close>

section \<open>Model\<close>

definition canonical_bytes :: "PromotionDecision \<Rightarrow> byte list" where
  "canonical_bytes decision = finish (put_decision decision (byte_writer max_record_payload))"

definition decision_digest :: "PromotionDecision \<Rightarrow> u64" where
  "decision_digest decision = fnv1a64 (canonical_bytes decision)"

text \<open>\<open>std::to_string\<close> of an unsigned value.\<close>

fun decimal :: "nat \<Rightarrow> string" where
  "decimal n = (if n < 10 then [kDigits ! n] else decimal (n div 10) @ [kDigits ! (n mod 10)])"

declare decimal.simps [simp del]

definition describe :: "PromotionDecision \<Rightarrow> string" where
  "describe decision =
     outcome_to_string (pd_outcome decision) @
     '' reason='' @ reason_to_string (pd_reason decision) @
     '' incumbent='' @ id_hex (pd_incumbent decision) @
     '' selected='' @
       (if valid (pd_selected decision) then id_hex (pd_selected decision) else ''none'') @
     '' examined='' @ decimal (pd_examined decision) @
     ''/'' @ decimal (pd_supplied decision) @
     '' policy_gen='' @ id_hex (pd_policy_generation decision) @
     '' evidence='' @ provenance_to_string (pd_provenance decision) @
     '' authority='' @ authority_kind_to_string (pd_authority_kind decision)"

section \<open>Every decision of the selector has a document\<close>

text \<open>The document leaves the work counters out.\<close>

definition documented :: "PromotionDecision \<Rightarrow> PromotionDecision" where
  "documented d = d\<lparr>pd_stats := zero_stats\<rparr>"

lemma put_documented: "put_decision (documented d) = put_decision d"
  by (simp add: put_decision_def documented_def)

lemma canonical_documented: "canonical_bytes (documented d) = canonical_bytes d"
  by (simp add: canonical_bytes_def put_documented)

lemma assess_terms:
  assumes "st_ok (validate_policy p)"
  shows "consistent_terms (cas_terms (assess p ob cur fenced inc c))"
proof -
  obtain t where t: "compute_score p ob (ca_evidence c) (ca_upstream_rank c) = Inr t"
    using compute_score_valid [OF assms] by metis
  then have "consistent_terms t"
    by (auto simp: compute_score_def consistent_terms_def sum_terms_def Let_def
        split: option.splits)
  then show ?thesis by (simp add: assess_def make_entry_def t Let_def)
qed

lemma refuse_counts [simp]:
  "pd_examined (refuse d out r v) = pd_examined d" "pd_supplied (refuse d out r v) = pd_supplied d"
  by (simp_all add: refuse_def explain_def)

lemma conclude_terms:
  "map cas_terms (pd_ranked (conclude st p n sn d)) = map cas_terms (pd_ranked d)"
  "pd_examined (conclude st p n sn d) = pd_examined d"
  "pd_supplied (conclude st p n sn d) = pd_supplied d"
proof -
  have same: "map cas_terms (xs[i := (xs ! i)\<lparr>cas_verdict := v, cas_reason := r\<rparr>]) = map cas_terms xs"
    for xs i v r
    by (cases "i < length xs") (simp_all add: map_update list_update_same_conv list_update_beyond)
  show "map cas_terms (pd_ranked (conclude st p n sn d)) = map cas_terms (pd_ranked d)"
    by (cases "sn_first_promotable sn") (simp_all add: conclude_def Let_def same)
  show "pd_examined (conclude st p n sn d) = pd_examined d"
    "pd_supplied (conclude st p n sn d) = pd_supplied d"
    by (cases "sn_first_promotable sn"; simp add: conclude_def Let_def)+
qed

lemma evaluate_wf:
  assumes "evaluate input = Inr d"
    and "\<And>st. si_set input = Some st \<Longrightarrow> length (as_candidates st) < 2 ^ 64"
  shows "wf_decision (documented d)"
  using assms(1)
proof (cases rule: evaluate_cases)
  case missing
  have "pd_examined (initial_decision input) = 0" "pd_supplied (initial_decision input) = 0"
    by (simp_all add: initial_decision_def empty_decision_def)
  then show ?thesis
    unfolding missing by (simp add: wf_decision_def documented_def initial_shape refuse_bounded)
next
  case (guarded st p ob out reason)
  have "pd_examined (described_decision input st p ob) = 0"
    "pd_supplied (described_decision input st p ob) < 2 ^ 64"
    using assms(2) [OF guarded(1)]
    by (simp_all add: described_decision_def initial_decision_def empty_decision_def)
  then show ?thesis
    unfolding guarded(4)
    by (simp add: wf_decision_def documented_def described_shape refuse_bounded)
next
  case (searched st p ob n)
  let ?d = "scanned_decision input st p ob n"
  have few: "length (as_candidates st) \<le> max_candidates_per_set"
    using guards_passD(3) [OF searched(4)] by (simp add: validate_set_ok)
  have "cas_terms ` set (pd_ranked d) = cas_terms ` set (pd_ranked ?d)"
    using conclude_terms(1) searched(5) by (metis concluded_def list.set_map)
  moreover have "\<forall>a \<in> set (pd_ranked ?d). consistent_terms (cas_terms a)"
    using assess_terms [OF guards_passD(1) [OF searched(4)]]
    by (auto simp: scanned_decision_def Let_def assessments_def)
  ultimately have "\<forall>a \<in> set (pd_ranked d). consistent_terms (cas_terms a)" by force
  moreover have "pd_examined ?d < 2 ^ 64" "pd_supplied ?d < 2 ^ 64"
    using few by (simp_all add: scanned_decision_def Let_def described_decision_def
        max_candidates_per_set_def)
  ultimately show ?thesis
    using few scanned_shape(3-5) [of input st p ob n] conclude_bounds [OF scanned_shape(3,5)]
    by (simp add: wf_decision_def documented_def searched(5) concluded_def conclude_shape
        conclude_terms max_candidates_per_set_def max_assessments_reported_def)
qed

lemma length_enc_decision:
  assumes "wf_decision d"
  shows "length (enc_decision d) \<le> max_record_payload"
proof -
  have a: "length (concat (map enc_assessment as)) = 56 * length as" for as
    by (induction as) (simp_all add: enc_assessment_def enc_terms_def enc_reason_def)
  have i: "length (concat (map (le 8) (is :: u64 list))) = 8 * length is" for "is"
    by (induction "is") simp_all
  have e: "length (concat (map enc_step es)) = 10 * length es" for es
    by (induction es) (simp_all add: enc_step_def enc_reason_def)
  show ?thesis
    using assms
    by (simp add: enc_decision_def enc_decision_tail_def enc_reason_def a i e wf_decision_def
        max_assessments_reported_def max_indeterminate_reported_def max_explanation_steps_def
        max_record_payload_def)
qed

lemma canonical_bytes_eq:
  "wf_decision (documented d) \<Longrightarrow> canonical_bytes d = enc_decision (documented d)"
  using decision_codec.payload_eq [OF length_enc_decision, of "documented d"]
  by (simp add: canonical_bytes_def payload_writer_def put_documented)

section \<open>Properties\<close>

text \<open>
  C30: Every decision of the selector has a canonical document, and the document is faithful:
  decoding it consumes all of its bytes and gives the decision back, the work counters apart.
\<close>

theorem decision_round_trip:
  assumes "evaluate input = Inr d"
    and "\<And>st. si_set input = Some st \<Longrightarrow> length (as_candidates st) < 2 ^ 64"
  shows "canonical_bytes d \<noteq> [] \<and> decode_exactly get_decision (canonical_bytes d) = Inr (documented d)"
proof -
  note wf = evaluate_wf [OF assms]
  have "canonical_bytes d = enc_decision (documented d)" by (rule canonical_bytes_eq [OF wf])
  then show ?thesis
    using decision_codec.payload_decodes [OF wf] by (simp add: enc_decision_def le_def)
qed

theorem decision_round_trip_witness:
  "decode_exactly get_decision (canonical_bytes (decided settled_input)) =
     Inr (documented (decided settled_input))"
proof -
  have "length (as_candidates st) < 2 ^ 64" if "si_set settled_input = Some st" for st
    using that by (auto simp: sample_defs)
  then show ?thesis using decision_round_trip [OF evaluate_decided, of settled_input] by blast
qed

text \<open>
  The canonical document and its digest do not depend on the order in which the members of a
  valid set are supplied: they are equal byte for byte.
\<close>

theorem document_permutation_invariant:
  assumes "si_set input = Some st" "st_ok (validate_set st)"
    and "mset cs = mset (as_candidates st)"
  shows "\<exists>d d'. evaluate input = Inr d \<and>
    evaluate (input\<lparr>si_set := Some (st\<lparr>as_candidates := cs\<rparr>)\<rparr>) = Inr d' \<and>
    canonical_bytes d = canonical_bytes d' \<and> decision_digest d = decision_digest d' \<and>
    describe d = describe d'"
proof -
  obtain d d' where d: "evaluate input = Inr d"
    "evaluate (input\<lparr>si_set := Some (st\<lparr>as_candidates := cs\<rparr>)\<rparr>) = Inr d'"
    "forget_comparisons d = forget_comparisons d'"
    using evaluate_permutation [OF assms] by blast
  have "documented (forget_comparisons e) = documented e"
    "describe (forget_comparisons e) = describe e" for e
    by (simp_all add: documented_def forget_comparisons_def describe_def)
  then have "documented d = documented d'" "describe d = describe d'" using d(3) by metis+
  then show ?thesis using d canonical_documented by (metis decision_digest_def)
qed

theorem document_permutation_invariant_witness:
  "\<exists>d d'. evaluate settled_input = Inr d \<and>
    evaluate (settled_input\<lparr>si_set := Some (sample_set
       [sample_member 2 Eligibility_eligible 600000, sample_member 1 Eligibility_eligible 500000])\<rparr>)
      = Inr d' \<and> canonical_bytes d = canonical_bytes d'"
  using document_permutation_invariant [of settled_input
      "sample_set (filter (\<lambda>c. ca_path c \<in> {1, 2}) sample_members)"
      "[sample_member 2 Eligibility_eligible 600000, sample_member 1 Eligibility_eligible 500000]"]
    guards_passD(3) [OF sample_guards]
  by (simp add: sample_defs) metis

text \<open>
  C38: The table-driven CRC-32C computes the bit-serial division of the reflected Castagnoli
  polynomial, one byte being folded in by eight single-bit steps.
\<close>

theorem crc32c_reference:
  "crc32c data = foldl crc_byte 0xFFFFFFFF data XOR 0xFFFFFFFF"
  by (simp add: crc32c_def crc32c_update_foldl kCrc32cInit_def kCrc32cXorOut_def)

end
