(* ===== verification/PFF_Message.thy ===== *)
theory PFF_Message
  imports PFF_Protocol PFF_Document
begin

text \<open>
  The message payloads of \<open>include/pff/protocol.hpp\<close> and \<open>src/protocol.cpp\<close>: the session
  handshake, the session header every request starts with, the request bodies and the responses.
  A response payload holds exactly one value, so its decoder is \<open>decode_exactly\<close> (the source's
  \<open>finish_reader\<close>); a request body is read from the position behind the session header.

  Shown: the \<open>codec\<close> contract for every payload, hence that what one side encodes the other side
  decodes, from any position. Field prefixes: \<open>hq_\<close> hello request, \<open>hr_\<close> hello response,
  \<open>sh_\<close> session header, \<open>er_\<close> error, \<open>sp_\<close> status, \<open>pm_\<close> promote, \<open>at_\<close> attempt,
  \<open>ln_\<close> lineage.
\<close>

section \<open>Data\<close>

record HelloRequest =
  hq_protocol :: u16
  hq_client :: string
  hq_nonce :: u64

record HelloResponse =
  hr_protocol :: u16
  hr_session :: SessionId
  hr_epoch :: Epoch
  hr_boot :: BootId
  hr_incarnation :: IncarnationId
  hr_authority :: AuthorityVector
  hr_max_requests_per_session :: u64

record SessionHeader =
  sh_session :: SessionId
  sh_epoch :: Epoch
  sh_boot :: BootId
  sh_request_sequence :: u64

record ErrorResponse =
  er_code :: Code
  er_reason :: Reason
  er_detail :: string

record StatusResponse =
  sp_incarnation :: IncarnationId
  sp_epoch :: Epoch
  sp_boot :: BootId
  sp_authority :: AuthorityVector
  sp_stats :: FabricStats
  sp_recovery :: RecoveryReport
  sp_active_sessions :: u64
  sp_requests_handled :: u64
  sp_policy_installed :: bool
  sp_obligations_installed :: bool
  sp_alternate_sets :: u64
  sp_active_attempts :: u64
  sp_evidence_entries :: u64
  sp_fencing_events :: u64

record PromoteResponse =
  pm_decision :: PromotionDecision
  pm_grant :: GrantId
  pm_attempt :: AttemptId

record AttemptResponse =
  at_found :: bool
  at_record :: AttemptRecord

record LineageResponse =
  ln_truncated :: bool
  ln_entries :: "LineageEntry list"

section \<open>Shared steps\<close>

text \<open>A \<open>std::string\<close> is the sequence of its bytes.\<close>

definition string_bytes :: "string \<Rightarrow> byte list" where
  "string_bytes s = map of_char s"

definition bytes_string :: "byte list \<Rightarrow> string" where
  "bytes_string bs = map (\<lambda>b. char_of (unat b)) bs"

definition get_string :: "size_t \<Rightarrow> string Result reader" where
  "get_string max_bytes = r_try (r_string max_bytes) (\<lambda>bs. r_done (bytes_string bs))"

definition read_reason :: "Reason Result reader" where
  "read_reason = get_reason ''reason out of range''"

definition put_fabric_stats :: "FabricStats \<Rightarrow> ByteWriter \<Rightarrow> ByteWriter" where
  "put_fabric_stats s = w_seq
     [w_u64 (fs_promotions_authorized s), w_u64 (fs_promotions_committed s),
      w_u64 (fs_promotions_refused s), w_u64 (fs_promotions_indeterminate s),
      w_u64 (fs_fences_recorded s), w_u64 (fs_stale_completions_rejected s),
      w_u64 (fs_rollbacks s), w_u64 (fs_reversions s), w_u64 (fs_revalidations s),
      w_u64 (fs_journal_records s), w_u64 (fs_snapshots_written s), w_u64 (fs_restarts s),
      w_u64 (fs_evidence_accepted s), w_u64 (fs_evidence_rejected s),
      w_u64 (fs_attempts_dropped s)]"

definition get_fabric_stats :: "FabricStats Result reader" where
  "get_fabric_stats = do {
     promotions_authorized \<leftarrow> r_u64;
     promotions_committed \<leftarrow> r_u64;
     promotions_refused \<leftarrow> r_u64;
     promotions_indeterminate \<leftarrow> r_u64;
     fences_recorded \<leftarrow> r_u64;
     stale_completions_rejected \<leftarrow> r_u64;
     rollbacks \<leftarrow> r_u64;
     reversions \<leftarrow> r_u64;
     revalidations \<leftarrow> r_u64;
     journal_records \<leftarrow> r_u64;
     snapshots_written \<leftarrow> r_u64;
     restarts \<leftarrow> r_u64;
     evidence_accepted \<leftarrow> r_u64;
     evidence_rejected \<leftarrow> r_u64;
     attempts_dropped \<leftarrow> r_u64;
     r_checked (r_done
       \<lparr>fs_promotions_authorized = promotions_authorized,
        fs_promotions_committed = promotions_committed,
        fs_promotions_refused = promotions_refused,
        fs_promotions_indeterminate = promotions_indeterminate,
        fs_fences_recorded = fences_recorded,
        fs_stale_completions_rejected = stale_completions_rejected,
        fs_rollbacks = rollbacks, fs_reversions = reversions, fs_revalidations = revalidations,
        fs_journal_records = journal_records, fs_snapshots_written = snapshots_written,
        fs_restarts = restarts, fs_evidence_accepted = evidence_accepted,
        fs_evidence_rejected = evidence_rejected, fs_attempts_dropped = attempts_dropped\<rparr>) }"

definition put_recovery :: "RecoveryReport \<Rightarrow> ByteWriter \<Rightarrow> ByteWriter" where
  "put_recovery v = w_seq
     [w_boolean (rr_snapshot_loaded v), w_u64 (rr_snapshot_sequence v),
      w_u64 (word_of_nat (rr_records_replayed v)), w_u64 (word_of_nat (rr_records_skipped v)),
      w_boolean (rr_torn_tail_present v), w_boolean (rr_torn_tail_recovered v),
      w_u64 (rr_truncated_bytes v), w_boolean (rr_inspection_only v),
      w_boolean (rr_journal_absent v), w_u64 (rr_journal_bytes v)]"

definition get_recovery :: "RecoveryReport Result reader" where
  "get_recovery = do {
     snapshot_loaded \<leftarrow> r_boolean;
     snapshot_sequence \<leftarrow> r_u64;
     records_replayed \<leftarrow> r_u64;
     records_skipped \<leftarrow> r_u64;
     torn_tail_present \<leftarrow> r_boolean;
     torn_tail_recovered \<leftarrow> r_boolean;
     truncated_bytes \<leftarrow> r_u64;
     inspection_only \<leftarrow> r_boolean;
     journal_absent \<leftarrow> r_boolean;
     journal_bytes \<leftarrow> r_u64;
     r_checked (r_done
       \<lparr>rr_snapshot_loaded = snapshot_loaded, rr_snapshot_sequence = snapshot_sequence,
        rr_records_replayed = unat records_replayed, rr_records_skipped = unat records_skipped,
        rr_torn_tail_present = torn_tail_present, rr_torn_tail_recovered = torn_tail_recovered,
        rr_truncated_bytes = truncated_bytes, rr_inspection_only = inspection_only,
        rr_journal_absent = journal_absent, rr_journal_bytes = journal_bytes\<rparr>) }"

section \<open>Handshake\<close>

definition put_hello_request :: "HelloRequest \<Rightarrow> ByteWriter \<Rightarrow> ByteWriter" where
  "put_hello_request v = w_seq
     [w_u16 (hq_protocol v), w_string (string_bytes (hq_client v)) max_name_bytes,
      w_u64 (hq_nonce v)]"

definition encode_hello_request :: "HelloRequest \<Rightarrow> byte list" where
  "encode_hello_request v = finish (put_hello_request v payload_writer)"

definition get_hello_request :: "HelloRequest Result reader" where
  "get_hello_request = do {
     protocol \<leftarrow> r_u16;
     r_try (get_string max_name_bytes) (\<lambda>client. do {
     nonce \<leftarrow> r_u64;
     r_done \<lparr>hq_protocol = protocol, hq_client = client, hq_nonce = nonce\<rparr> }) }"

definition decode_hello_request :: "byte list \<Rightarrow> HelloRequest Result" where
  "decode_hello_request bytes = decode_exactly get_hello_request bytes"

definition put_hello_response :: "HelloResponse \<Rightarrow> ByteWriter \<Rightarrow> ByteWriter" where
  "put_hello_response v = w_seq
     [w_u16 (hr_protocol v), w_u64 (hr_session v), w_u64 (hr_epoch v), w_u64 (hr_boot v),
      w_u64 (hr_incarnation v), put_authority (hr_authority v),
      w_u64 (hr_max_requests_per_session v)]"

definition encode_hello_response :: "HelloResponse \<Rightarrow> byte list" where
  "encode_hello_response v = finish (put_hello_response v payload_writer)"

definition get_hello_response :: "HelloResponse Result reader" where
  "get_hello_response = do {
     protocol \<leftarrow> r_u16;
     session \<leftarrow> r_u64;
     epoch \<leftarrow> r_u64;
     boot \<leftarrow> r_u64;
     incarnation \<leftarrow> r_u64;
     r_try get_authority (\<lambda>authority. do {
     max_requests_per_session \<leftarrow> r_u64;
     r_done \<lparr>hr_protocol = protocol, hr_session = session, hr_epoch = epoch, hr_boot = boot,
             hr_incarnation = incarnation, hr_authority = authority,
             hr_max_requests_per_session = max_requests_per_session\<rparr> }) }"

definition decode_hello_response :: "byte list \<Rightarrow> HelloResponse Result" where
  "decode_hello_response bytes = decode_exactly get_hello_response bytes"

section \<open>Responses\<close>

text \<open>The detail is truncated to its bound rather than allowed to fail the whole response.\<close>

definition put_error_response :: "ErrorResponse \<Rightarrow> ByteWriter \<Rightarrow> ByteWriter" where
  "put_error_response v =
     (let detail = (if length (er_detail v) > max_reason_bytes
                    then take max_reason_bytes (er_detail v) else er_detail v)
      in w_seq [w_u8 (word_of_nat (code_value (er_code v))), put_reason (er_reason v),
                w_string (string_bytes detail) max_reason_bytes])"

definition encode_error_response :: "ErrorResponse \<Rightarrow> byte list" where
  "encode_error_response v = finish (put_error_response v payload_writer)"

definition get_error_response :: "ErrorResponse Result reader" where
  "get_error_response = do {
     code \<leftarrow> r_u8;
     r_checked
       (if unat code > max_code_value
        then r_refuse (Status Code_invalid Reason_enum_invalid ''error code out of range'')
        else
     r_try read_reason (\<lambda>reason.
     r_try (get_string max_reason_bytes) (\<lambda>detail.
     r_done \<lparr>er_code = code_table ! unat code, er_reason = reason, er_detail = detail\<rparr>))) }"

definition decode_error_response :: "byte list \<Rightarrow> ErrorResponse Result" where
  "decode_error_response bytes = decode_exactly get_error_response bytes"

definition put_status_response :: "StatusResponse \<Rightarrow> ByteWriter \<Rightarrow> ByteWriter" where
  "put_status_response v = w_seq
     [w_u64 (sp_incarnation v), w_u64 (sp_epoch v), w_u64 (sp_boot v),
      put_authority (sp_authority v), put_fabric_stats (sp_stats v),
      put_recovery (sp_recovery v), w_u64 (sp_active_sessions v),
      w_u64 (sp_requests_handled v), w_boolean (sp_policy_installed v),
      w_boolean (sp_obligations_installed v), w_u64 (sp_alternate_sets v),
      w_u64 (sp_active_attempts v), w_u64 (sp_evidence_entries v), w_u64 (sp_fencing_events v)]"

definition encode_status_response :: "StatusResponse \<Rightarrow> byte list" where
  "encode_status_response v = finish (put_status_response v payload_writer)"

definition get_status_response :: "StatusResponse Result reader" where
  "get_status_response = do {
     incarnation \<leftarrow> r_u64;
     epoch \<leftarrow> r_u64;
     boot \<leftarrow> r_u64;
     r_try get_authority (\<lambda>authority.
     r_try get_fabric_stats (\<lambda>stats.
     r_try get_recovery (\<lambda>recovery. do {
     active_sessions \<leftarrow> r_u64;
     requests_handled \<leftarrow> r_u64;
     policy_installed \<leftarrow> r_boolean;
     obligations_installed \<leftarrow> r_boolean;
     alternate_sets \<leftarrow> r_u64;
     active_attempts \<leftarrow> r_u64;
     evidence_entries \<leftarrow> r_u64;
     fencing_events \<leftarrow> r_u64;
     r_done
       \<lparr>sp_incarnation = incarnation, sp_epoch = epoch, sp_boot = boot,
        sp_authority = authority, sp_stats = stats, sp_recovery = recovery,
        sp_active_sessions = active_sessions, sp_requests_handled = requests_handled,
        sp_policy_installed = policy_installed,
        sp_obligations_installed = obligations_installed,
        sp_alternate_sets = alternate_sets, sp_active_attempts = active_attempts,
        sp_evidence_entries = evidence_entries, sp_fencing_events = fencing_events\<rparr> }))) }"

definition decode_status_response :: "byte list \<Rightarrow> StatusResponse Result" where
  "decode_status_response bytes = decode_exactly get_status_response bytes"

definition put_promote_response :: "PromoteResponse \<Rightarrow> ByteWriter \<Rightarrow> ByteWriter" where
  "put_promote_response v = w_seq
     [put_decision (pm_decision v), w_u64 (pm_grant v), w_u64 (pm_attempt v)]"

definition encode_promote_response :: "PromoteResponse \<Rightarrow> byte list" where
  "encode_promote_response v = finish (put_promote_response v payload_writer)"

definition get_promote_response :: "PromoteResponse Result reader" where
  "get_promote_response =
     r_try get_decision (\<lambda>decision. do {
     grant \<leftarrow> r_u64;
     attempt \<leftarrow> r_u64;
     r_done \<lparr>pm_decision = decision, pm_grant = grant, pm_attempt = attempt\<rparr> })"

definition decode_promote_response :: "byte list \<Rightarrow> PromoteResponse Result" where
  "decode_promote_response bytes = decode_exactly get_promote_response bytes"

definition put_attempt_response :: "AttemptResponse \<Rightarrow> ByteWriter \<Rightarrow> ByteWriter" where
  "put_attempt_response v = w_seq [w_boolean (at_found v), put_attempt (at_record v)]"

definition encode_attempt_response :: "AttemptResponse \<Rightarrow> byte list" where
  "encode_attempt_response v = finish (put_attempt_response v payload_writer)"

definition get_attempt_response :: "AttemptResponse Result reader" where
  "get_attempt_response = do {
     found \<leftarrow> r_boolean;
     r_try get_attempt (\<lambda>a. r_done \<lparr>at_found = found, at_record = a\<rparr>) }"

definition decode_attempt_response :: "byte list \<Rightarrow> AttemptResponse Result" where
  "decode_attempt_response bytes = decode_exactly get_attempt_response bytes"

definition put_lineage_response :: "LineageResponse \<Rightarrow> ByteWriter \<Rightarrow> ByteWriter" where
  "put_lineage_response v = w_seq
     [w_boolean (ln_truncated v), w_u32 (word_of_nat (length (ln_entries v))),
      w_each put_lineage (ln_entries v)]"

definition encode_lineage_response :: "LineageResponse \<Rightarrow> byte list" where
  "encode_lineage_response v = finish (put_lineage_response v payload_writer)"

definition get_lineage_response :: "LineageResponse Result reader" where
  "get_lineage_response = do {
     truncated \<leftarrow> r_boolean;
     r_try (get_count max_lineage) (\<lambda>count.
     r_try (get_many count get_lineage) (\<lambda>entries.
     r_done \<lparr>ln_truncated = truncated, ln_entries = entries\<rparr>)) }"

definition decode_lineage_response :: "byte list \<Rightarrow> LineageResponse Result" where
  "decode_lineage_response bytes = decode_exactly get_lineage_response bytes"

section \<open>Requests\<close>

definition put_session_header :: "SessionHeader \<Rightarrow> ByteWriter \<Rightarrow> ByteWriter" where
  "put_session_header h = w_seq
     [w_u64 (sh_session h), w_u64 (sh_epoch h), w_u64 (sh_boot h), w_u64 (sh_request_sequence h)]"

definition encode_session_request :: "SessionHeader \<Rightarrow> byte list \<Rightarrow> byte list" where
  "encode_session_request header body =
     finish (w_bytes body (put_session_header header payload_writer))"

definition decode_session_header :: "SessionHeader Result reader" where
  "decode_session_header = do {
     session \<leftarrow> r_u64;
     epoch \<leftarrow> r_u64;
     boot \<leftarrow> r_u64;
     request_sequence \<leftarrow> r_u64;
     r_checked (r_done
       \<lparr>sh_session = session, sh_epoch = epoch, sh_boot = boot,
        sh_request_sequence = request_sequence\<rparr>) }"

definition encode_request_body :: "PromotionRequest \<Rightarrow> byte list" where
  "encode_request_body v = finish (put_request v payload_writer)"

definition decode_request_body :: "PromotionRequest Result reader" where
  "decode_request_body = get_request"

definition put_effect_body :: "AttemptId \<times> EffectEvidence \<Rightarrow> ByteWriter \<Rightarrow> ByteWriter" where
  "put_effect_body v = w_seq [w_u64 (fst v), put_effect (snd v)]"

definition encode_effect_body :: "AttemptId \<Rightarrow> EffectEvidence \<Rightarrow> byte list" where
  "encode_effect_body attempt effect = finish (put_effect_body (attempt, effect) payload_writer)"

definition decode_effect_body :: "(AttemptId \<times> EffectEvidence) Result reader" where
  "decode_effect_body = do {
     attempt \<leftarrow> r_u64;
     r_try get_effect (\<lambda>effect. r_checked (r_done (attempt, effect))) }"

definition put_abandon_body :: "AttemptId \<times> Reason \<Rightarrow> ByteWriter \<Rightarrow> ByteWriter" where
  "put_abandon_body v = w_seq [w_u64 (fst v), put_reason (snd v)]"

definition encode_abandon_body :: "AttemptId \<Rightarrow> Reason \<Rightarrow> byte list" where
  "encode_abandon_body attempt reason = finish (put_abandon_body (attempt, reason) payload_writer)"

definition decode_abandon_body :: "(AttemptId \<times> Reason) Result reader" where
  "decode_abandon_body = do {
     attempt \<leftarrow> r_u64;
     r_try read_reason (\<lambda>reason. r_done (attempt, reason)) }"

definition put_rollback_body :: "AttemptId \<times> PathEvidence \<Rightarrow> ByteWriter \<Rightarrow> ByteWriter" where
  "put_rollback_body v = w_seq [w_u64 (fst v), put_evidence (snd v)]"

definition encode_rollback_body :: "AttemptId \<Rightarrow> PathEvidence \<Rightarrow> byte list" where
  "encode_rollback_body attempt evidence =
     finish (put_rollback_body (attempt, evidence) payload_writer)"

definition decode_rollback_body :: "(AttemptId \<times> PathEvidence) Result reader" where
  "decode_rollback_body = do {
     attempt \<leftarrow> r_u64;
     r_try get_evidence (\<lambda>evidence. r_checked (r_done (attempt, evidence))) }"

definition put_fence_body :: "PathId \<times> Reason \<Rightarrow> ByteWriter \<Rightarrow> ByteWriter" where
  "put_fence_body v = w_seq [w_u64 (fst v), put_reason (snd v)]"

definition encode_fence_body :: "PathId \<Rightarrow> Reason \<Rightarrow> byte list" where
  "encode_fence_body path reason = finish (put_fence_body (path, reason) payload_writer)"

definition decode_fence_body :: "(PathId \<times> Reason) Result reader" where
  "decode_fence_body = do {
     path \<leftarrow> r_u64;
     r_try read_reason (\<lambda>reason. r_done (path, reason)) }"

definition encode_attempt_body :: "AttemptId \<Rightarrow> byte list" where
  "encode_attempt_body attempt = finish (w_u64 attempt payload_writer)"

definition decode_attempt_body :: "AttemptId Result reader" where
  "decode_attempt_body = do { attempt \<leftarrow> r_u64; r_checked (r_done attempt) }"

definition encode_lineage_body :: "u32 \<Rightarrow> byte list" where
  "encode_lineage_body limit = finish (w_u32 limit payload_writer)"

definition decode_lineage_body :: "u32 Result reader" where
  "decode_lineage_body = do {
     limit \<leftarrow> r_u32;
     r_checked
       (if limit = 0 \<or> unat limit > max_lineage
        then r_refuse (Status Code_invalid Reason_domain_invalid ''lineage limit out of range'')
        else r_done limit) }"

section \<open>Strings\<close>

lemma char_of_byte: "char_of (unat (of_char c :: byte)) = c"
proof -
  have "(of_char c :: byte) = word_of_nat (of_char c)" by (simp add: of_nat_of_char)
  then have "unat (of_char c :: byte) = of_char c"
    using nat_of_char_less_256 [of c] by (simp add: unat_of_nat)
  then show ?thesis by simp
qed

lemma bytes_string_bytes [simp]:
  "bytes_string (string_bytes s) = s" "length (string_bytes s) = length s"
  by (simp_all add: bytes_string_def string_bytes_def comp_def char_of_byte)

definition enc_string :: "string \<Rightarrow> byte list" where
  "enc_string s = le 2 (word_of_nat (length s) :: u16) @ string_bytes s"

lemma writes_string:
  assumes "length s \<le> max_bytes" "max_bytes \<le> 0xFFFF"
  shows "writes (w_string (string_bytes s) max_bytes) (enc_string s)"
proof -
  note c = writes_comp [OF writes_prims(2) [of "word_of_nat (length s)"] writes_bytes [of "string_bytes s"]]
  let ?f = "\<lambda>w. w_bytes (string_bytes s) (w_u16 (word_of_nat (length s)) w)"
  have eq: "w_string (string_bytes s) max_bytes w =
      (if bw_ok w \<and> length s > bw_max_size w - length (bw_buffer w)
       then w_fail Code_invalid Reason_length_invalid w else ?f w)" for w
    using assms by (simp add: w_string_def Let_def w_bytes_def w_u16_def)
  show ?thesis
    unfolding writes_def
  proof (intro allI impI)
    fix w assume w: "bw_fits w"
    let ?P = "\<lambda>u. bw_fits u \<and> bw_max_size u = bw_max_size w \<and>
      (bw_ok u \<longleftrightarrow> bw_ok w \<and> length (bw_buffer w) + length (enc_string s) \<le> bw_max_size w) \<and>
      (bw_ok u \<longrightarrow> u = w\<lparr>bw_buffer := bw_buffer w @ enc_string s\<rparr>)"
    have f: "?P (?f w)" using c w unfolding writes_def enc_string_def by blast
    have g: "?P (w_fail Code_invalid Reason_length_invalid w)"
      if "bw_ok w \<and> length s > bw_max_size w - length (bw_buffer w)"
      using that w by (auto simp: w_fail_def bw_fits_def bw_ok_def st_ok_def enc_string_def)
    show "?P (w_string (string_bytes s) max_bytes w)"
    proof (cases "bw_ok w \<and> length s > bw_max_size w - length (bw_buffer w)")
      case True
      show ?thesis unfolding eq if_P [OF True] by (rule g [OF True])
    next
      case False
      show ?thesis unfolding eq if_not_P [OF False] by (rule f)
    qed
  qed
qed

lemma get_string_at [codec]:
  assumes "length s \<le> max_bytes" "max_bytes \<le> 0xFFFF"
  shows "run_state (get_string max_bytes) (reader_at pre (enc_string s @ rest)) =
    (Inr s, reader_at (pre @ enc_string s) rest)"
proof -
  have "unat (word_of_nat (length s) :: u16) = length s" using assms by (simp add: unat_of_nat)
  then show ?thesis
    using assms(1) by (simp add: get_string_def r_string_def enc_string_def codec)
qed

lemma read_reason_at [codec]:
  "run_state read_reason (reader_at pre (enc_reason r @ rest)) = (Inr r, reader_at (pre @ enc_reason r) rest)"
  by (simp add: read_reason_def codec)

section \<open>Contracts\<close>

definition enc_fabric_stats :: "FabricStats \<Rightarrow> byte list" where
  "enc_fabric_stats v = 
     le 8 (fs_promotions_authorized v) @ le 8 (fs_promotions_committed v) @
     le 8 (fs_promotions_refused v) @ le 8 (fs_promotions_indeterminate v) @
     le 8 (fs_fences_recorded v) @ le 8 (fs_stale_completions_rejected v) @
     le 8 (fs_rollbacks v) @ le 8 (fs_reversions v) @ le 8 (fs_revalidations v) @
     le 8 (fs_journal_records v) @ le 8 (fs_snapshots_written v) @ le 8 (fs_restarts v) @
     le 8 (fs_evidence_accepted v) @ le 8 (fs_evidence_rejected v) @
     le 8 (fs_attempts_dropped v)"

lemma writes_fabric_stats: "writes (put_fabric_stats v) (enc_fabric_stats v)"
proof -
  have "writes (put_fabric_stats v) (enc_fabric_stats v @ [])"
    unfolding put_fabric_stats_def enc_fabric_stats_def append_assoc
    by (intro writes_seq_Cons writes_seq_Nil writes_prims)
  then show ?thesis by simp
qed

interpretation fabric_stats_codec: codec put_fabric_stats get_fabric_stats enc_fabric_stats "\<lambda>_. True"
  by (unfold_locales, rule writes_fabric_stats) (simp add: get_fabric_stats_def enc_fabric_stats_def codec)

definition enc_recovery :: "RecoveryReport \<Rightarrow> byte list" where
  "enc_recovery v = 
     [if rr_snapshot_loaded v then 1 else 0] @ le 8 (rr_snapshot_sequence v) @
     le 8 (word_of_nat (rr_records_replayed v) :: u64) @
     le 8 (word_of_nat (rr_records_skipped v) :: u64) @
     [if rr_torn_tail_present v then 1 else 0] @ [if rr_torn_tail_recovered v then 1 else 0]
     @ le 8 (rr_truncated_bytes v) @ [if rr_inspection_only v then 1 else 0] @
     [if rr_journal_absent v then 1 else 0] @ le 8 (rr_journal_bytes v)"

lemma writes_recovery: "writes (put_recovery v) (enc_recovery v)"
proof -
  have "writes (put_recovery v) (enc_recovery v @ [])"
    unfolding put_recovery_def enc_recovery_def append_assoc
    by (intro writes_seq_Cons writes_seq_Nil writes_prims)
  then show ?thesis by simp
qed

interpretation recovery_codec: codec put_recovery get_recovery enc_recovery "\<lambda>v. rr_records_replayed v < 2 ^ 64 \<and> rr_records_skipped v < 2 ^ 64"
  by (unfold_locales, rule writes_recovery) (simp add: get_recovery_def enc_recovery_def codec unat_of_nat)

definition enc_hello_response :: "HelloResponse \<Rightarrow> byte list" where
  "enc_hello_response v = 
     le 2 (hr_protocol v) @ le 8 (hr_session v) @ le 8 (hr_epoch v) @ le 8 (hr_boot v) @
     le 8 (hr_incarnation v) @ enc_authority (hr_authority v) @
     le 8 (hr_max_requests_per_session v)"

lemma writes_hello_response: "writes (put_hello_response v) (enc_hello_response v)"
proof -
  have "writes (put_hello_response v) (enc_hello_response v @ [])"
    unfolding put_hello_response_def enc_hello_response_def append_assoc
    by (intro writes_seq_Cons writes_seq_Nil writes_prims authority_codec.put_writes)
  then show ?thesis by simp
qed

interpretation hello_response_codec: codec put_hello_response get_hello_response enc_hello_response "\<lambda>_. True"
  by (unfold_locales, rule writes_hello_response) (simp add: get_hello_response_def enc_hello_response_def codec authority_codec.get_at)

definition enc_status_response :: "StatusResponse \<Rightarrow> byte list" where
  "enc_status_response v = 
     le 8 (sp_incarnation v) @ le 8 (sp_epoch v) @ le 8 (sp_boot v) @
     enc_authority (sp_authority v) @ enc_fabric_stats (sp_stats v) @
     enc_recovery (sp_recovery v) @ le 8 (sp_active_sessions v) @
     le 8 (sp_requests_handled v) @ [if sp_policy_installed v then 1 else 0] @
     [if sp_obligations_installed v then 1 else 0] @ le 8 (sp_alternate_sets v) @
     le 8 (sp_active_attempts v) @ le 8 (sp_evidence_entries v) @ le 8 (sp_fencing_events v)"

lemma writes_status_response: "writes (put_status_response v) (enc_status_response v)"
proof -
  have "writes (put_status_response v) (enc_status_response v @ [])"
    unfolding put_status_response_def enc_status_response_def append_assoc
    by (intro writes_seq_Cons writes_seq_Nil writes_prims
        authority_codec.put_writes fabric_stats_codec.put_writes recovery_codec.put_writes)
  then show ?thesis by simp
qed

interpretation status_response_codec: codec put_status_response get_status_response enc_status_response "\<lambda>v. rr_records_replayed (sp_recovery v) < 2 ^ 64 \<and> rr_records_skipped (sp_recovery v) < 2 ^ 64"
  by (unfold_locales, rule writes_status_response) (simp add: get_status_response_def enc_status_response_def codec authority_codec.get_at
      fabric_stats_codec.get_at recovery_codec.get_at)

definition enc_promote_response :: "PromoteResponse \<Rightarrow> byte list" where
  "enc_promote_response v = 
     enc_decision (pm_decision v) @ le 8 (pm_grant v) @ le 8 (pm_attempt v)"

lemma writes_promote_response: "writes (put_promote_response v) (enc_promote_response v)"
proof -
  have "writes (put_promote_response v) (enc_promote_response v @ [])"
    unfolding put_promote_response_def enc_promote_response_def append_assoc
    by (intro writes_seq_Cons writes_seq_Nil writes_prims decision_codec.put_writes)
  then show ?thesis by simp
qed

interpretation promote_response_codec: codec put_promote_response get_promote_response enc_promote_response "\<lambda>v. wf_decision (pm_decision v)"
  by (unfold_locales, rule writes_promote_response) (simp add: get_promote_response_def enc_promote_response_def codec decision_codec.get_at)

definition enc_attempt_response :: "AttemptResponse \<Rightarrow> byte list" where
  "enc_attempt_response v = 
     [if at_found v then 1 else 0] @ enc_attempt (at_record v)"

lemma writes_attempt_response: "writes (put_attempt_response v) (enc_attempt_response v)"
proof -
  have "writes (put_attempt_response v) (enc_attempt_response v @ [])"
    unfolding put_attempt_response_def enc_attempt_response_def append_assoc
    by (intro writes_seq_Cons writes_seq_Nil writes_prims attempt_codec.put_writes)
  then show ?thesis by simp
qed

interpretation attempt_response_codec: codec put_attempt_response get_attempt_response enc_attempt_response "\<lambda>_. True"
  by (unfold_locales, rule writes_attempt_response) (simp add: get_attempt_response_def enc_attempt_response_def codec attempt_codec.get_at)

definition enc_lineage_response :: "LineageResponse \<Rightarrow> byte list" where
  "enc_lineage_response v = 
     [if ln_truncated v then 1 else 0] @ le 4 (word_of_nat (length (ln_entries v)) :: u32) @
     concat (map enc_lineage (ln_entries v))"

lemma writes_lineage_response: "writes (put_lineage_response v) (enc_lineage_response v)"
proof -
  have "writes (put_lineage_response v) (enc_lineage_response v @ [])"
    unfolding put_lineage_response_def enc_lineage_response_def append_assoc
    by (intro writes_seq_Cons writes_seq_Nil writes_prims lineage_codec.each_writes)
  then show ?thesis by simp
qed

interpretation lineage_response_codec: codec put_lineage_response get_lineage_response enc_lineage_response "\<lambda>v. length (ln_entries v) \<le> max_lineage"
  by (unfold_locales, rule writes_lineage_response) (simp add: get_lineage_response_def enc_lineage_response_def codec lineage_codec.get_many_at
      max_lineage_def)

definition enc_session_header :: "SessionHeader \<Rightarrow> byte list" where
  "enc_session_header v = 
     le 8 (sh_session v) @ le 8 (sh_epoch v) @ le 8 (sh_boot v) @
     le 8 (sh_request_sequence v)"

lemma writes_session_header: "writes (put_session_header v) (enc_session_header v)"
proof -
  have "writes (put_session_header v) (enc_session_header v @ [])"
    unfolding put_session_header_def enc_session_header_def append_assoc
    by (intro writes_seq_Cons writes_seq_Nil writes_prims)
  then show ?thesis by simp
qed

interpretation session_header_codec: codec put_session_header decode_session_header enc_session_header "\<lambda>_. True"
  by (unfold_locales, rule writes_session_header) (simp add: decode_session_header_def enc_session_header_def codec)

definition enc_effect_body :: "AttemptId \<times> EffectEvidence \<Rightarrow> byte list" where
  "enc_effect_body v = le 8 (fst v) @ enc_effect (snd v)"

lemma writes_effect_body: "writes (put_effect_body v) (enc_effect_body v)"
proof -
  have "writes (put_effect_body v) (enc_effect_body v @ [])"
    unfolding put_effect_body_def enc_effect_body_def append_assoc
    by (intro writes_seq_Cons writes_seq_Nil writes_prims effect_codec.put_writes)
  then show ?thesis by simp
qed

interpretation effect_body_codec: codec put_effect_body decode_effect_body enc_effect_body "\<lambda>_. True"
  by (unfold_locales, rule writes_effect_body) (simp add: decode_effect_body_def enc_effect_body_def codec effect_codec.get_at)

definition enc_abandon_body :: "AttemptId \<times> Reason \<Rightarrow> byte list" where
  "enc_abandon_body v = le 8 (fst v) @ enc_reason (snd v)"

lemma writes_abandon_body: "writes (put_abandon_body v) (enc_abandon_body v)"
proof -
  have "writes (put_abandon_body v) (enc_abandon_body v @ [])"
    unfolding put_abandon_body_def enc_abandon_body_def append_assoc
    by (intro writes_seq_Cons writes_seq_Nil writes_prims writes_reason)
  then show ?thesis by simp
qed

interpretation abandon_body_codec: codec put_abandon_body decode_abandon_body enc_abandon_body "\<lambda>_. True"
  by (unfold_locales, rule writes_abandon_body) (simp add: decode_abandon_body_def enc_abandon_body_def codec)

definition enc_rollback_body :: "AttemptId \<times> PathEvidence \<Rightarrow> byte list" where
  "enc_rollback_body v = le 8 (fst v) @ enc_evidence (snd v)"

lemma writes_rollback_body: "writes (put_rollback_body v) (enc_rollback_body v)"
proof -
  have "writes (put_rollback_body v) (enc_rollback_body v @ [])"
    unfolding put_rollback_body_def enc_rollback_body_def append_assoc
    by (intro writes_seq_Cons writes_seq_Nil writes_prims evidence_codec.put_writes)
  then show ?thesis by simp
qed

interpretation rollback_body_codec: codec put_rollback_body decode_rollback_body enc_rollback_body "\<lambda>_. True"
  by (unfold_locales, rule writes_rollback_body) (simp add: decode_rollback_body_def enc_rollback_body_def codec evidence_codec.get_at)

definition enc_fence_body :: "PathId \<times> Reason \<Rightarrow> byte list" where
  "enc_fence_body v = le 8 (fst v) @ enc_reason (snd v)"

lemma writes_fence_body: "writes (put_fence_body v) (enc_fence_body v)"
proof -
  have "writes (put_fence_body v) (enc_fence_body v @ [])"
    unfolding put_fence_body_def enc_fence_body_def append_assoc
    by (intro writes_seq_Cons writes_seq_Nil writes_prims writes_reason)
  then show ?thesis by simp
qed

interpretation fence_body_codec: codec put_fence_body decode_fence_body enc_fence_body "\<lambda>_. True"
  by (unfold_locales, rule writes_fence_body) (simp add: decode_fence_body_def enc_fence_body_def codec)

interpretation attempt_body_codec: codec w_u64 decode_attempt_body "le 8" "\<lambda>_. True"
  by (unfold_locales, rule writes_prims) (simp add: decode_attempt_body_def codec)

interpretation lineage_body_codec: codec w_u32 decode_lineage_body "le 4"
    "\<lambda>limit. limit \<noteq> 0 \<and> unat limit \<le> max_lineage"
  by (unfold_locales, rule writes_prims) (simp add: decode_lineage_body_def codec)

interpretation request_body_codec: codec put_request decode_request_body enc_request "\<lambda>_. True"
  unfolding decode_request_body_def by (rule request_codec.codec_axioms)

text \<open>
  The two payloads with text. An error is always encodable; a hello only when the client's name
  is within its bound.
\<close>

definition enc_error_response :: "ErrorResponse \<Rightarrow> byte list" where
  "enc_error_response v =
     [word_of_nat (code_value (er_code v))] @ enc_reason (er_reason v) @
     enc_string (take max_reason_bytes (er_detail v))"

lemma writes_error_response: "writes (put_error_response v) (enc_error_response v)"
proof -
  have "(if length (er_detail v) > max_reason_bytes then take max_reason_bytes (er_detail v)
      else er_detail v) = take max_reason_bytes (er_detail v)" by simp
  then have "writes (put_error_response v) (enc_error_response v @ [])"
    unfolding put_error_response_def enc_error_response_def append_assoc Let_def
    by (simp only:, intro writes_seq_Cons writes_seq_Nil writes_prims writes_reason writes_string)
      (simp_all add: max_reason_bytes_def)
  then show ?thesis by simp
qed

interpretation error_response_codec: codec put_error_response get_error_response enc_error_response
    "\<lambda>v. length (er_detail v) \<le> max_reason_bytes"
proof (unfold_locales, rule writes_error_response)
  fix v :: ErrorResponse and pre rest assume "length (er_detail v) \<le> max_reason_bytes"
  moreover have "unat (word_of_nat (code_value (er_code v)) :: u8) = code_value (er_code v)"
    using code_table_value [of "er_code v"] by (simp add: unat_of_nat)
  ultimately show "run_state get_error_response (reader_at pre (enc_error_response v @ rest)) =
      (Inr v, reader_at (pre @ enc_error_response v) rest)"
    using code_table_value [of "er_code v"]
    by (simp add: get_error_response_def enc_error_response_def codec max_reason_bytes_def)
qed

definition enc_hello_request :: "HelloRequest \<Rightarrow> byte list" where
  "enc_hello_request v = le 2 (hq_protocol v) @ enc_string (hq_client v) @ le 8 (hq_nonce v)"

lemma hello_request_round_trip:
  assumes "length (hq_client v) \<le> max_name_bytes"
  shows "encode_hello_request v = enc_hello_request v"
    "decode_hello_request (encode_hello_request v) = Inr v"
proof -
  have "writes (put_hello_request v) (enc_hello_request v @ [])"
    unfolding put_hello_request_def enc_hello_request_def append_assoc
    by (intro writes_seq_Cons writes_seq_Nil writes_prims writes_string)
      (use assms in \<open>simp_all add: max_name_bytes_def\<close>)
  then show e: "encode_hello_request v = enc_hello_request v"
    unfolding encode_hello_request_def using assms
    by (intro finish_written)
      (simp_all add: enc_hello_request_def enc_string_def max_name_bytes_def max_record_payload_def)
  show "decode_hello_request (encode_hello_request v) = Inr v"
    unfolding e decode_hello_request_def
    by (rule decode_exactly_at)
      (use assms in \<open>simp add: get_hello_request_def enc_hello_request_def codec max_name_bytes_def\<close>)
qed

section \<open>Sizes\<close>

lemma message_lengths [simp]:
  "length (enc_fabric_stats fs) = 120" "length (enc_recovery rr) = 45"
  "length (enc_hello_response hr) = 90" "length (enc_status_response sp) = 287"
  "length (enc_attempt_response ar) = 128" "length (enc_session_header sh) = 32"
  "length (enc_effect ee) = 74" "length (enc_request pr) = 81"
  "length (enc_effect_body eb) = 82" "length (enc_abandon_body ab) = 10"
  "length (enc_rollback_body rb) = 105" "length (enc_fence_body fb) = 10"
  by (simp_all add: enc_fabric_stats_def enc_recovery_def enc_hello_response_def
      enc_status_response_def enc_attempt_response_def enc_session_header_def enc_effect_def
      enc_request_def enc_effect_body_def enc_abandon_body_def enc_rollback_body_def
      enc_fence_body_def enc_reason_def)

lemma length_enc_lineage_response:
  "length (enc_lineage_response v) = 5 + 115 * length (ln_entries v)"
proof -
  have "length (concat (map enc_lineage es)) = 115 * length es" for es by (induction es) simp_all
  then show ?thesis by (simp add: enc_lineage_response_def)
qed

lemma length_enc_error_response: "length (enc_error_response v) \<le> 133"
  by (simp add: enc_error_response_def enc_string_def enc_reason_def max_reason_bytes_def)

text \<open>A request is the header followed by the body, and the reader is left at the body.\<close>

lemma session_request_eq:
  assumes "length body + 32 \<le> max_record_payload"
  shows "encode_session_request h body = enc_session_header h @ body"
proof -
  note w = writes_comp [OF session_header_codec.put_writes [of h] writes_bytes [of body]]
  have "finish ((\<lambda>w. w_bytes body (put_session_header h w)) payload_writer) =
      enc_session_header h @ body"
    by (rule finish_written [OF w]) (use assms in simp)
  then show ?thesis by (simp add: encode_session_request_def)
qed

lemma session_request_decoded:
  assumes "length body + 32 \<le> max_record_payload"
  shows "run_state decode_session_header (byte_reader (encode_session_request h body)) =
    (Inr h, reader_at (enc_session_header h) body)"
  using session_header_codec.get_at [where v = h and pre = "[]" and rest = body] assms
  by (simp add: session_request_eq byte_reader_at)

end
