(* ===== verification/PFF_Client.thy ===== *)
theory PFF_Client
  imports PFF_Message
begin

text \<open>
  The client of the coordinator service: \<open>Client\<close> of \<open>include/pff/server.hpp\<close> and
  \<open>src/client.cpp\<close>. The transport is an argument of every call: an \<open>Exchange\<close> holds what
  \<open>net::send_all\<close> answers to the request and the results of the receives that follow (an empty
  chunk is the end of the stream). A call that has used up the receives is still waiting, and its
  result is \<^const>\<open>None\<close>. Field prefixes: \<open>co_\<close> options, \<open>ex_\<close> exchange, \<open>cl_\<close> client.
\<close>

section \<open>State\<close>

record ClientOptions =
  co_host :: string
  co_port :: u16
  co_name :: string
  co_nonce :: u64

record Client =
  cl_decoder :: FrameDecoder
  cl_header :: SessionHeader
  cl_hello :: HelloResponse
  cl_sequence :: u64
  cl_closed :: bool

record Exchange =
  ex_answer :: Status
  ex_received :: "byte list Result list"

definition new_client :: Client where
  "new_client =
     \<lparr>cl_decoder = frame_decoder max_frame_payload,
      cl_header = \<lparr>sh_session = absent, sh_epoch = absent, sh_boot = absent,
                   sh_request_sequence = 0\<rparr>,
      cl_hello = \<lparr>hr_protocol = protocol_version, hr_session = absent, hr_epoch = absent,
                  hr_boot = absent, hr_incarnation = absent, hr_authority = av_absent,
                  hr_max_requests_per_session = 0\<rparr>,
      cl_sequence = 0, cl_closed = False\<rparr>"

section \<open>One request and its response\<close>

text \<open>
  The receive loop of \<open>round_trip\<close>: \<open>take_response\<close> is its head, \<^const>\<open>None\<close> when more bytes are
  needed.
\<close>

definition take_response :: "u64 \<Rightarrow> Client \<Rightarrow> Frame Result option \<times> Client" where
  "take_response sequence c =
     (case pop (cl_decoder c) of
        (Inr popped, decoder) \<Rightarrow>
          (Some (if fm_sequence popped \<noteq> sequence
                 then Inl (Status Code_conflict Reason_sequence_regression
                   ''response sequence does not match the request sequence'')
                 else Inr popped), c\<lparr>cl_decoder := decoder\<rparr>)
      | (Inl status, decoder) \<Rightarrow>
          (if failed decoder then Some (Inl (fd_status decoder)) else None,
           c\<lparr>cl_decoder := decoder\<rparr>))"

primrec await :: "byte list Result list \<Rightarrow> u64 \<Rightarrow> Client \<Rightarrow> Frame Result option \<times> Client" where
  "await [] sequence c = take_response sequence c"
| "await (received # rs) sequence c =
     (case take_response sequence c of
        (Some result, c) \<Rightarrow> (Some result, c)
      | (None, c) \<Rightarrow>
     (case received of
        Inl status \<Rightarrow> (Some (Inl status), c)
      | Inr chunk \<Rightarrow>
          if chunk = [] then
            (Some (Inl (Status Code_io_failure Reason_io_failure
               ''coordinator closed the connection'')), c)
          else
     (case feed chunk (cl_decoder c) of
        (fed, decoder) \<Rightarrow>
          if \<not> st_ok fed then (Some (Inl fed), c\<lparr>cl_decoder := decoder\<rparr>)
          else await rs sequence (c\<lparr>cl_decoder := decoder\<rparr>))))"

definition round_trip ::
  "Exchange \<Rightarrow> MsgType \<Rightarrow> byte list \<Rightarrow> Client \<Rightarrow> Frame Result option \<times> Client" where
  "round_trip x type payload c =
     (let sequence = cl_sequence c + 1; bytes = encode_frame type sequence 0 payload
      in if bytes = [] then
           (Some (Inl (Status Code_invalid Reason_invalid_payload ''cannot encode request frame'')), c)
         else if \<not> st_ok (ex_answer x) then (Some (Inl (ex_answer x)), c)
         else await (ex_received x) sequence (c\<lparr>cl_sequence := sequence\<rparr>))"

text \<open>\<open>and_then\<close>: the caller's part, once the result is there.\<close>

definition and_then ::
  "'a Result option \<times> 'c \<Rightarrow> ('a \<Rightarrow> 'b Result) \<Rightarrow> 'b Result option \<times> 'c" where
  "and_then r k =
     apfst (map_option (\<lambda>x. case x of Inl status \<Rightarrow> Inl status | Inr v \<Rightarrow> k v)) r"

definition transact ::
  "Exchange \<Rightarrow> MsgType \<Rightarrow> byte list \<Rightarrow> MsgType \<Rightarrow> Client \<Rightarrow> Frame Result option \<times> Client" where
  "transact x request payload expected c =
     and_then (round_trip x request payload c) (\<lambda>response.
       if fm_type response = MsgType_error_rsp then
         (case decode_error_response (fm_payload response) of
            Inl status \<Rightarrow> Inl status
          | Inr error \<Rightarrow> Inl (Status (er_code error) (er_reason error) (er_detail error)))
       else if fm_type response \<noteq> expected then
         Inl (Status Code_invalid Reason_message_unsupported
           ''coordinator returned an unexpected response type'')
       else Inr response)"

definition status_of :: "'a Result \<Rightarrow> Status" where
  "status_of r = (case r of Inl status \<Rightarrow> status | Inr _ \<Rightarrow> ok_status)"

definition expect_ok :: "Exchange \<Rightarrow> MsgType \<Rightarrow> byte list \<Rightarrow> Client \<Rightarrow> Status option \<times> Client" where
  "expect_ok x request payload c =
     apfst (map_option status_of)
       (and_then (transact x request payload MsgType_ok_rsp c) (\<lambda>response.
          if fm_payload response \<noteq> [] then
            Inl (Status Code_invalid Reason_trailing_garbage ''ok response carried a payload'')
          else Inr ()))"

definition next_request :: "byte list \<Rightarrow> Client \<Rightarrow> byte list \<times> Client" where
  "next_request body c =
     (let c = c\<lparr>cl_header := (cl_header c)
                  \<lparr>sh_request_sequence := sh_request_sequence (cl_header c) + 1\<rparr>\<rparr>
      in (encode_session_request (cl_header c) body, c))"

section \<open>Connecting\<close>

definition client_name :: "ClientOptions \<Rightarrow> string" where
  "client_name options =
     (let name = (if co_name options = [] then ''pff-client'' else co_name options)
      in if length name > max_name_bytes then take max_name_bytes name else name)"

definition connect ::
  "bool \<Rightarrow> unit Result \<Rightarrow> Exchange \<Rightarrow> ClientOptions \<Rightarrow> Client Result option" where
  "connect initialized connected x options =
     (if \<not> initialized then
        Some (Inl (Status Code_unsupported Reason_io_failure ''socket library unavailable''))
      else
     (case connected of
        Inl status \<Rightarrow> Some (Inl status)
      | Inr _ \<Rightarrow>
     (let payload = encode_hello_request
            \<lparr>hq_protocol = protocol_version, hq_client = client_name options,
             hq_nonce = co_nonce options\<rparr>
      in if payload = [] then
           Some (Inl (Status Code_invalid Reason_invalid_payload ''cannot encode hello''))
         else
     (case round_trip x MsgType_hello payload new_client of
        (None, c) \<Rightarrow> None
      | (Some (Inl status), c) \<Rightarrow> Some (Inl status)
      | (Some (Inr response), c) \<Rightarrow> Some
          (if fm_type response \<noteq> MsgType_hello_ack then
             (case decode_error_response (fm_payload response) of
                Inr error \<Rightarrow> Inl (Status (er_code error) (er_reason error) (er_detail error))
              | Inl _ \<Rightarrow> Inl (Status Code_refused Reason_message_unsupported ''handshake refused''))
           else
          (case decode_hello_response (fm_payload response) of
             Inl status \<Rightarrow> Inl status
           | Inr hello \<Rightarrow>
               if hr_protocol hello \<noteq> protocol_version then
                 Inl (Status Code_version_unsupported Reason_protocol_version_mismatch
                   ''coordinator protocol version mismatch'')
               else Inr (c\<lparr>cl_hello := hello,
                 cl_header := \<lparr>sh_session = hr_session hello, sh_epoch = hr_epoch hello,
                               sh_boot = hr_boot hello, sh_request_sequence = 0\<rparr>\<rparr>)))))))"

section \<open>Requests\<close>

text \<open>A request whose answer is an acknowledgement.\<close>

definition submit ::
  "Exchange \<Rightarrow> MsgType \<Rightarrow> byte list \<Rightarrow> string \<Rightarrow> Client \<Rightarrow> Status option \<times> Client" where
  "submit x type body detail c =
     (if body = [] then (Some (Status Code_invalid Reason_invalid_payload detail), c)
      else (case next_request body c of (payload, c) \<Rightarrow> expect_ok x type payload c))"

text \<open>A request whose answer is decoded.\<close>

definition inquire ::
  "Exchange \<Rightarrow> MsgType \<Rightarrow> MsgType \<Rightarrow> (byte list \<Rightarrow> 'a Result) \<Rightarrow> byte list \<Rightarrow> string \<Rightarrow> Client \<Rightarrow>
   'a Result option \<times> Client" where
  "inquire x type expected decode body detail c =
     (if body = [] then (Some (Inl (Status Code_invalid Reason_invalid_payload detail)), c)
      else (case next_request body c of (payload, c) \<Rightarrow>
        and_then (transact x type payload expected c) (\<lambda>response. decode (fm_payload response))))"

definition decode_decision :: "byte list \<Rightarrow> PromotionDecision Result" where
  "decode_decision bytes =
     (case decode_promote_response bytes of
        Inl status \<Rightarrow> Inl status | Inr decoded \<Rightarrow> Inr (pm_decision decoded))"

definition client_status :: "Exchange \<Rightarrow> Client \<Rightarrow> StatusResponse Result option \<times> Client" where
  "client_status x c =
     (case next_request [] c of (payload, c) \<Rightarrow>
        if payload = [] then
          (Some (Inl (Status Code_invalid Reason_invalid_payload ''cannot encode status request'')), c)
        else and_then (transact x MsgType_status_req payload MsgType_status_rsp c)
          (\<lambda>response. decode_status_response (fm_payload response)))"

definition client_set_policy :: "Exchange \<Rightarrow> FailoverPolicy \<Rightarrow> Client \<Rightarrow> Status option \<times> Client" where
  "client_set_policy x policy =
     submit x MsgType_set_policy_req (finish (put_policy policy payload_writer))
       ''cannot encode policy''"

definition client_set_obligations ::
  "Exchange \<Rightarrow> ServiceObligations \<Rightarrow> Client \<Rightarrow> Status option \<times> Client" where
  "client_set_obligations x obligations =
     submit x MsgType_set_obligations_req (finish (put_obligations obligations payload_writer))
       ''cannot encode obligations''"

definition client_put_set :: "Exchange \<Rightarrow> AlternateSet \<Rightarrow> Client \<Rightarrow> Status option \<times> Client" where
  "client_put_set x st =
     submit x MsgType_put_set_req (finish (put_set st payload_writer))
       ''cannot encode alternate set''"

definition client_put_evidence :: "Exchange \<Rightarrow> PathEvidence \<Rightarrow> Client \<Rightarrow> Status option \<times> Client" where
  "client_put_evidence x evidence =
     submit x MsgType_put_evidence_req (finish (put_evidence evidence payload_writer))
       ''cannot encode evidence''"

definition client_set_authority ::
  "Exchange \<Rightarrow> AuthorityVector \<Rightarrow> Client \<Rightarrow> Status option \<times> Client" where
  "client_set_authority x authority =
     submit x MsgType_set_authority_req (finish (put_authority authority payload_writer))
       ''cannot encode authority''"

definition client_record_effect ::
  "Exchange \<Rightarrow> AttemptId \<Rightarrow> EffectEvidence \<Rightarrow> Client \<Rightarrow> Status option \<times> Client" where
  "client_record_effect x attempt effect =
     submit x MsgType_effect_req (encode_effect_body attempt effect) ''cannot encode effect''"

definition client_abandon ::
  "Exchange \<Rightarrow> AttemptId \<Rightarrow> Reason \<Rightarrow> Client \<Rightarrow> Status option \<times> Client" where
  "client_abandon x attempt reason =
     submit x MsgType_abandon_req (encode_abandon_body attempt reason) ''cannot encode abandon''"

definition client_rollback ::
  "Exchange \<Rightarrow> AttemptId \<Rightarrow> PathEvidence \<Rightarrow> Client \<Rightarrow> Status option \<times> Client" where
  "client_rollback x attempt evidence =
     submit x MsgType_rollback_req (encode_rollback_body attempt evidence) ''cannot encode rollback''"

definition client_fence_path ::
  "Exchange \<Rightarrow> PathId \<Rightarrow> Reason \<Rightarrow> Client \<Rightarrow> Status option \<times> Client" where
  "client_fence_path x path reason =
     submit x MsgType_fence_req (encode_fence_body path reason) ''cannot encode fence''"

definition client_evaluate ::
  "Exchange \<Rightarrow> PromotionRequest \<Rightarrow> Client \<Rightarrow> PromotionDecision Result option \<times> Client" where
  "client_evaluate x request =
     inquire x MsgType_evaluate_req MsgType_evaluate_rsp decode_decision
       (encode_request_body request) ''cannot encode request''"

definition client_promote ::
  "Exchange \<Rightarrow> PromotionRequest \<Rightarrow> Client \<Rightarrow> PromoteResponse Result option \<times> Client" where
  "client_promote x request =
     inquire x MsgType_promote_req MsgType_promote_rsp decode_promote_response
       (encode_request_body request) ''cannot encode request''"

definition client_revert ::
  "Exchange \<Rightarrow> AttemptId \<Rightarrow> PathEvidence \<Rightarrow> Client \<Rightarrow> PromotionDecision Result option \<times> Client" where
  "client_revert x attempt target =
     inquire x MsgType_revert_req MsgType_evaluate_rsp decode_decision
       (encode_rollback_body attempt target) ''cannot encode revert''"

definition client_attempt ::
  "Exchange \<Rightarrow> AttemptId \<Rightarrow> Client \<Rightarrow> AttemptResponse Result option \<times> Client" where
  "client_attempt x attempt =
     inquire x MsgType_attempt_req MsgType_attempt_rsp decode_attempt_response
       (encode_attempt_body attempt) ''cannot encode attempt query''"

definition client_lineage ::
  "Exchange \<Rightarrow> size_t \<Rightarrow> Client \<Rightarrow> LineageResponse Result option \<times> Client" where
  "client_lineage x limit =
     (let bounded = (if limit = 0 then max_lineage
                     else if limit > max_lineage then max_lineage else limit)
      in inquire x MsgType_lineage_req MsgType_lineage_rsp decode_lineage_response
           (encode_lineage_body (word_of_nat bounded)) ''cannot encode lineage query'')"

definition client_shutdown :: "Exchange \<Rightarrow> Status \<Rightarrow> Client \<Rightarrow> Status option \<times> Client" where
  "client_shutdown x close_status c =
     (case next_request [] c of (payload, c) \<Rightarrow>
        if payload = [] then
          (Some (Status Code_invalid Reason_invalid_payload ''cannot encode shutdown request''), c)
        else
     (case transact x MsgType_shutdown_req payload MsgType_shutdown_rsp c of
        (None, c) \<Rightarrow> (None, c)
      | (Some (Inl status), c) \<Rightarrow> (Some status, c)
      | (Some (Inr response), c) \<Rightarrow> (Some close_status, c\<lparr>cl_closed := True\<rparr>)))"

end
