(* ===== verification/PFF_Durability.thy ===== *)
theory PFF_Durability
  imports PFF_Snapshot
begin

text \<open>
  The guarantees of the store (\<open>src/store.cpp\<close>) as theorems: an append is atomic across a crash,
  compaction keeps the state whatever the operating system answers, a damaged byte is detected,
  a recovered state is within its bounds, and the cases where the code does less than it says.
\<close>

section \<open>Replaying records that were already applied\<close>

lemma replay_again:
  assumes "replay_records xs pos base rep = Inr (state, rep', e)"
  shows "ds_last_sequence base \<le> ds_last_sequence state \<and>
    (ds_last_sequence state \<le> ds_last_sequence newer \<longrightarrow>
      (\<exists>rep2. replay_records xs pos newer rep1 = Inr (newer, rep2, e)))"
  using assms
proof (induction "length xs" arbitrary: xs pos base rep rep1 rule: less_induct)
  case less
  from less.prems show ?case
  proof (cases rule: replay_cases)
    case torn
    then show ?thesis by simp
  next
    case (whole n base1 rep2)
    have shorter: "length (drop n xs) < length xs" using whole(1,2) by simp
    note IH = less.hyps [OF shorter whole(4)]
    have grows: "ds_last_sequence base1 \<le> ds_last_sequence state" using IH by blast
    then have "ds_last_sequence base \<le> ds_last_sequence state" using whole(5) by order
    moreover have "\<exists>rep2. replay_records xs pos newer rep1 = Inr (newer, rep2, e)"
      if le: "ds_last_sequence state \<le> ds_last_sequence newer"
    proof -
      have "ds_last_sequence base1 \<le> ds_last_sequence newer" using grows le by order
      then obtain rep3 where "replay_records xs pos newer rep1 =
          replay_records (drop n xs) (pos + n) newer rep3" using whole(6) by blast
      then show ?thesis using IH le by auto
    qed
    ultimately show ?thesis by blast
  qed simp
qed

section \<open>Damage to a complete record\<close>

text \<open>Every sequence of \<open>n\<close> bytes is the little-endian form of some word.\<close>

lemma le_surj:
  assumes "8 * length ys \<le> LENGTH('a :: len)"
  shows "\<exists>v :: 'a word. ys = le (length ys) v"
  using assms
proof (induction ys)
  case (Cons y ys)
  then obtain v :: "'a word" where v: "ys = le (length ys) v" by auto
  have low: "\<not> bit y (8 + 8 * j + n)" for j n
    using bit_imp_le_length [of y "8 + 8 * j + n"] by auto
  define w where "w = push_bit 8 v OR (ucast y :: 'a word)"
  have "le (length (y # ys)) w ! i = (y # ys) ! i" if "i < length (y # ys)" for i
  proof (cases i)
    case 0
    then show ?thesis
      using Cons.prems by (auto intro!: bit_eqI simp: w_def bit_simps possible_bit_def)
  next
    case (Suc j)
    then have j: "j < length ys" using that by simp
    have "(y # ys) ! i = ucast (drop_bit (8 * j) v)"
      using Suc j v by (metis nth_Cons_Suc nth_le)
    moreover have "ucast (drop_bit (8 * i) w) = (ucast (drop_bit (8 * j) v) :: byte)"
      using Suc j Cons.prems low
      by (auto intro!: bit_eqI simp: w_def bit_simps possible_bit_def)
    ultimately show ?thesis using that by simp
  qed
  then have "y # ys = le (length (y # ys)) w" by (intro nth_equalityI) simp_all
  then show ?case by blast
qed (simp add: le_def)

lemma le_inj:
  assumes "le n (v :: 'a :: len word) = le n w" "8 * n = LENGTH('a)"
  shows "v = w"
proof (rule bit_eqI)
  fix k assume "possible_bit TYPE('a word) k"
  then have k: "k < 8 * n" using assms(2) by (simp add: possible_bit_def)
  then have i: "k div 8 < n" by simp
  have "bit (le n u ! (k div 8)) (k mod 8) = bit u k" for u :: "'a word"
    using i k by (simp add: bit_simps)
  then show "bit v k = bit w k" using assms(1) by metis
qed

lemma header_accepted:
  assumes "length xs = 24" "decode_journal_header xs = Inr h"
  shows "drop 20 xs = le 4 (crc32c (take 20 xs))"
proof -
  define part where "part a n = take n (drop a xs)" for a n
  have len: "length (part a n) = n" if "a + n \<le> 24" for a n
    using that assms(1) by (simp add: part_def)
  have le4: "\<exists>v :: u32. part a 4 = le 4 v" if "a + 4 \<le> 24" for a
    using le_surj [of "part a 4", where 'a = 32] len [OF that] by simp
  have le2: "\<exists>v :: u16. part a 2 = le 2 v" if "a + 2 \<le> 24" for a
    using le_surj [of "part a 2", where 'a = 16] len [OF that] by simp
  have le8: "\<exists>v :: u64. part a 8 = le 8 v" if "a + 8 \<le> 24" for a
    using le_surj [of "part a 8", where 'a = 64] len [OF that] by simp
  obtain m v t q l c where parts: "part 0 4 = le 4 (m :: u32)" "part 4 2 = le 2 (v :: u16)"
    "part 6 2 = le 2 (t :: u16)" "part 8 8 = le 8 (q :: u64)" "part 16 4 = le 4 (l :: u32)"
    "part 20 4 = le 4 (c :: u32)"
    using le4 [of 0] le2 [of 4] le2 [of 6] le8 [of 8] le4 [of 16] le4 [of 20] by auto
  have join: "part a n @ part (a + n) k = part a (n + k)" for a n k
    by (simp add: part_def take_add add.commute [of a])
  let ?head = "le 4 m @ le 2 v @ le 2 t @ le 8 q @ le 4 l"
  have "part 0 20 = ?head"
    using join [of 0 4 16] join [of 4 2 14] join [of 6 2 12] join [of 8 8 4]
    by (simp add: parts)
  moreover from this have "part 0 24 = ?head @ le 4 c"
    using join [of 0 20 4] by (simp add: parts)
  ultimately have xs: "xs = ?head @ le 4 c" "take 20 xs = ?head" "drop 20 xs = le 4 c"
    using assms(1) parts(6) by (simp_all add: part_def)
  have "jh_header_crc h = c"
    using assms(2) by (auto simp: xs(1) decode_journal_header_def get_journal_header_def
        byte_reader_at codec split: if_splits)
  moreover have "crc32c (take 20 xs) = jh_header_crc h"
    using assms(2) by (auto simp: decode_journal_header_def journal_header_bytes_def
        journal_trailer_bytes_def split: if_splits prod.splits)
  ultimately show ?thesis using xs(3) by simp
qed

lemma crc_update: "i < length xs \<Longrightarrow> xs ! i \<noteq> b \<Longrightarrow> crc32c (xs[i := b]) \<noteq> crc32c xs"
  using crc_change [of b "xs ! i" "take i xs" "drop (Suc i) xs"]
  by (simp add: upd_conv_take_nth_drop id_take_nth_drop [symmetric])

lemma damaged_header:
  assumes "i < 24" "b \<noteq> (frame t q p @ rest) ! i"
  shows "\<exists>status. decode_journal_header (take 24 ((frame t q p @ rest)[i := b])) = Inl status"
proof (rule ccontr)
  let ?head = "frame_head t q p" and ?xs = "take 24 ((frame t q p @ rest)[i := b])"
  have xs: "?xs = (?head @ le 4 (crc32c ?head))[i := b]"
    by (simp only: take_update_swap frame_parts)
  have b: "b \<noteq> (?head @ le 4 (crc32c ?head)) ! i"
    using assms nth_take [of i 24 "frame t q p @ rest"] by (simp only: frame_parts not_False_eq_True)
  assume "\<not> ?thesis"
  then obtain h where h: "decode_journal_header ?xs = Inr h" by (metis obj_sumE)
  have stored: "drop 20 ?xs = le 4 (crc32c (take 20 ?xs))"
    by (rule header_accepted [OF _ h]) simp
  show False
  proof (cases "i < 20")
    case True
    then have "take 20 ?xs = ?head[i := b]" "drop 20 ?xs = le 4 (crc32c ?head)"
      "?head ! i \<noteq> b"
      using b unfolding xs by (auto simp: list_update_append nth_append)
    then show False
      using stored crc_update [of i ?head b] True by (auto dest!: le_inj)
  next
    case False
    then have "take 20 ?xs = ?head" "drop 20 ?xs = (le 4 (crc32c ?head))[i - 20 := b]"
      "i - 20 < 4" "le 4 (crc32c ?head) ! (i - 20) \<noteq> b"
      using b assms(1) unfolding xs by (auto simp: list_update_append nth_append)
    then show False using stored by (metis length_le nth_list_update_eq)
  qed
qed

lemma damaged_frame:
  assumes "frameable q p" "i < 28 + length p" "b \<noteq> frame t q p ! i"
  shows "\<exists>status. replay_records ((frame t q p)[i := b] @ rest) pos state rep = Inl status"
proof (cases "i < 24")
  case True
  have "(frame t q p)[i := b] @ rest = (frame t q p @ rest)[i := b]"
    using assms(2) by (simp add: list_update_append)
  moreover have "b \<noteq> (frame t q p @ rest) ! i" using assms(2,3) by (simp add: nth_append)
  ultimately obtain status where
    "decode_journal_header (take journal_header_bytes ((frame t q p)[i := b] @ rest)) = Inl status"
    using damaged_header [OF True, of b t q p rest] by (auto simp: journal_header_bytes_def)
  then show ?thesis
    by (auto simp: replay_records.simps [of "(frame t q p)[i := b] @ rest"] journal_header_bytes_def)
next
  case False
  define f where "f = (frame t q p)[i := b] @ rest"
  define body where "body = (p @ le 4 (crc32c p))[i - 24 := b]"
  have f: "f = frame_head t q p @ le 4 (crc32c (frame_head t q p)) @ body @ rest"
    using False unfolding f_def body_def frame_def
    by (auto simp: list_update_append)
  have "frame t q p ! i = ((frame_head t q p @ le 4 (crc32c (frame_head t q p))) @
      p @ le 4 (crc32c p)) ! i" by (simp add: frame_def)
  also have "\<dots> = (p @ le 4 (crc32c p)) ! (i - 24)" using False by (subst nth_append) simp
  finally have body: "length body = length p + 4"
    "b \<noteq> (p @ le 4 (crc32c p)) ! (i - 24)" "i - 24 < length p + 4"
    using assms(2,3) False by (auto simp: body_def)
  have split: "take (length p) body = (if i - 24 < length p then p[i - 24 := b] else p)"
    "drop (length p) body = (if i - 24 < length p then le 4 (crc32c p)
       else (le 4 (crc32c p))[i - 24 - length p := b])"
    by (simp_all add: body_def list_update_append)
  have crc: "drop (length p) body \<noteq> le 4 (crc32c (take (length p) body))"
  proof (cases "i - 24 < length p")
    case True
    then have "crc32c p \<noteq> crc32c (p[i - 24 := b])"
      using crc_update [of "i - 24" p b] body(2) by (auto simp: nth_append)
    then show ?thesis using True unfolding split by (auto dest: le_inj)
  next
    case False
    then have "(le 4 (crc32c p))[i - 24 - length p := b] ! (i - 24 - length p) \<noteq>
        le 4 (crc32c p) ! (i - 24 - length p)"
      using body by (simp add: nth_append)
    then show ?thesis using False unfolding split by auto
  qed
  obtain c :: u32 where c: "drop (length p) body = le 4 c"
    using le_surj [of "drop (length p) body", where 'a = 32] body(1) by auto
  have h: "decode_journal_header (take journal_header_bytes f) = Inr (frame_header t q p)"
    using decode_frame_header [OF assms(1)] by (simp add: f journal_header_bytes_def)
  have len: "unat (jh_payload_length (frame_header t q p)) = length p"
    using unat_payload_length [OF assms(1)] by (simp add: frame_header_def)
  have parts: "take (length p) (drop journal_header_bytes f) = take (length p) body"
    "take journal_trailer_bytes (drop (journal_header_bytes + length p) f) = le 4 c"
    using body(1) c by (simp_all add: f frame_sizes)
  have long: "f \<noteq> []" "\<not> length f < journal_header_bytes"
    "\<not> length f < journal_header_bytes + length p + journal_trailer_bytes"
    using body(1) by (auto simp: f frame_sizes)
  note step = replay_records.simps [of f pos state rep,
      unfolded h sum.case Let_def len parts read_le4]
  have "c \<noteq> crc32c (take (length p) body)" using crc c by auto
  then show ?thesis unfolding f_def [symmetric] step using long by simp
qed

section \<open>What a decoder lets through\<close>

definition yields :: "'a Result reader \<Rightarrow> ('a \<Rightarrow> bool) \<Rightarrow> bool" where
  "yields m P \<longleftrightarrow> (\<forall>r v r'. run_state m r = (Inr v, r') \<longrightarrow> P v)"

lemma yields_bind: "(\<And>x. yields (k x) P) \<Longrightarrow> yields (State_Monad.bind m k) P"
  unfolding yields_def State_Monad.bind_def by (auto split: prod.splits)

lemma yields_try: "(\<And>x. yields (k x) P) \<Longrightarrow> yields (r_try m k) P"
  unfolding r_try_def
  by (rule yields_bind) (auto simp: yields_def State_Monad.return_def split: sum.split)

lemma yields_checked: "yields k P \<Longrightarrow> yields (r_checked k) P"
  unfolding r_checked_def
  by (rule yields_bind) (auto simp: yields_def State_Monad.return_def)

lemma yields_validated: "(st_ok status \<Longrightarrow> P v) \<Longrightarrow> yields (r_validated status v) P"
  by (auto simp: yields_def r_validated_def r_refuse_def r_done_def State_Monad.return_def)

lemmas yields_intros = yields_bind yields_try yields_checked yields_validated

lemma yields_policy: "yields get_policy (\<lambda>v. st_ok (validate_policy v))"
  unfolding get_policy_def Let_def by (intro yields_intros)

lemma yields_obligations: "yields get_obligations (\<lambda>v. st_ok (validate_obligations v))"
  unfolding get_obligations_def Let_def by (intro yields_intros)

lemma yields_set: "yields get_set (\<lambda>v. st_ok (validate_set v))"
  unfolding get_set_def Let_def by (intro yields_intros)

lemma yields_exactly: "yields g P \<Longrightarrow> decode_exactly g bs = Inr v \<Longrightarrow> P v"
  by (auto simp: yields_def decode_exactly_def Let_def split: prod.splits sum.splits if_splits)

section \<open>Bounds of a recovered state\<close>

definition bounded_state :: "DurableState \<Rightarrow> bool" where
  "bounded_state s \<longleftrightarrow>
     (ds_has_policy s \<longrightarrow> st_ok (validate_policy (ds_policy s))) \<and>
     (ds_has_obligations s \<longrightarrow> st_ok (validate_obligations (ds_obligations s))) \<and>
     (\<forall>v \<in> set (ds_sets s). st_ok (validate_set v)) \<and> distinct (map as_id (ds_sets s)) \<and>
     length (ds_sets s) \<le> max_alternate_sets \<and> length (ds_fences s) \<le> max_fences \<and>
     distinct (map ar_id (ds_attempts s)) \<and> length (ds_attempts s) \<le> max_attempts \<and>
     length (ds_lineage s) \<le> max_lineage"

lemma length_update_first [simp]: "length (update_first P y xs) = length xs"
  by (induction xs) simp_all

lemma set_update_first: "set (update_first P y xs) \<subseteq> insert y (set xs)"
  by (induction xs) auto

lemma map_update_first:
  "(\<And>x. P x \<Longrightarrow> f x = f y) \<Longrightarrow> map f (update_first P y xs) = map f xs"
  by (induction xs) auto

lemma length_erase_first: "list_ex P xs \<Longrightarrow> Suc (length (erase_first P xs)) = length xs"
  by (induction xs) auto

lemma keys_erase_first: "set (map f (erase_first P xs)) \<subseteq> set (map f xs)"
  by (induction xs) auto

lemma distinct_erase_first:
  "distinct (map f xs) \<Longrightarrow> distinct (map f (erase_first P xs))"
proof (induction xs)
  case (Cons x xs)
  then show ?case using keys_erase_first [of f P xs] by auto
qed simp

lemma key_not_in: "\<not> list_ex (\<lambda>c. f c = k) xs \<Longrightarrow> k \<notin> set (map f xs)"
  by (induction xs) auto

lemma apply_set_bounded:
  assumes "bounded_state s" "st_ok (validate_set v)"
  shows "bounded_state (snd (apply_set s v))"
proof (cases "list_ex (\<lambda>c. as_id c = as_id v) (ds_sets s)")
  case True
  have "map as_id (update_first (\<lambda>c. as_id c = as_id v) v (ds_sets s)) = map as_id (ds_sets s)"
    by (rule map_update_first) simp
  moreover have "\<forall>c \<in> set (update_first (\<lambda>c. as_id c = as_id v) v (ds_sets s)).
      st_ok (validate_set c)"
    using assms set_update_first [of _ v "ds_sets s"] by (fastforce simp: bounded_state_def)
  ultimately show ?thesis
    using True assms(1) by (simp add: apply_set_def bounded_state_def)
next
  case False
  then show ?thesis
    using assms key_not_in [OF False] by (simp add: apply_set_def bounded_state_def)
qed

lemma apply_attempt_bounded:
  assumes "bounded_state s"
  shows "bounded_state (snd (apply_attempt s v))"
proof (cases "list_ex (\<lambda>c. ar_id c = ar_id v) (ds_attempts s)")
  case True
  have "map ar_id (update_first (\<lambda>c. ar_id c = ar_id v) v (ds_attempts s)) =
      map ar_id (ds_attempts s)"
    by (rule map_update_first) simp
  then show ?thesis
    using True assms by (simp add: apply_attempt_def bounded_state_def)
next
  case False
  let ?old = "erase_first (\<lambda>c. is_terminal_state (ar_state c)) (ds_attempts s)"
  have "ar_id v \<notin> set (map ar_id ?old)"
    using key_not_in [OF False] keys_erase_first by fast
  moreover have "distinct (map ar_id ?old)"
    using assms by (intro distinct_erase_first) (simp add: bounded_state_def)
  ultimately show ?thesis
    using False assms key_not_in [OF False] length_erase_first [of _ "ds_attempts s"]
    by (simp add: apply_attempt_def bounded_state_def)
qed

lemma apply_counters_keeps:
  "bounded_state (snd (apply_counters s p)) = bounded_state s"
  by (simp add: apply_counters_def Let_def State_Monad.bind_def State_Monad.return_def
      bounded_state_def split_beta)

lemma apply_record_bounded:
  assumes "bounded_state s"
  shows "bounded_state (snd (apply_record s t p))"
proof (cases t)
  case RecordType_policy_set
  show ?thesis
  proof (cases "decode_exactly get_policy p")
    case (Inr v)
    then show ?thesis
      using assms RecordType_policy_set yields_exactly [OF yields_policy Inr]
      by (simp add: apply_record_def apply_policy_def bounded_state_def)
  qed (use assms RecordType_policy_set in \<open>simp add: apply_record_def\<close>)
next
  case RecordType_obligations_set
  show ?thesis
  proof (cases "decode_exactly get_obligations p")
    case (Inr v)
    then show ?thesis
      using assms RecordType_obligations_set yields_exactly [OF yields_obligations Inr]
      by (simp add: apply_record_def apply_obligations_def bounded_state_def)
  qed (use assms RecordType_obligations_set in \<open>simp add: apply_record_def\<close>)
next
  case RecordType_alternate_set_put
  show ?thesis
  proof (cases "decode_exactly get_set p")
    case (Inr v)
    then show ?thesis
      using apply_set_bounded [OF assms yields_exactly [OF yields_set Inr]]
        RecordType_alternate_set_put by (simp add: apply_record_def)
  qed (use assms RecordType_alternate_set_put in \<open>simp add: apply_record_def\<close>)
next
  case RecordType_lineage_entry
  then show ?thesis
    using assms
    by (auto simp: apply_record_def apply_lineage_def Let_def bounded_state_def max_lineage_def
        split: sum.split)
qed (use assms in \<open>simp_all add: apply_record_def apply_attempt_bounded apply_counters_keeps
      split: sum.split\<close>,
    simp_all add: apply_fence_def apply_epoch_def Let_def bounded_state_def
      split: sum.split prod.split)

text \<open>An invariant of \<open>apply_record\<close> is an invariant of both loops that apply records.\<close>

locale record_invariant =
  fixes I :: "DurableState \<Rightarrow> bool"
  assumes initially: "I (empty_state\<lparr>ds_last_sequence := q\<rparr>)"
    and applied: "I s \<Longrightarrow> I (snd (apply_record s t p))"
    and resequenced: "I s \<Longrightarrow> I (s\<lparr>ds_last_sequence := q\<rparr>)"
begin

lemma snapshot_keeps: "I s \<Longrightarrow> decode_snapshot_records body s n = Inr (s', m) \<Longrightarrow> I s'"
proof (induction "length body" arbitrary: body s n rule: less_induct)
  case less
  show ?case
  proof (cases "body = []")
    case True
    then show ?thesis using less.prems by (simp add: decode_snapshot_records.simps)
  next
    case False
    note run = less.prems(2) [unfolded decode_snapshot_records.simps [of body s n]]
    obtain h where h: "decode_journal_header (take journal_header_bytes body) = Inr h"
      using run False by (auto split: if_splits sum.splits)
    define k where "k = journal_header_bytes + unat (jh_payload_length h) + journal_trailer_bytes"
    let ?s1 = "snd (apply_record s (record_type_of (jh_type h))
      (take (unat (jh_payload_length h)) (drop journal_header_bytes body)))"
    have "decode_snapshot_records (drop k body) ?s1 (n + 1) = Inr (s', m)"
      using run False unfolding h sum.case Let_def k_def by (auto split: if_splits prod.splits)
    moreover have "length (drop k body) < length body"
      using False by (simp add: k_def journal_header_bytes_def)
    ultimately show ?thesis using less.hyps applied [OF less.prems(1)] by blast
  qed
qed

lemma replay_keeps: "I s \<Longrightarrow> replay_records rest pos s rep = Inr (s', rep', e) \<Longrightarrow> I s'"
proof (induction "length rest" arbitrary: rest pos s rep rule: less_induct)
  case less
  show ?case
  proof (cases "rest = []")
    case True
    then show ?thesis using less.prems by simp
  next
    case False
    note run = less.prems(2) [unfolded replay_records.simps [of rest pos s rep]]
    show ?thesis
    proof (cases "length rest < journal_header_bytes")
      case True
      then show ?thesis using run False less.prems(1) by simp
    next
      case long: False
      obtain h where h: "decode_journal_header (take journal_header_bytes rest) = Inr h"
        using run False long by (auto split: sum.splits)
      define k where "k = journal_header_bytes + unat (jh_payload_length h) + journal_trailer_bytes"
      let ?s1 = "snd (apply_record s (record_type_of (jh_type h))
        (take (unat (jh_payload_length h)) (drop journal_header_bytes rest)))"
      note run = run [unfolded h sum.case Let_def]
      consider "s' = s" | s1 rep1 where
        "replay_records (drop k rest) (pos + k) s1 rep1 = Inr (s', rep', e)"
        "s1 = s \<or> s1 = ?s1\<lparr>ds_last_sequence := jh_sequence h\<rparr>"
        using run False long unfolding k_def by (auto split: if_splits prod.splits)
      then show ?thesis
      proof cases
        case 1
        then show ?thesis using less.prems(1) by simp
      next
        case (2 s1 rep1)
        have "length (drop k rest) < length rest"
          using False by (simp add: k_def journal_header_bytes_def)
        moreover have "I s1" using 2(2) less.prems(1) applied resequenced by blast
        ultimately show ?thesis using less.hyps 2(1) by blast
      qed
    qed
  qed
qed

lemma loaded:
  assumes "load s = Inr (state, s')"
  shows "I state"
proof -
  obtain base s1 where base: "load_snapshot s = Inr (base, s1)" "replay_journal base s1 = Inr (state, s')"
    using assms by (auto simp: load_def split: if_splits sum.splits prod.splits)
  have "I empty_state" using initially [of 0] by (simp add: empty_state_def)
  then have "I base"
    using base(1) snapshot_keeps [OF initially]
    by (auto simp: load_snapshot_def decode_snapshot_def Let_def
        split: option.splits if_splits sum.splits prod.splits)
  then show ?thesis
    using base(2) replay_keeps
    by (auto simp: replay_journal_def Let_def
        split: option.splits if_splits sum.splits prod.splits ReplayEnd.splits)
qed

end

interpretation bounded: record_invariant bounded_state
proof
  show "bounded_state (empty_state\<lparr>ds_last_sequence := q\<rparr>)" for q
    by (simp add: bounded_state_def empty_state_def)
  show "bounded_state s \<Longrightarrow> bounded_state (s\<lparr>ds_last_sequence := q\<rparr>)" for s q
    by (simp add: bounded_state_def)
qed (rule apply_record_bounded)

section \<open>Repair of a torn tail\<close>

lemma replay_repaired:
  "replay_records xs pos base rep = Inr (state, rep', ReplayEnd_torn at) \<Longrightarrow>
   \<exists>n. at = pos + n \<and> n \<le> length xs \<and>
     replay_records (take n xs) pos base rep = Inr (state, rep', ReplayEnd_clean)"
proof (induction "length xs" arbitrary: xs pos base rep rule: less_induct)
  case less
  from less.prems show ?case
  proof (cases rule: replay_cases)
    case torn
    then show ?thesis by (intro exI [of _ 0]) simp
  next
    case (whole n base1 rep1)
    have shorter: "length (drop n xs) < length xs" using whole(1,2) by simp
    obtain j where j: "at = pos + n + j" "j \<le> length (drop n xs)"
      "replay_records (take j (drop n xs)) (pos + n) base1 rep1 = Inr (state, rep', ReplayEnd_clean)"
      using less.hyps [OF shorter whole(4)] by blast
    have "replay_records (take (n + j) xs) pos base rep =
        replay_records (drop n (take (n + j) xs)) (pos + n) base1 rep1"
      using j(2) whole(2) by (intro whole(3)) (simp_all add: min_def)
    then show ?thesis using j whole(2) by (intro exI [of _ "n + j"]) (simp add: drop_take)
  qed simp
qed

lemma load_repaired:
  assumes "load s = Inr (state, s')" "sr_journal_open s" "sr_journal s = Some bytes"
    and "\<not> sr_inspection_only s"
  shows "holds s' state"
proof -
  obtain base s1 where base: "load_snapshot s = Inr (base, s1)" "\<not> sr_closed s"
    "replay_journal base s1 = Inr (state, s')"
    using assms(1) by (auto simp: load_def split: if_splits sum.splits prod.splits)
  have s1: "sr_journal s1 = Some bytes" "sr_journal_open s1" "\<not> sr_inspection_only s1"
    "\<not> sr_closed s1" "sr_snapshot s1 = sr_snapshot s" "snapshot_holds (sr_snapshot s) base"
    using base(1,2) assms(2-4)
    by (auto simp: load_snapshot_def snapshot_holds_def split: option.splits if_splits sum.splits)
  have "\<exists>bytes' rep rep'. sr_journal s' = Some bytes' \<and>
      replay_records bytes' 0 base rep = Inr (state, rep', ReplayEnd_clean) \<and>
      sr_snapshot s' = sr_snapshot s1 \<and> sr_last_sequence s' = ds_last_sequence state \<and>
      \<not> sr_closed s' \<and> sr_journal_open s' \<and> \<not> sr_inspection_only s'"
  proof (cases "bytes = []")
    case True
    then show ?thesis using base(3) s1 by (auto simp: replay_journal_def Let_def)
  next
    case False
    obtain rep' e where run: "replay_records bytes 0 base
        ((sr_recovery s1)\<lparr>rr_journal_bytes := word_of_nat (length bytes)\<rparr>) = Inr (state, rep', e)"
      using base(3) s1(1,2) False
      by (auto simp: replay_journal_def Let_def split: sum.splits prod.splits ReplayEnd.splits)
    then show ?thesis
      using base(3) s1 False replay_repaired [of bytes 0 base _ state rep']
      by (cases e) (auto simp: replay_journal_def Let_def, blast+)
  qed
  then show ?thesis
    using s1(5,6) replay_anywhere unfolding holds_def replays_def by metis
qed

section \<open>Properties\<close>

definition fresh_store :: "AppendIO list \<Rightarrow> SnapshotIO list \<Rightarrow> Store" where
  "fresh_store append_io snapshot_io =
     \<lparr>sr_journal = Some [], sr_snapshot = None, sr_journal_open = True,
      sr_inspection_only = False, sr_closed = False, sr_last_sequence = 0, sr_journal_bytes = 0,
      sr_recovery = empty_report, sr_append_io = append_io, sr_snapshot_io = snapshot_io\<rparr>"

lemma fresh_holds: "holds (fresh_store aio sio) empty_state"
  by (auto simp: holds_def fresh_store_def empty_state_def snapshot_holds_def replays_def)

lemma counters_applicable: "applicable RecordType_counters (encode_counters_record src) state"
  by (simp add: applicable_def apply_record_def encode_counters_eq apply_counters_eq)

text \<open>
  C4: An append is atomic across a crash. Whatever the seek, the write and the flush of \<open>append\<close>
  answer, and wherever the write stopped, a process that opens the files afterwards recovers either
  the state before the record or the state after it; when \<open>append\<close> reported success it is the
  state after it.
\<close>

theorem append_atomic:
  assumes "holds s state" "append_record t p s = (status, s')" "applicable t p state"
  shows "(st_ok status \<longrightarrow> recovered s' = Inr (next_state t p state)) \<and>
    (\<not> st_ok status \<longrightarrow> recovered s' = Inr state \<or> recovered s' = Inr (next_state t p state))"
  using assms(1,2)
proof (cases rule: append_cases)
  case refused
  then show ?thesis using holds_recovered by simp
next
  case (partial bytes n)
  have "recovered s' = Inr (if n < 28 + length p then state else next_state t p state)"
    by (rule recovered_torn [OF _ _ assms(1) partial(2,3,4) assms(3)]) (simp_all add: partial(5))
  then show ?thesis using partial(1) by simp
next
  case written
  then show ?thesis
    using holds_recovered [OF holds_after_append [OF assms(1,2) _ assms(3)]] by simp
qed

theorem append_atomic_witness:
  "recovered (snd (append_record RecordType_counters (encode_counters_record empty_state)
      (fresh_store [AppendIO_sync_failed 30] []))) \<in>
     {Inr empty_state, Inr (next_state RecordType_counters (encode_counters_record empty_state)
        empty_state)}"
  using append_atomic [of "fresh_store [AppendIO_sync_failed 30] []",
      OF fresh_holds prod.collapse [symmetric] counters_applicable [of empty_state]]
  by blast

text \<open>
  C22: Compaction preserves the state. Whatever opening, writing, renaming and resetting answer in
  \<open>write_snapshot\<close>, including a crash between the replacement of the snapshot and the reset of the
  journal, a process that opens the files afterwards recovers the same state; on success the
  journal is empty and the store is ready for the next append.
\<close>

theorem compaction_preserves:
  assumes "holds s state" "wf_state state" "write_snapshot state s = (status, s')"
  shows "recovered s' = Inr state \<and>
    (st_ok status \<longrightarrow> holds s' state \<and> sr_journal s' = Some [])"
proof -
  obtain bytes base where s: "sr_journal s = Some bytes" "snapshot_holds (sr_snapshot s) base"
    "replays bytes base state" "sr_journal_open s" "\<not> sr_closed s" "\<not> sr_inspection_only s"
    "sr_last_sequence s = ds_last_sequence state"
    using assms(1) by (auto simp: holds_def)
  have size: "encode_snapshot state \<noteq> []" "snapshot_holds (Some (encode_snapshot state)) state"
    using encode_snapshot_size [OF assms(2)] decode_encode_snapshot [OF assms(2)]
    by (simp_all add: snapshot_holds_def)
  define io where "io = (case sr_snapshot_io s of [] \<Rightarrow> SnapshotIO_ok | r # _ \<Rightarrow> r)"
  note run = assms(3) [unfolded write_snapshot_def Let_def, folded io_def]
  have kept: ?thesis if "\<not> st_ok status" "s' = s\<lparr>sr_snapshot_io := tl (sr_snapshot_io s)\<rparr>"
    using holds_recovered [OF assms(1)] that by (simp add: recovered_def)
  show ?thesis
  proof (cases io)
    case SnapshotIO_ok
    then have s': "status = ok_status" "sr_journal s' = Some []"
      "sr_snapshot s' = Some (encode_snapshot state)" "sr_journal_open s'" "\<not> sr_closed s'"
      "\<not> sr_inspection_only s'" "sr_last_sequence s' = ds_last_sequence state"
      using run s size(1) by auto
    then have "holds s' state"
      using size(2) replays_nil by (auto simp: holds_def)
    then show ?thesis using holds_recovered s'(2) by simp
  next
    case SnapshotIO_reset_failed
    then have s': "\<not> st_ok status" "sr_journal s' = Some bytes"
      "sr_snapshot s' = Some (encode_snapshot state)"
      using run s size(1) by auto
    have "\<exists>rep' e. replay_records bytes 0 state rep = Inr (state, rep', e)" for rep
      using s(3) replay_again [of bytes 0 base _ state _ _ state rep]
      unfolding replays_def by (metis order_refl)
    then show ?thesis
      using recovered_eq [OF s'(2), of state] s' size(2) by simp
  qed (use run s size(1) kept in auto)
qed

theorem compaction_preserves_witness:
  "recovered (snd (write_snapshot empty_state (fresh_store [] [SnapshotIO_reset_failed]))) =
     Inr empty_state"
  using compaction_preserves [of "fresh_store [] [SnapshotIO_reset_failed]",
      OF fresh_holds _ prod.collapse [symmetric]]
  by (simp add: wf_state_def empty_state_def)

text \<open>
  Recovery repairs. When \<open>load\<close> succeeds on a writable store, the store is in agreement with
  its files afterwards: a torn tail has been cut off, the next sequence number continues the
  recovered state, and a second process recovers the same state again.
\<close>

theorem recovery_repairs:
  assumes "load s = Inr (state, s')" "sr_journal_open s" "sr_journal s = Some bytes"
    and "\<not> sr_inspection_only s"
  shows "holds s' state \<and> recovered s' = Inr state \<and>
    sr_last_sequence s' = ds_last_sequence state"
  using load_repaired [OF assms] holds_recovered by (auto simp: holds_def)

theorem recovery_repairs_witness:
  "\<exists>s'. load ((fresh_store [] [])\<lparr>sr_journal := Some [1, 2, 3]\<rparr>) = Inr (empty_state, s') \<and>
     recovered s' = Inr empty_state"
proof -
  let ?s = "(fresh_store [] [])\<lparr>sr_journal := Some [1, 2, 3]\<rparr>"
  have "\<exists>s'. load ?s = Inr (empty_state, s')"
    by (simp add: load_def load_snapshot_def replay_journal_def fresh_store_def
        replay_records.simps journal_header_bytes_def)
  then show ?thesis using recovery_repairs [of ?s empty_state] by (auto simp: fresh_store_def)
qed

text \<open>
  C23: Damage is never accepted. Changing any single byte of any complete record of the journal,
  be it in the header, a check or the payload, makes recovery fail instead of returning a state.
\<close>

theorem damage_detected:
  assumes "encode_journal_record t q p = record" "record \<noteq> []" "i < length record"
    and "b \<noteq> record ! i" "sr_journal s = Some (xs @ record[i := b] @ ys)"
    and "snapshot_holds (sr_snapshot s) base" "replays xs base state"
  shows "\<exists>status. recovered s = Inl status"
proof -
  have fr: "frameable q p" "record = frame t q p"
    using assms(1,2) by (auto simp: encode_journal_record_eq split: if_splits)
  let ?bytes = "xs @ record[i := b] @ ys"
  obtain s1 where s1: "open_store (sr_journal s) (sr_snapshot s) default_store_options good_open
      [] [] = Inr s1" "sr_journal s1 = Some ?bytes" "sr_snapshot s1 = sr_snapshot s"
      "sr_journal_open s1" "\<not> sr_closed s1"
    using assms(5)
    by (simp add: open_store_def open_files_def default_store_options_def good_open_def)
  obtain s2 where s2: "load_snapshot s1 = Inr (base, s2)" "sr_journal s2 = Some ?bytes"
    "sr_journal_open s2"
    using assms(6) s1(2-4) by (auto simp: load_snapshot_def snapshot_holds_def split: option.splits)
  have "\<exists>status. replay_records ?bytes 0 base rep = Inl status" for rep
    using replays_then [OF assms(7), of "record[i := b] @ ys" 0 rep]
      damaged_frame [OF fr(1), of i b t ys] assms(3,4) fr(2) by (metis length_frame)
  then obtain status where "replay_records ?bytes 0 base
      ((sr_recovery s2)\<lparr>rr_journal_bytes := word_of_nat (length ?bytes)\<rparr>) = Inl status" by blast
  moreover have "?bytes \<noteq> []" using assms(2) by simp
  ultimately have "replay_journal base s2 = Inl status"
    using s2(2,3) by (simp add: replay_journal_def Let_def)
  then show ?thesis using s1 s2(1) by (simp add: recovered_def load_def)
qed

theorem damage_detected_witness:
  "\<exists>status. recovered ((fresh_store [] [])
     \<lparr>sr_journal := Some ((encode_journal_record RecordType_snapshot_marker 1 [7])[3 := 0])\<rparr>) =
     Inl status"
proof -
  let ?r = "encode_journal_record RecordType_snapshot_marker 1 [7]"
  have r: "?r = frame RecordType_snapshot_marker 1 [7]"
    by (simp add: encode_journal_record_eq frameable_def max_record_payload_def)
  have "?r ! 3 = 0x31" by (simp add: r frame_def frame_head_def le_def journal_magic_def upt_rec)
  then show ?thesis
    using damage_detected [of RecordType_snapshot_marker 1 "[7]" ?r 3 0
        "(fresh_store [] [])\<lparr>sr_journal := Some (?r[3 := 0])\<rparr>" "[]" "[]" empty_state empty_state]
      replays_nil
    by (simp add: r fresh_store_def snapshot_holds_def)
qed

text \<open>
  Whatever the two files contain, a state that \<open>load\<close> returns is within its bounds: policy,
  obligations and every alternate set passed validation, identities of sets and attempts are
  unique, and no table exceeds its limit.
\<close>

theorem load_bounded: "load s = Inr (state, s') \<Longrightarrow> bounded_state state"
  by (rule bounded.loaded)

theorem load_bounded_witness:
  "\<exists>s'. load (fresh_store [] []) = Inr (empty_state, s') \<and> bounded_state empty_state"
proof -
  have "\<exists>s'. load (fresh_store [] []) = Inr (empty_state, s')"
    by (simp add: load_def load_snapshot_def replay_journal_def fresh_store_def)
  then show ?thesis using load_bounded [of "fresh_store [] []"] by blast
qed

text \<open>
  A snapshot restores exactly the state it was taken from, for every well-formed state, and it
  always fits the size bound that recovery enforces.
\<close>

theorem snapshot_round_trip:
  "wf_state s \<Longrightarrow> decode_snapshot (encode_snapshot s) = Inr s \<and>
     length (encode_snapshot s) \<le> max_snapshot_bytes + 64"
  using decode_encode_snapshot encode_snapshot_size by blast

theorem snapshot_round_trip_witness:
  "decode_snapshot (encode_snapshot empty_state) = Inr empty_state"
  using snapshot_round_trip [of empty_state] by (simp add: wf_state_def empty_state_def)

text \<open>
  C40: An acknowledged record can be lost. After an append whose flush failed although the whole
  record reached the file, the sequence number is used again: the next append reports success, but
  replay takes its record for one already applied and passes over it.
\<close>

theorem append_after_failed_sync_lost:
  assumes "holds s state" "ds_last_sequence state \<noteq> - 1"
    and "sr_append_io s = AppendIO_sync_failed n # AppendIO_ok # io" "28 + length p \<le> n"
    and "length p \<le> max_record_payload" "length p2 \<le> max_record_payload"
    and "sr_journal_bytes s + length p + 28 \<le> max_journal_bytes"
    and "sr_journal_bytes s + length p2 + 28 \<le> max_journal_bytes"
    and "applicable t p state"
  shows "\<exists>s1 s2. \<not> st_ok (fst (append_record t p s)) \<and> snd (append_record t p s) = s1 \<and>
    append_record t2 p2 s1 = (ok_status, s2) \<and> recovered s2 = Inr (next_state t p state)"
proof -
  obtain bytes base where s: "sr_journal s = Some bytes" "snapshot_holds (sr_snapshot s) base"
    "replays bytes base state" "sr_journal_open s" "\<not> sr_closed s" "\<not> sr_inspection_only s"
    "sr_last_sequence s = ds_last_sequence state"
    using assms(1) by (auto simp: holds_def)
  let ?q = "ds_last_sequence state + 1"
  have "?q \<noteq> 0" using assms(2) by (simp add: eq_neg_iff_add_eq_0)
  then have fr: "frameable ?q p" "frameable ?q p2" using assms(5,6) by (simp_all add: frameable_def)
  note calc = append_record_def write_frame_def next_append_io_def encode_journal_record_eq fr
    UINT64_MAX_def journal_header_bytes_def journal_trailer_bytes_def
  define s1 where "s1 = s\<lparr>sr_append_io := AppendIO_ok # io,
    sr_journal := Some (bytes @ frame t ?q p)\<rparr>"
  have first: "\<exists>status. append_record t p s = (status, s1) \<and> \<not> st_ok status"
    using assms(2-7) s by (simp add: calc s1_def Let_def)
  have "\<exists>s2. append_record t2 p2 s1 = (ok_status, s2) \<and>
      sr_journal s2 = Some ((bytes @ frame t ?q p) @ frame t2 ?q p2) \<and>
      sr_snapshot s2 = sr_snapshot s"
    using assms(2-8) s by (simp add: calc s1_def Let_def)
  then obtain s2 where s2: "append_record t2 p2 s1 = (ok_status, s2)"
    "sr_journal s2 = Some ((bytes @ frame t ?q p) @ frame t2 ?q p2)"
    "sr_snapshot s2 = sr_snapshot s" by blast
  have "replays (bytes @ frame t ?q p) base (next_state t p state)"
    using replays_frame [OF s(3) fr(1) assms(9,2)] .
  then have "replays ((bytes @ frame t ?q p) @ frame t2 ?q p2) base (next_state t p state)"
    by (rule replays_stale_frame [OF _ fr(2)]) (simp add: next_state_def)
  then have "recovered s2 = Inr (next_state t p state)"
    using recovered_eq [OF s2(2), of base] s(2) s2(3) unfolding replays_def by metis
  then show ?thesis using first s2(1) by auto
qed

theorem append_after_failed_sync_lost_witness:
  "\<exists>s1 s2. \<not> st_ok (fst (append_record RecordType_counters (encode_counters_record empty_state)
        (fresh_store [AppendIO_sync_failed 69, AppendIO_ok] []))) \<and>
    snd (append_record RecordType_counters (encode_counters_record empty_state)
        (fresh_store [AppendIO_sync_failed 69, AppendIO_ok] [])) = s1 \<and>
    append_record RecordType_fence_recorded [] s1 = (ok_status, s2) \<and>
    recovered s2 = Inr (next_state RecordType_counters (encode_counters_record empty_state)
      empty_state)"
  using append_after_failed_sync_lost [of "fresh_store [AppendIO_sync_failed 69, AppendIO_ok] []",
      OF fresh_holds _ _ _ _ _ _ _ counters_applicable [of empty_state],
      of 69 "[]" "[]" RecordType_fence_recorded]
  by (simp add: fresh_store_def payload_lengths max_record_payload_def max_journal_bytes_def
      empty_state_def)

text \<open>
  A refused record changes nothing: whenever \<open>apply_record\<close> reports an error for a record that
  is not a counters record, the state it was applied to is untouched.
\<close>

theorem refused_record_changes_nothing:
  assumes "apply_record state t p = (status, state')" "\<not> st_ok status"
    and "t \<noteq> RecordType_counters"
  shows "state' = state"
  using assms
  by (auto simp: apply_record_def apply_set_def apply_fence_def apply_attempt_def
      split: RecordType.splits sum.splits if_splits)

theorem refused_record_changes_nothing_witness:
  "\<exists>status. apply_record empty_state RecordType_fence_recorded [] = (status, empty_state) \<and>
     \<not> st_ok status"
proof -
  obtain status state' where a: "apply_record empty_state RecordType_fence_recorded [] =
      (status, state')" by fastforce
  moreover have "\<not> st_ok (fst (apply_record empty_state RecordType_fence_recorded []))"
    by (simp add: apply_record_def decode_exactly_def get_fence_def byte_reader_def r_u64_def
        r_fixed_def br_ok_def remaining_def r_fail_def State_Monad.bind_def r_try_def r_checked_def
        get_authority_def get_reason_def r_done_def r_refuse_def State_Monad.return_def
        State_Monad.get_def r_u16_def)
  ultimately show ?thesis using refused_record_changes_nothing [OF a] by auto
qed

text \<open>
  A refused counters record has already been applied. A counters payload of eight bytes is
  refused as truncated, and yet the attempt counter has moved.
\<close>

theorem counters_refused_but_applied:
  "\<not> st_ok (fst (apply_record empty_state RecordType_counters (le 8 (5 :: u64)))) \<and>
   ds_attempt_sequence (snd (apply_record empty_state RecordType_counters (le 8 (5 :: u64)))) = 5"
proof -
  have "run_state r_u64 (byte_reader (le 8 (5 :: u64))) = (5, reader_at (le 8 (5 :: u64)) [])"
    by (simp add: byte_reader_at codec)
  then show ?thesis
    by (simp add: apply_record_def apply_counters_def State_Monad.bind_def State_Monad.return_def
        State_Monad.get_def r_u64_def [unfolded r_fixed_def] r_boolean_def r_u8_def r_fixed_def
        reader_at_def br_ok_def remaining_def r_fail_def end_of_def Let_def empty_state_def)
qed

end
