(* ===== verification/PFF_Map.thy ===== *)
theory PFF_Map
  imports PFF_Prelude
begin

text \<open>
  \<open>std::map\<close> as the coordinator uses it: an association list in strictly ascending key order,
  which is also the iteration order. The contract of an ordered map is a locale; the list
  implements it.
\<close>

section \<open>Model\<close>

type_synonym ('k, 'v) smap = "('k \<times> 'v) list"

text \<open>\<open>m[k] = v\<close> and \<open>insert_or_assign\<close>.\<close>

fun map_assign :: "'k :: linorder \<Rightarrow> 'v \<Rightarrow> ('k, 'v) smap \<Rightarrow> ('k, 'v) smap" where
  "map_assign k v [] = [(k, v)]"
| "map_assign k v ((j, w) # m) =
     (if k < j then (k, v) # (j, w) # m
      else if k = j then (k, v) # m
      else (j, w) # map_assign k v m)"

text \<open>\<open>emplace\<close> keeps an existing entry.\<close>

definition map_emplace :: "'k :: linorder \<Rightarrow> 'v \<Rightarrow> ('k, 'v) smap \<Rightarrow> ('k, 'v) smap" where
  "map_emplace k v m = (case map_of m k of None \<Rightarrow> map_assign k v m | Some _ \<Rightarrow> m)"

definition map_erase :: "'k \<Rightarrow> ('k, 'v) smap \<Rightarrow> ('k, 'v) smap" where
  "map_erase k m = filter (\<lambda>e. fst e \<noteq> k) m"

definition ordered :: "('k :: linorder, 'v) smap \<Rightarrow> bool" where
  "ordered m \<longleftrightarrow> sorted_wrt (<) (map fst m)"

section \<open>Contract\<close>

locale ordered_map =
  fixes inv :: "'m \<Rightarrow> bool" and empty :: 'm and find :: "'m \<Rightarrow> 'k :: linorder \<Rightarrow> 'v option"
    and assign :: "'k \<Rightarrow> 'v \<Rightarrow> 'm \<Rightarrow> 'm" and erase :: "'k \<Rightarrow> 'm \<Rightarrow> 'm"
    and entries :: "'m \<Rightarrow> ('k \<times> 'v) list"
  assumes inv_empty: "inv empty" and find_empty: "find empty k = None"
    and inv_assign: "inv m \<Longrightarrow> inv (assign k v m)"
    and find_assign: "inv m \<Longrightarrow> find (assign k v m) = (find m)(k \<mapsto> v)"
    and inv_erase: "inv m \<Longrightarrow> inv (erase k m)"
    and find_erase: "inv m \<Longrightarrow> find (erase k m) = (find m)(k := None)"
    and entries_find: "inv m \<Longrightarrow> map_of (entries m) = find m"
    and entries_sorted: "inv m \<Longrightarrow> sorted_wrt (<) (map fst (entries m))"
begin

lemma distinct_entries: "inv m \<Longrightarrow> distinct (map fst (entries m))"
  using entries_sorted strict_sorted_iff by blast

lemma entry_find: "inv m \<Longrightarrow> (k, v) \<in> set (entries m) \<longleftrightarrow> find m k = Some v"
  using distinct_entries entries_find by (metis map_of_eq_Some_iff)

lemma entries_determined:
  assumes "inv m" "inv m'" "find m = find m'"
  shows "entries m = entries m'"
proof -
  have "dom (map_of (entries m)) = dom (map_of (entries m'))"
    using assms entries_find by metis
  then have "set (map fst (entries m)) = set (map fst (entries m'))"
    by (simp add: dom_map_of_conv_image_fst)
  then have "map fst (entries m) = map fst (entries m')"
    using entries_sorted assms(1,2) by (intro sorted_wrt_unique [of "(<)"]) auto
  moreover have "map snd (entries n) = map (\<lambda>k. the (find n k)) (map fst (entries n))"
    if "inv n" for n
    using entry_find [OF that] by (auto intro!: map_cong)
  ultimately show ?thesis
    using assms by (metis zip_map_fst_snd)
qed

lemma entries_assign_same: "inv m \<Longrightarrow> find m k = Some v \<Longrightarrow> entries (assign k v m) = entries m"
  by (rule entries_determined) (auto simp: inv_assign find_assign)

end

section \<open>The list implements the contract\<close>

lemma map_of_assign [simp]: "map_of (map_assign k v m) = (map_of m)(k \<mapsto> v)"
  by (induction m) (auto simp: fun_eq_iff)

lemma map_of_erase [simp]: "map_of (map_erase k m) = (map_of m)(k := None)"
  unfolding map_erase_def by (induction m) (auto simp: fun_eq_iff)

lemma map_of_emplace:
  "map_of (map_emplace k v m) = (case map_of m k of None \<Rightarrow> (map_of m)(k \<mapsto> v) | Some _ \<Rightarrow> map_of m)"
  by (simp add: map_emplace_def split: option.split)

lemma keys_assign: "fst ` set (map_assign k v m) = insert k (fst ` set m)"
  by (induction k v m rule: map_assign.induct) auto

lemma ordered_assign: "ordered m \<Longrightarrow> ordered (map_assign k v m)"
proof (induction m)
  case (Cons e m)
  obtain j w where e: "e = (j, w)" by (cases e)
  have tail: "ordered m" "\<forall>i \<in> fst ` set m. j < i"
    using Cons.prems e by (auto simp: ordered_def)
  have "\<forall>i \<in> fst ` set (map_assign k v m). j < i" if "j < k"
    using tail(2) that by (simp add: keys_assign)
  then show ?case
    using Cons.prems e Cons.IH [OF tail(1)] tail by (auto simp: ordered_def)
qed (simp add: ordered_def)

lemma ordered_erase: "ordered m \<Longrightarrow> ordered (map_erase k m)"
  unfolding ordered_def map_erase_def by (induction m) auto

interpretation smap: ordered_map ordered "[]" map_of map_assign map_erase "\<lambda>m. m"
  by unfold_locales (simp_all add: ordered_assign ordered_erase, simp_all add: ordered_def)

lemma ordered_emplace: "ordered m \<Longrightarrow> ordered (map_emplace k v m)"
  by (simp add: map_emplace_def ordered_assign split: option.split)

lemma length_assign:
  "ordered m \<Longrightarrow> length (map_assign k v m) = (if map_of m k = None then Suc (length m) else length m)"
proof (induction m)
  case (Cons e m)
  obtain j w where e: "e = (j, w)" by (cases e)
  have "map_of m k = None" if "k < j"
    using Cons.prems e that by (force simp: ordered_def map_of_eq_None_iff)
  then show ?case using Cons e by (auto simp: ordered_def)
qed simp

lemma length_erase: "length (map_erase k m) \<le> length m"
  by (simp add: map_erase_def)

lemma length_erase_present:
  "map_of m k = Some v \<Longrightarrow> length (map_erase k m) < length m"
  unfolding map_erase_def by (rule length_filter_less [of "(k, v)"]) (auto dest: map_of_SomeD)

end
