(* ===== verification/PFF_Fabric.thy ===== *)
theory PFF_Fabric
  imports PFF_Document PFF_Durability PFF_Map
begin

text \<open>
  The coordinator of \<open>include/pff/fabric.hpp\<close> and \<open>src/fabric.cpp\<close>: its state and every
  operation that changes it. All operations run under one mutex, so an execution is a sequence of
  them.

  An operation takes the coordinator and returns its status or result next to the coordinator it
  leaves behind, also when it fails: several operations change the in-memory record of an attempt
  before the journal has accepted it, and the model keeps that order. Allocation failure
  (\<open>std::bad_alloc\<close>) is not modelled. Field prefixes: \<open>fo_\<close> options, \<open>gr_\<close> grant,
  \<open>pa_\<close> authorization, \<open>fb_\<close> coordinator.
\<close>

unbundle bit_operations_syntax

section \<open>State\<close>

record FabricOptions =
  fo_provenance :: Provenance
  fo_max_retained_attempts :: u32
  fo_enable_compaction :: bool
  fo_compaction_journal_bytes :: u64

definition default_fabric_options :: FabricOptions where
  "default_fabric_options =
     \<lparr>fo_provenance = Provenance_synthetic, fo_max_retained_attempts = 256,
      fo_enable_compaction = True, fo_compaction_journal_bytes = word_of_nat max_journal_bytes\<rparr>"

record Grant =
  gr_id :: u64
  gr_attempt :: AttemptId
  gr_path :: PathId
  gr_basis :: AuthorityVector
  gr_kind :: AuthorityKind

definition empty_grant :: Grant where
  "empty_grant = \<lparr>gr_id = absent, gr_attempt = absent, gr_path = absent, gr_basis = av_absent,
     gr_kind = AuthorityKind_grant\<rparr>"

record PromotionAuthorization =
  pa_decision :: PromotionDecision
  pa_grant :: Grant

definition authorized :: "PromotionAuthorization \<Rightarrow> bool" where
  "authorized a \<longleftrightarrow>
     pd_outcome (pa_decision a) = PromotionOutcome_authorized \<and> valid (pd_selected (pa_decision a))"

definition refusal :: "PromotionDecision \<Rightarrow> PromotionAuthorization" where
  "refusal decision = \<lparr>pa_decision = decision, pa_grant = empty_grant\<rparr>"

record Fabric =
  fb_store :: Store
  fb_identity :: FabricIdentity
  fb_options :: FabricOptions
  fb_state :: DurableState
  fb_sets :: "(AlternateSetId, AlternateSet) smap"
  fb_evidence :: "(PathId, PathEvidence) smap"
  fb_attempts :: "(AttemptId, AttemptRecord) smap"
  fb_path_fences :: "(PathId, Reason) smap"
  fb_active_attempt :: AttemptId
  fb_grants :: "(AttemptId, Grant) smap"
  fb_stats :: FabricStats

text \<open>\<open>++stats_.field\<close>, and an update of the durable state.\<close>

definition tally :: "((u64 \<Rightarrow> u64) \<Rightarrow> FabricStats \<Rightarrow> FabricStats) \<Rightarrow> Fabric \<Rightarrow> Fabric" where
  "tally field f = f\<lparr>fb_stats := field (\<lambda>n. n + 1) (fb_stats f)\<rparr>"

definition with_state :: "(DurableState \<Rightarrow> DurableState) \<Rightarrow> Fabric \<Rightarrow> Fabric" where
  "with_state g f = f\<lparr>fb_state := g (fb_state f)\<rparr>"

text \<open>\<open>if (!status.ok()) return status;\<close> in operations that return a status and a result.\<close>

definition then_do :: "Status \<times> 's \<Rightarrow> ('s \<Rightarrow> Status \<times> 's) \<Rightarrow> Status \<times> 's" where
  "then_do r k = (case r of (status, f) \<Rightarrow> if \<not> st_ok status then (status, f) else k f)"

definition then_return :: "Status \<times> 's \<Rightarrow> ('s \<Rightarrow> 'a Result \<times> 's) \<Rightarrow> 'a Result \<times> 's" where
  "then_return r k = (case r of (status, f) \<Rightarrow> if \<not> st_ok status then (Inl status, f) else k f)"

section \<open>Helpers under the lock\<close>

definition append_locked :: "RecordType \<Rightarrow> byte list \<Rightarrow> Fabric \<Rightarrow> Status \<times> Fabric" where
  "append_locked type payload f =
     (case append_record type payload (fb_store f) of
        (status, store) \<Rightarrow>
          (let f = f\<lparr>fb_store := store\<rparr> in
           if \<not> st_ok status then (status, f)
           else (status, tally fs_journal_records_update
             (with_state (\<lambda>s. s\<lparr>ds_last_sequence := sr_last_sequence store\<rparr>) f))))"

definition sync_attempts_locked :: "Fabric \<Rightarrow> Fabric" where
  "sync_attempts_locked f = with_state (\<lambda>s. s\<lparr>ds_attempts := map snd (fb_attempts f)\<rparr>) f"

definition find_attempt_locked :: "AttemptId \<Rightarrow> Fabric \<Rightarrow> AttemptRecord option" where
  "find_attempt_locked i f = map_of (fb_attempts f) i"

text \<open>A write through the pointer \<open>find_attempt_locked\<close> returned.\<close>

definition store_attempt :: "AttemptId \<Rightarrow> AttemptRecord \<Rightarrow> Fabric \<Rightarrow> Fabric" where
  "store_attempt i attempt f = f\<lparr>fb_attempts := map_assign i attempt (fb_attempts f)\<rparr>"

definition retain_attempt_locked :: "AttemptRecord \<Rightarrow> Fabric \<Rightarrow> Status \<times> Fabric" where
  "retain_attempt_locked attempt f =
     (case map_of (fb_attempts f) (ar_id attempt) of
        Some _ \<Rightarrow> (ok_status, store_attempt (ar_id attempt) attempt f)
      | None \<Rightarrow>
          if length (fb_attempts f) \<ge> unat (fo_max_retained_attempts (fb_options f)) then
            (case List.find (\<lambda>e. is_terminal_state (ar_state (snd e))) (fb_attempts f) of
               None \<Rightarrow> (Status Code_table_full Reason_table_full ''attempt table full'', f)
             | Some evictable \<Rightarrow>
                 (ok_status, tally fs_attempts_dropped_update
                   (with_state (\<lambda>s. s\<lparr>ds_attempts_dropped := ds_attempts_dropped s + 1\<rparr>)
                   (f\<lparr>fb_attempts := map_emplace (ar_id attempt) attempt
                        (map_erase (fst evictable) (fb_attempts f))\<rparr>))))
          else (ok_status,
            f\<lparr>fb_attempts := map_emplace (ar_id attempt) attempt (fb_attempts f)\<rparr>))"

definition persist_attempt_locked :: "AttemptRecord \<Rightarrow> bool \<Rightarrow> Fabric \<Rightarrow> Status \<times> Fabric" where
  "persist_attempt_locked attempt is_begin f =
     (let payload = encode_attempt_record attempt in
      if payload = [] then
        (Status Code_invalid Reason_invalid_payload ''cannot encode attempt record'', f)
      else then_do
        (append_locked (if is_begin then RecordType_attempt_begin else RecordType_attempt_state)
          payload f)
        (\<lambda>f. retain_attempt_locked attempt
          (with_state (\<lambda>s. s\<lparr>ds_attempt_sequence := max (ds_attempt_sequence s) (ar_id attempt)\<rparr>)
            f)))"

definition persist_lineage_locked :: "LineageEntry \<Rightarrow> Fabric \<Rightarrow> Status \<times> Fabric" where
  "persist_lineage_locked entry f =
     (let payload = encode_lineage_record entry in
      if payload = [] then
        (Status Code_invalid Reason_invalid_payload ''cannot encode lineage record'', f)
      else then_do (append_locked RecordType_lineage_entry payload f)
        (\<lambda>f. (ok_status, with_state (\<lambda>s.
          (let s = s\<lparr>ds_decision_sequence := max (ds_decision_sequence s) (li_decision entry)\<rparr>;
               s = (if length (ds_lineage s) \<ge> max_lineage
                    then s\<lparr>ds_lineage := tl (ds_lineage s), ds_lineage_truncated := True\<rparr> else s)
           in s\<lparr>ds_lineage := ds_lineage s @ [entry]\<rparr>)) f)))"

definition persist_fence_locked :: "FenceRecord \<Rightarrow> Fabric \<Rightarrow> Status \<times> Fabric" where
  "persist_fence_locked fence f =
     (if length (ds_fences (fb_state f)) \<ge> max_fences then
        (Status Code_exhausted Reason_table_full ''fence table full'',
         with_state (\<lambda>s. s\<lparr>ds_fence_overflow := ds_fence_overflow s + 1\<rparr>) f)
      else
     (let payload = encode_fence_record fence in
      if payload = [] then
        (Status Code_invalid Reason_invalid_payload ''cannot encode fence record'', f)
      else then_do (append_locked RecordType_fence_recorded payload f)
        (\<lambda>f. (ok_status, with_state (\<lambda>s. s\<lparr>ds_fences := ds_fences s @ [fence],
          ds_fence_sequence := max (ds_fence_sequence s) (fr_id fence)\<rparr>) f))))"

definition record_fence_locked :: "AttemptId \<Rightarrow> PathId \<Rightarrow> Reason \<Rightarrow> Fabric \<Rightarrow> Status \<times> Fabric" where
  "record_fence_locked attempt path reason f =
     (if ds_fence_sequence (fb_state f) = UINT64_MAX then
        (Status Code_exhausted Reason_table_full ''fence sequence exhausted'', f)
      else persist_fence_locked
        \<lparr>fr_id = ds_fence_sequence (fb_state f) + 1, fr_epoch = fi_epoch (fb_identity f),
         fr_boot = fi_boot (fb_identity f), fr_attempt = attempt, fr_path = path,
         fr_reason = reason, fr_at = ds_authority (fb_state f),
         fr_sequence = ds_last_sequence (fb_state f) + 1\<rparr> f)"

definition fenced_path_ids_locked :: "Fabric \<Rightarrow> PathId list" where
  "fenced_path_ids_locked f = map fst (fb_path_fences f)"

definition active_ids :: "Fabric \<Rightarrow> AttemptId list" where
  "active_ids f = map fst (filter (\<lambda>e. is_active_state (ar_state (snd e))) (fb_attempts f))"

text \<open>An attempt leaves the active states; \<open>last_sequence\<close> is stamped on it.\<close>

definition ended :: "AttemptState \<Rightarrow> Reason \<Rightarrow> Fabric \<Rightarrow> AttemptRecord \<Rightarrow> AttemptRecord" where
  "ended state reason f attempt =
     attempt\<lparr>ar_state := state, ar_terminal_reason := reason,
       ar_terminal_sequence := ds_last_sequence (fb_state f)\<rparr>"

primrec fence_each :: "Reason \<Rightarrow> AttemptState \<Rightarrow> AttemptId list \<Rightarrow> Fabric \<Rightarrow> Status \<times> Fabric" where
  "fence_each reason state [] f = (ok_status, f)"
| "fence_each reason state (i # rest) f =
     (case find_attempt_locked i f of
        None \<Rightarrow> fence_each reason state rest f
      | Some attempt \<Rightarrow>
     (let attempt = ended state reason f attempt in
      then_do (persist_attempt_locked attempt False (store_attempt i attempt f)) (\<lambda>f.
      then_do (record_fence_locked i absent reason f) (\<lambda>f.
      fence_each reason state rest (tally fs_fences_recorded_update f)))))"

definition fence_attempts_locked :: "Reason \<Rightarrow> AttemptState \<Rightarrow> Fabric \<Rightarrow> Status \<times> Fabric" where
  "fence_attempts_locked reason state f =
     (let targets = active_ids f in
      then_do (fence_each reason state targets f) (\<lambda>f.
        (ok_status,
         if targets = [] then f
         else f\<lparr>fb_active_attempt := absent,
                fb_grants := foldl (\<lambda>m i. map_erase i m) (fb_grants f) targets\<rparr>)))"

definition authority_reason :: "AuthorityClass \<Rightarrow> Reason" where
  "authority_reason cls =
     (case cls of
        AuthorityClass_current \<Rightarrow> Reason_authority_current
      | AuthorityClass_stale \<Rightarrow> Reason_authority_stale
      | AuthorityClass_unknown \<Rightarrow> Reason_authority_unknown
      | AuthorityClass_conflict \<Rightarrow> Reason_authority_conflict)"

text \<open>The status and the out-parameter \<open>reason\<close>.\<close>

definition refuse_target :: "Code \<Rightarrow> Reason \<Rightarrow> string \<Rightarrow> Status \<times> Reason" where
  "refuse_target code reason detail = (Status code reason detail, reason)"

definition validate_target_locked :: "PathEvidence \<Rightarrow> Fabric \<Rightarrow> Status \<times> Reason" where
  "validate_target_locked e f =
     (let obligations = ds_obligations (fb_state f);
          cls = cmp_overall (classify (pe_observed_under e) (ds_authority (fb_state f)))
      in if \<not> st_ok (validate_evidence e) then
           (validate_evidence e, st_reason (validate_evidence e))
         else if cls \<noteq> AuthorityClass_current then
           refuse_target Code_stale (authority_reason cls)
             ''target evidence is not bound to current authority''
         else if map_of (fb_path_fences f) (pe_path e) \<noteq> None then
           refuse_target Code_fenced Reason_path_fenced ''target path is fenced''
         else if pe_freshness e \<noteq> Freshness_fresh then
           refuse_target Code_stale
             (if pe_freshness e = Freshness_stale then Reason_evidence_stale
              else Reason_evidence_unknown)
             ''target evidence is not fresh''
         else if pe_eligibility e \<noteq> Eligibility_eligible then
           refuse_target Code_refused
             (if pe_eligibility e = Eligibility_ineligible then Reason_eligibility_ineligible
              else Reason_eligibility_unknown)
             ''target is not proven eligible''
         else if \<not> ds_has_obligations (fb_state f) then
           refuse_target Code_refused Reason_obligations_invalid
             ''no service obligations installed''
         else if so_require_reachable obligations \<and>
                 pe_reachability e \<noteq> Reachability_reachable then
           refuse_target Code_refused
             (if pe_reachability e = Reachability_unreachable then Reason_reachability_unreachable
              else Reason_reachability_unknown)
             ''target is not proven reachable''
         else if so_require_capacity obligations \<and> pe_capacity e \<noteq> CapacityClass_sufficient then
           refuse_target Code_refused
             (if pe_capacity e = CapacityClass_insufficient then Reason_capacity_insufficient
              else Reason_capacity_unknown)
             ''target capacity is not proven sufficient''
         else if pe_capabilities e AND so_required_capabilities obligations \<noteq>
                 so_required_capabilities obligations then
           refuse_target Code_refused Reason_capability_missing
             ''target lacks a required capability''
         else if sint (pe_health_ppm e) < sint (so_min_health_ppm obligations) then
           refuse_target Code_refused Reason_health_below_obligation
             ''target health is below the obligation''
         else if sint (pe_cost_units e) > sint (so_max_cost_units obligations) then
           refuse_target Code_refused Reason_cost_above_obligation
             ''target cost is above the obligation''
         else (ok_status, Reason_authority_current))"

definition refused_decision :: "PromotionOutcome \<Rightarrow> Reason \<Rightarrow> PromotionDecision \<Rightarrow> PromotionDecision" where
  "refused_decision out reason decision =
     decision\<lparr>pd_outcome := out, pd_reason := reason,
       pd_explanation := pd_explanation decision @ [(reason, 0)]\<rparr>"

definition selection_input ::
  "PathId \<Rightarrow> AlternateSet \<Rightarrow> DecisionId \<Rightarrow> AttemptId \<Rightarrow> Fabric \<Rightarrow> SelectionInput" where
  "selection_input incumbent st decision_id attempt f =
     \<lparr>si_incumbent = incumbent, si_set = Some st,
      si_obligations = Some (ds_obligations (fb_state f)), si_policy = Some (ds_policy (fb_state f)),
      si_current = ds_authority (fb_state f), si_expected_set_generation = as_generation st,
      si_fenced_paths = fenced_path_ids_locked f, si_decision_id = decision_id,
      si_attempt = attempt, si_provenance = fo_provenance (fb_options f)\<rparr>"

definition select_locked ::
  "PathId \<Rightarrow> IncumbentCondition \<Rightarrow> AlternateSetId \<Rightarrow> DecisionId \<Rightarrow> AttemptId \<Rightarrow> AuthorityKind \<Rightarrow> Fabric \<Rightarrow>
   PromotionDecision Result" where
  "select_locked incumbent condition set_id decision_id attempt kind f =
     (let decision = empty_decision
            \<lparr>pd_id := decision_id, pd_incumbent := incumbent, pd_basis := ds_authority (fb_state f),
             pd_attempt := attempt, pd_provenance := fo_provenance (fb_options f),
             pd_authority_kind := kind, pd_set := set_id\<rparr>
      in case map_of (fb_sets f) set_id of
           None \<Rightarrow> Inr (refused_decision PromotionOutcome_refused_invalid_input
                    Reason_domain_invalid decision)
         | Some st \<Rightarrow>
             if \<not> ds_has_policy (fb_state f) then
               Inr (refused_decision PromotionOutcome_refused_policy_invalid
                 Reason_policy_invalid decision)
             else if \<not> ds_has_obligations (fb_state f) then
               Inr (refused_decision PromotionOutcome_refused_obligations_invalid
                 Reason_obligations_invalid decision)
             else
               (case evaluate (selection_input incumbent st decision_id attempt f) of
                  Inl status \<Rightarrow> Inr (refused_decision PromotionOutcome_refused_invalid_input
                    (st_reason status) decision)
                | Inr out \<Rightarrow> Inr (out\<lparr>pd_authority_kind := kind\<rparr>)))"

definition snapshot_state_locked :: "Fabric \<Rightarrow> DurableState" where
  "snapshot_state_locked f = (fb_state f)\<lparr>ds_attempts := map snd (fb_attempts f)\<rparr>"

definition compact_if_needed_locked :: "Fabric \<Rightarrow> Status \<times> Fabric" where
  "compact_if_needed_locked f =
     (if \<not> fo_enable_compaction (fb_options f) then (ok_status, f)
      else if sr_journal_bytes (fb_store f) < unat (fo_compaction_journal_bytes (fb_options f)) then
        (ok_status, f)
      else
        (case write_snapshot (snapshot_state_locked f) (fb_store f) of
           (status, store) \<Rightarrow> (status, f\<lparr>fb_store := store\<rparr>)))"

section \<open>Ingest\<close>

definition fabric_apply_policy :: "FailoverPolicy \<Rightarrow> Fabric \<Rightarrow> Status \<times> Fabric" where
  "fabric_apply_policy policy f =
     (let valid1 = validate_policy policy; installed = ds_policy (fb_state f) in
      if \<not> st_ok valid1 then (valid1, f)
      else if ds_has_policy (fb_state f) \<and> fp_generation policy < fp_generation installed then
        (Status Code_stale Reason_policy_generation_stale
           ''policy generation is behind the installed policy'', f)
      else if ds_has_policy (fb_state f) \<and> fp_generation policy = fp_generation installed then
        (if policy = installed then (ok_status, f)
         else (Status Code_conflict Reason_generation_conflict
           ''policy generation reused with different content'', f))
      else
     (let payload = encode_policy_record policy in
      if payload = [] then
        (Status Code_invalid Reason_invalid_payload ''cannot encode policy'', f)
      else
      then_do (append_locked RecordType_policy_set payload f) (\<lambda>f.
      then_do (fence_attempts_locked Reason_authority_fenced AttemptState_fenced
        (with_state (\<lambda>s. s\<lparr>ds_policy := policy, ds_has_policy := True,
           ds_authority := (ds_authority s)\<lparr>av_policy := fp_generation policy\<rparr>\<rparr>) f))
      compact_if_needed_locked)))"

definition fabric_apply_obligations :: "ServiceObligations \<Rightarrow> Fabric \<Rightarrow> Status \<times> Fabric" where
  "fabric_apply_obligations obligations f =
     (let valid1 = validate_obligations obligations; installed = ds_obligations (fb_state f) in
      if \<not> st_ok valid1 then (valid1, f)
      else if ds_has_obligations (fb_state f) \<and>
              so_generation obligations < so_generation installed then
        (Status Code_stale Reason_obligations_generation_stale
           ''obligation generation is behind the installed set'', f)
      else if ds_has_obligations (fb_state f) \<and>
              so_generation obligations = so_generation installed then
        (if obligations = installed then (ok_status, f)
         else (Status Code_conflict Reason_generation_conflict
           ''obligation generation reused with different content'', f))
      else
     (let payload = encode_obligations_record obligations in
      if payload = [] then
        (Status Code_invalid Reason_invalid_payload ''cannot encode obligations'', f)
      else
      then_do (append_locked RecordType_obligations_set payload f) (\<lambda>f.
      then_do (fence_attempts_locked Reason_authority_fenced AttemptState_fenced
        (with_state (\<lambda>s. s\<lparr>ds_obligations := obligations, ds_has_obligations := True,
           ds_authority := (ds_authority s)\<lparr>av_obligations := so_generation obligations\<rparr>\<rparr>) f))
      compact_if_needed_locked)))"

text \<open>The comparison of a set with an installed one of the same generation.\<close>

definition same_member :: "AlternateCandidate \<Rightarrow> AlternateCandidate \<Rightarrow> bool" where
  "same_member a b \<longleftrightarrow> ca_path a = ca_path b \<and> ca_upstream_rank a = ca_upstream_rank b \<and>
     ca_withdrawn a = ca_withdrawn b"

definition identical_set :: "AlternateSet \<Rightarrow> AlternateSet \<Rightarrow> bool" where
  "identical_set st existing \<longleftrightarrow>
     as_completeness st = as_completeness existing \<and>
     list_all2 same_member (as_candidates st) (as_candidates existing)"

definition put_set_locked :: "AlternateSet \<Rightarrow> Fabric \<Rightarrow> Status \<times> Fabric" where
  "put_set_locked st f =
     (let payload = encode_set_record st in
      if payload = [] then
        (Status Code_invalid Reason_invalid_payload ''cannot encode alternate set'', f)
      else
      then_do (append_locked RecordType_alternate_set_put payload f) (\<lambda>f.
        compact_if_needed_locked (with_state (\<lambda>s. s\<lparr>ds_sets :=
          (if list_ex (\<lambda>c. as_id c = as_id st) (ds_sets s)
           then update_first (\<lambda>c. as_id c = as_id st) st (ds_sets s)
           else ds_sets s @ [st])\<rparr>)
          (f\<lparr>fb_sets := map_assign (as_id st) st (fb_sets f)\<rparr>))))"

definition fabric_apply_alternate_set :: "AlternateSet \<Rightarrow> Fabric \<Rightarrow> Status \<times> Fabric" where
  "fabric_apply_alternate_set st f =
     (let valid1 = validate_set st in
      if \<not> st_ok valid1 then (valid1, f)
      else
     (case map_of (fb_sets f) (as_id st) of
        Some existing \<Rightarrow>
          if as_generation st < as_generation existing then
            (Status Code_stale Reason_set_generation_mismatch
               ''alternate set generation is behind the installed set'', f)
          else if as_generation st = as_generation existing then
            (if identical_set st existing then (ok_status, f)
             else (Status Code_conflict Reason_generation_conflict
               ''alternate set generation reused with different content'', f))
          else put_set_locked st f
      | None \<Rightarrow>
          if length (fb_sets f) \<ge> max_alternate_sets then
            (Status Code_exhausted Reason_table_full ''alternate set table full'', f)
          else put_set_locked st f))"

definition fabric_apply_evidence :: "PathEvidence \<Rightarrow> Fabric \<Rightarrow> Status \<times> Fabric" where
  "fabric_apply_evidence e f =
     (let valid1 = validate_evidence e;
          accepted = (ok_status, tally fs_evidence_accepted_update
            (f\<lparr>fb_evidence := map_assign (pe_path e) e (fb_evidence f)\<rparr>))
      in if \<not> st_ok valid1 then (valid1, tally fs_evidence_rejected_update f)
         else
     (case map_of (fb_evidence f) (pe_path e) of
        Some existing \<Rightarrow>
          if pe_observation_seq e \<le> pe_observation_seq existing then
            (Status Code_stale Reason_evidence_superseded
               ''evidence observation sequence is not newer than the stored one'',
             tally fs_evidence_rejected_update f)
          else accepted
      | None \<Rightarrow>
          if length (fb_evidence f) \<ge> max_evidence_entries then
            (Status Code_exhausted Reason_table_full ''evidence table full'',
             tally fs_evidence_rejected_update f)
          else accepted))"

text \<open>The record of the authority vector and the counters.\<close>

definition epoch_payload :: "DurableState \<Rightarrow> byte list" where
  "epoch_payload s = encode_epoch_record (ds_authority s) (ds_restart_count s)
     (ds_attempt_sequence s) (ds_fence_sequence s) (ds_decision_sequence s)"

definition fabric_set_authority :: "AuthorityVector \<Rightarrow> Fabric \<Rightarrow> Status \<times> Fabric" where
  "fabric_set_authority a f =
     (let held = ds_authority (fb_state f) in
      if av_topology a < av_topology held \<or> av_path_authority a < av_path_authority held then
        (Status Code_stale Reason_topology_generation_stale
           ''topology or path authority generation regressed'', f)
      else if valid (av_epoch a) \<and> av_epoch a \<noteq> av_epoch held then
        (Status Code_stale Reason_epoch_stale
           ''the coordinator epoch is owned by the runtime, not by callers'', f)
      else if valid (av_boot a) \<and> av_boot a \<noteq> av_boot held then
        (Status Code_stale Reason_boot_mismatch
           ''the boot identity is owned by the runtime, not by callers'', f)
      else if av_topology a = av_topology held \<and> av_path_authority a = av_path_authority held then
        (ok_status, f)
      else
     (let f = with_state (\<lambda>s. s\<lparr>ds_authority := (ds_authority s)\<lparr>av_topology := av_topology a,
            av_path_authority := av_path_authority a\<rparr>\<rparr>) f;
          payload = epoch_payload (fb_state f)
      in if payload = [] then
           (Status Code_invalid Reason_invalid_payload ''cannot encode authority update'', f)
         else
      then_do (append_locked RecordType_epoch_advance payload f) (\<lambda>f.
      then_do (fence_attempts_locked Reason_authority_fenced AttemptState_fenced f)
      compact_if_needed_locked)))"

text \<open>
  The loop over the attempts that target a fenced path. It walks the map while it updates entries
  in place; no entry is added or removed.
\<close>

primrec fence_targeting :: "PathId \<Rightarrow> AttemptId list \<Rightarrow> Fabric \<Rightarrow> Status \<times> Fabric" where
  "fence_targeting path [] f = (ok_status, f)"
| "fence_targeting path (i # rest) f =
     (case find_attempt_locked i f of
        None \<Rightarrow> fence_targeting path rest f
      | Some attempt \<Rightarrow>
          if is_active_state (ar_state attempt) \<and> ar_selected attempt = path then
            (let attempt = ended AttemptState_fenced Reason_path_fenced f attempt in
             then_do (persist_attempt_locked attempt False (store_attempt i attempt f)) (\<lambda>f.
             fence_targeting path rest (f\<lparr>fb_grants := map_erase i (fb_grants f),
               fb_active_attempt :=
                 (if fb_active_attempt f = i then absent else fb_active_attempt f)\<rparr>)))
          else fence_targeting path rest f)"

definition fabric_fence_path :: "PathId \<Rightarrow> Reason \<Rightarrow> Fabric \<Rightarrow> Status \<times> Fabric" where
  "fabric_fence_path path reason f =
     (if \<not> valid path then
        (Status Code_invalid Reason_domain_invalid ''fence path identity absent'', f)
      else if map_of (fb_path_fences f) path \<noteq> None then (ok_status, f)
      else
      then_do (record_fence_locked absent path reason f) (\<lambda>f.
     (let f = tally fs_fences_recorded_update
            (f\<lparr>fb_path_fences := map_emplace path reason (fb_path_fences f)\<rparr>)
      in then_do (fence_targeting path (map fst (fb_attempts f)) f) compact_if_needed_locked)))"

definition fabric_fence_all :: "Reason \<Rightarrow> Fabric \<Rightarrow> Status \<times> Fabric" where
  "fabric_fence_all reason f = fence_attempts_locked reason AttemptState_fenced f"

section \<open>Decisions\<close>

definition fabric_evaluate ::
  "PathId \<Rightarrow> IncumbentCondition \<Rightarrow> AlternateSetId \<Rightarrow> Fabric \<Rightarrow> PromotionDecision Result \<times> Fabric" where
  "fabric_evaluate incumbent condition set_id f =
     (if ds_decision_sequence (fb_state f) = UINT64_MAX then
        (Inl (Status Code_exhausted Reason_table_full ''decision sequence exhausted''), f)
      else
     (case select_locked incumbent condition set_id (ds_decision_sequence (fb_state f) + 1) absent
             AuthorityKind_recommendation f of
        Inl status \<Rightarrow> (Inl status, f)
      | Inr decision \<Rightarrow>
          (Inr (decision\<lparr>pd_authority_kind := AuthorityKind_recommendation\<rparr>),
           with_state (\<lambda>s. s\<lparr>ds_decision_sequence := ds_decision_sequence s + 1\<rparr>) f)))"

text \<open>The attempt that owns the transition, when it is still active.\<close>

definition owner_active :: "Fabric \<Rightarrow> bool" where
  "owner_active f \<longleftrightarrow> valid (fb_active_attempt f) \<and>
     (case map_of (fb_attempts f) (fb_active_attempt f) of
        None \<Rightarrow> False
      | Some attempt \<Rightarrow> is_active_state (ar_state attempt))"

definition contention :: "PathId \<Rightarrow> AlternateSetId \<Rightarrow> Fabric \<Rightarrow> PromotionAuthorization" where
  "contention incumbent set_id f = refusal (empty_decision
     \<lparr>pd_id := ds_decision_sequence (fb_state f) + 1,
      pd_outcome := PromotionOutcome_refused_already_owned,
      pd_authority_kind := AuthorityKind_recommendation, pd_incumbent := incumbent,
      pd_set := set_id, pd_basis := ds_authority (fb_state f),
      pd_provenance := fo_provenance (fb_options f), pd_reason := Reason_attempt_active,
      pd_explanation := [(Reason_attempt_active, fb_active_attempt f)]\<rparr>)"

definition lineage_entry ::
  "DecisionId \<Rightarrow> AttemptId \<Rightarrow> PromotionOutcome \<Rightarrow> PathId \<Rightarrow> PathId \<Rightarrow> AlternateSetId \<Rightarrow> Reason \<Rightarrow> Fabric \<Rightarrow>
   LineageEntry" where
  "lineage_entry decision attempt out incumbent selected set_id reason f =
     \<lparr>li_decision = decision, li_attempt = attempt, li_epoch = fi_epoch (fb_identity f),
      li_boot = fi_boot (fb_identity f), li_outcome = out, li_incumbent = incumbent,
      li_selected = selected, li_set = set_id, li_basis = ds_authority (fb_state f),
      li_reason = reason, li_sequence = ds_last_sequence (fb_state f)\<rparr>"

text \<open>The end of \<open>begin_promotion\<close> when the selector did not authorise.\<close>

definition refuse_attempt ::
  "AttemptRecord \<Rightarrow> DecisionId \<Rightarrow> PromotionDecision \<Rightarrow> Fabric \<Rightarrow> PromotionAuthorization Result \<times> Fabric"
where
  "refuse_attempt attempt decision_id decision f =
     then_return (persist_attempt_locked
       (ended AttemptState_refused (pd_reason decision) f attempt) False f) (\<lambda>f.
     then_return (persist_lineage_locked
       (lineage_entry decision_id (ar_id attempt) (pd_outcome decision) (ar_incumbent attempt)
         absent (ar_set attempt) (pd_reason decision) f) f) (\<lambda>f.
     then_return (compact_if_needed_locked
       (if is_indeterminate (pd_outcome decision)
        then tally fs_promotions_indeterminate_update f
        else tally fs_promotions_refused_update f)) (\<lambda>f.
     (Inr (refusal decision), f))))"

text \<open>The end of \<open>begin_promotion\<close> when it did: ownership and the grant.\<close>

definition issue_grant ::
  "AttemptRecord \<Rightarrow> PromotionDecision \<Rightarrow> Fabric \<Rightarrow> PromotionAuthorization Result \<times> Fabric" where
  "issue_grant attempt decision f =
     then_return (persist_attempt_locked (attempt\<lparr>ar_state := AttemptState_authorized\<rparr>) False f) (\<lambda>f.
     (let grant = \<lparr>gr_id = ar_id attempt, gr_attempt = ar_id attempt, gr_path = pd_selected decision,
            gr_basis = ds_authority (fb_state f), gr_kind = AuthorityKind_grant\<rparr>;
          f = tally fs_promotions_authorized_update
            (f\<lparr>fb_active_attempt := ar_id attempt,
               fb_grants := map_assign (ar_id attempt) grant (fb_grants f)\<rparr>)
      in then_return (compact_if_needed_locked f) (\<lambda>f.
           (Inr \<lparr>pa_decision = decision, pa_grant = grant\<rparr>, f))))"

definition structural_refusal :: "PromotionOutcome \<Rightarrow> bool" where
  "structural_refusal out \<longleftrightarrow>
     out = PromotionOutcome_refused_invalid_input \<or>
     out = PromotionOutcome_refused_policy_invalid \<or>
     out = PromotionOutcome_refused_obligations_invalid"

definition claimed_attempt ::
  "AttemptId \<Rightarrow> PathId \<Rightarrow> AlternateSetId \<Rightarrow> PromotionDecision \<Rightarrow> Fabric \<Rightarrow> AttemptRecord" where
  "claimed_attempt attempt_id incumbent set_id decision f =
     \<lparr>ar_id = attempt_id, ar_epoch = fi_epoch (fb_identity f), ar_boot = fi_boot (fb_identity f),
      ar_incumbent = incumbent, ar_selected = pd_selected decision, ar_set = set_id,
      ar_set_generation = pd_set_generation decision, ar_basis = ds_authority (fb_state f),
      ar_state = AttemptState_claimed, ar_terminal_reason = Reason_none,
      ar_begin_sequence = ds_last_sequence (fb_state f) + 1, ar_terminal_sequence = 0,
      ar_revalidations = 0\<rparr>"

definition claim_transition ::
  "PathId \<Rightarrow> IncumbentCondition \<Rightarrow> AlternateSetId \<Rightarrow> Fabric \<Rightarrow> PromotionAuthorization Result \<times> Fabric"
where
  "claim_transition incumbent condition set_id f =
     (let attempt_id = ds_attempt_sequence (fb_state f) + 1;
          decision_id = ds_decision_sequence (fb_state f) + 1
      in case select_locked incumbent condition set_id decision_id attempt_id AuthorityKind_grant f of
           Inl status \<Rightarrow> (Inl status, f)
         | Inr decision \<Rightarrow>
     (let f = with_state (\<lambda>s. s\<lparr>ds_decision_sequence := ds_decision_sequence s + 1\<rparr>) f in
      if structural_refusal (pd_outcome decision) then
        (Inr (refusal decision), tally fs_promotions_refused_update f)
      else
     (let attempt = claimed_attempt attempt_id incumbent set_id decision f in
      then_return (persist_attempt_locked attempt True f) (\<lambda>f.
     (let f = with_state (\<lambda>s. s\<lparr>ds_attempt_sequence := ds_attempt_sequence s + 1\<rparr>) f in
      if pd_outcome decision \<noteq> PromotionOutcome_authorized \<or> \<not> valid (pd_selected decision)
      then refuse_attempt attempt decision_id decision f
      else issue_grant attempt decision f)))))"

definition begin_promotion ::
  "PathId \<Rightarrow> IncumbentCondition \<Rightarrow> AlternateSetId \<Rightarrow> Fabric \<Rightarrow> PromotionAuthorization Result \<times> Fabric"
where
  "begin_promotion incumbent condition set_id f =
     (if \<not> valid incumbent \<or> \<not> valid set_id then
        (Inl (Status Code_invalid Reason_domain_invalid ''promotion request identities absent''), f)
      else if owner_active f then
        (Inr (contention incumbent set_id f), tally fs_promotions_refused_update f)
      else
     (let f = f\<lparr>fb_active_attempt := absent\<rparr> in
      if ds_attempt_sequence (fb_state f) = UINT64_MAX \<or>
         ds_decision_sequence (fb_state f) = UINT64_MAX then
        (Inl (Status Code_exhausted Reason_table_full ''attempt sequence exhausted''), f)
      else claim_transition incumbent condition set_id f))"

definition verified_evidence :: "EffectEvidence \<Rightarrow> PathEvidence" where
  "verified_evidence effect =
     \<lparr>pe_id = ee_id effect, pe_path = ee_path effect, pe_freshness = Freshness_fresh,
      pe_eligibility = Eligibility_eligible, pe_reachability = Reachability_reachable,
      pe_capacity = CapacityClass_sufficient, pe_capabilities = 0, pe_health_ppm = 0,
      pe_cost_units = 0, pe_observation_seq = ee_observation_seq effect,
      pe_observed_under = ee_observed_under effect, pe_provenance = ee_provenance effect\<rparr>"

text \<open>The early returns of \<open>record_effect\<close>; the flag says whether a stale completion is counted.\<close>

definition effect_refusal ::
  "AttemptId \<Rightarrow> EffectEvidence \<Rightarrow> AttemptRecord \<Rightarrow> Fabric \<Rightarrow> (Status \<times> bool) option" where
  "effect_refusal attempt_id effect attempt f =
     (if ar_state attempt = AttemptState_committed then
        Some (Status Code_refused Reason_attempt_already_committed
          ''attempt is already committed'', False)
      else if ar_state attempt = AttemptState_fenced then
        Some (Status Code_fenced Reason_attempt_fenced ''attempt was fenced'', True)
      else if ar_state attempt = AttemptState_superseded \<or>
              ar_state attempt = AttemptState_interrupted then
        Some (Status Code_superseded Reason_attempt_superseded ''attempt was superseded'', True)
      else if is_terminal_state (ar_state attempt) then
        Some (Status Code_refused Reason_attempt_terminal ''attempt is terminal'', False)
      else if fb_active_attempt f \<noteq> attempt_id then
        Some (Status Code_superseded Reason_attempt_superseded
          ''a newer attempt owns the transition'', True)
      else if \<not> st_ok (validate_effect effect) then Some (validate_effect effect, False)
      else if cmp_overall (classify (ee_observed_under effect) (ds_authority (fb_state f))) \<noteq>
              AuthorityClass_current then
        Some (Status Code_stale Reason_effect_authority_mismatch
          ''verified effect is not bound to current authority'', False)
      else if ee_path effect \<noteq> ar_selected attempt then
        Some (Status Code_invalid Reason_effect_path_mismatch
          ''verified effect belongs to a different path'', False)
      else
     (case map_of (fb_evidence f) (ee_path effect) of
        Some stored \<Rightarrow>
          if ee_observation_seq effect \<le> pe_observation_seq stored then
            Some (Status Code_stale Reason_evidence_superseded
              ''effect observation sequence is not newer than the stored one'', False)
          else None
      | None \<Rightarrow> None))"

definition unknown_attempt :: Status where
  "unknown_attempt = Status Code_not_found Reason_attempt_not_found ''unknown attempt''"

definition record_effect :: "AttemptId \<Rightarrow> EffectEvidence \<Rightarrow> Fabric \<Rightarrow> Status \<times> Fabric" where
  "record_effect attempt_id effect f =
     (case find_attempt_locked attempt_id f of
        None \<Rightarrow> (unknown_attempt, f)
      | Some attempt \<Rightarrow>
     (case effect_refusal attempt_id effect attempt f of
        Some (status, stale) \<Rightarrow>
          (status, if stale then tally fs_stale_completions_rejected_update f else f)
      | None \<Rightarrow>
     (let attempt = ended AttemptState_committed Reason_none f attempt in
      then_do (persist_attempt_locked attempt False (store_attempt attempt_id attempt f)) (\<lambda>f.
      then_do (persist_lineage_locked
        (lineage_entry (ds_decision_sequence (fb_state f)) attempt_id PromotionOutcome_promoted
          (ar_incumbent attempt) (ar_selected attempt) (ar_set attempt) Reason_selected f) f) (\<lambda>f.
      compact_if_needed_locked (tally fs_promotions_committed_update
        (f\<lparr>fb_evidence := map_assign (ee_path effect) (verified_evidence effect) (fb_evidence f),
           fb_active_attempt := absent,
           fb_grants := map_erase attempt_id (fb_grants f)\<rparr>)))))))"

text \<open>Ownership and grant are given up.\<close>

definition release :: "AttemptId \<Rightarrow> Fabric \<Rightarrow> Fabric" where
  "release attempt_id f =
     f\<lparr>fb_grants := map_erase attempt_id (fb_grants f),
       fb_active_attempt :=
         (if fb_active_attempt f = attempt_id then absent else fb_active_attempt f)\<rparr>"

definition abandon_attempt :: "AttemptId \<Rightarrow> Reason \<Rightarrow> Fabric \<Rightarrow> Status \<times> Fabric" where
  "abandon_attempt attempt_id reason f =
     (case find_attempt_locked attempt_id f of
        None \<Rightarrow> (unknown_attempt, f)
      | Some attempt \<Rightarrow>
          if is_terminal_state (ar_state attempt) then
            (Status Code_refused Reason_attempt_terminal ''attempt is terminal'', f)
          else
     (let attempt = ended AttemptState_abandoned reason f attempt in
      then_do (persist_attempt_locked attempt False (store_attempt attempt_id attempt f)) (\<lambda>f.
      then_do (persist_lineage_locked
        (lineage_entry (ds_decision_sequence (fb_state f)) attempt_id
          PromotionOutcome_refused_superseded_attempt (ar_incumbent attempt) absent
          (ar_set attempt) reason f) f) (\<lambda>f.
      compact_if_needed_locked (release attempt_id f)))))"

definition revalidation_exhausted :: "AttemptRecord \<Rightarrow> Fabric \<Rightarrow> bool" where
  "revalidation_exhausted attempt f \<longleftrightarrow>
     ds_has_policy (fb_state f) \<and>
     ar_revalidations attempt \<ge> fp_max_revalidations (ds_policy (fb_state f))"

definition rollback :: "AttemptId \<Rightarrow> PathEvidence \<Rightarrow> Fabric \<Rightarrow> Status \<times> Fabric" where
  "rollback attempt_id e f =
     (case find_attempt_locked attempt_id f of
        None \<Rightarrow> (unknown_attempt, f)
      | Some attempt \<Rightarrow>
          if ar_state attempt = AttemptState_committed then
            (Status Code_refused Reason_rollback_not_committed
               ''a committed promotion is reverted, not rolled back'', f)
          else if is_terminal_state (ar_state attempt) then
            (Status Code_refused Reason_attempt_terminal ''attempt is terminal'', f)
          else if fb_active_attempt f \<noteq> attempt_id then
            (Status Code_superseded Reason_attempt_superseded
               ''a newer attempt owns the transition'',
             tally fs_stale_completions_rejected_update f)
          else if \<not> valid (pe_path e) \<or> pe_path e \<noteq> ar_incumbent attempt then
            (Status Code_invalid Reason_effect_path_mismatch
               ''rollback evidence does not describe the incumbent path'', f)
          else
     (case validate_target_locked e f of
        (target_status, target_reason) \<Rightarrow>
      if \<not> st_ok target_status then
        (Status Code_refused Reason_rollback_incumbent_invalid (st_detail target_status), f)
      else
     (let f = tally fs_revalidations_update f in
      if revalidation_exhausted attempt f then
        (Status Code_exhausted Reason_revalidation_exhausted ''revalidation budget exhausted'', f)
      else
     (let attempt = ended AttemptState_rolled_back target_reason f
            (attempt\<lparr>ar_revalidations := ar_revalidations attempt + 1\<rparr>)
      in
      then_do (persist_attempt_locked attempt False (store_attempt attempt_id attempt f)) (\<lambda>f.
      then_do (persist_lineage_locked
        (lineage_entry (ds_decision_sequence (fb_state f)) attempt_id
          PromotionOutcome_rolled_back (ar_incumbent attempt) (ar_selected attempt)
          (ar_set attempt) target_reason f) f) (\<lambda>f.
      compact_if_needed_locked (tally fs_rollbacks_update (release attempt_id f))))))))"

definition reverting_attempt ::
  "AttemptId \<Rightarrow> AttemptRecord \<Rightarrow> PathEvidence \<Rightarrow> Reason \<Rightarrow> Fabric \<Rightarrow> AttemptRecord" where
  "reverting_attempt attempt_id committed target reason f =
     \<lparr>ar_id = attempt_id, ar_epoch = fi_epoch (fb_identity f), ar_boot = fi_boot (fb_identity f),
      ar_incumbent = ar_selected committed, ar_selected = pe_path target,
      ar_set = ar_set committed, ar_set_generation = ar_set_generation committed,
      ar_basis = ds_authority (fb_state f), ar_state = AttemptState_committed,
      ar_terminal_reason = reason, ar_begin_sequence = ds_last_sequence (fb_state f) + 1,
      ar_terminal_sequence = ds_last_sequence (fb_state f),
      ar_revalidations = ar_revalidations committed + 1\<rparr>"

definition reverting_decision ::
  "DecisionId \<Rightarrow> AttemptId \<Rightarrow> AttemptRecord \<Rightarrow> PathEvidence \<Rightarrow> Reason \<Rightarrow> Fabric \<Rightarrow> PromotionDecision" where
  "reverting_decision decision_id attempt_id committed target reason f =
     empty_decision\<lparr>pd_id := decision_id, pd_outcome := PromotionOutcome_reverted,
       pd_authority_kind := AuthorityKind_grant, pd_incumbent := ar_selected committed,
       pd_selected := pe_path target, pd_basis := ds_authority (fb_state f),
       pd_attempt := attempt_id, pd_reason := reason,
       pd_provenance := fo_provenance (fb_options f),
       pd_explanation := [(reason, pe_path target)]\<rparr>"

definition apply_reversion ::
  "AttemptRecord \<Rightarrow> PathEvidence \<Rightarrow> Reason \<Rightarrow> Fabric \<Rightarrow> PromotionDecision Result \<times> Fabric" where
  "apply_reversion committed target reason f =
     (let attempt_id = ds_attempt_sequence (fb_state f) + 1;
          decision_id = ds_decision_sequence (fb_state f) + 1;
          f = tally fs_revalidations_update f;
          decision = reverting_decision decision_id attempt_id committed target reason f;
          attempt = reverting_attempt attempt_id committed target reason f
      in
      then_return (persist_attempt_locked attempt True f) (\<lambda>f.
     (let f = with_state (\<lambda>s. s\<lparr>ds_attempt_sequence := ds_attempt_sequence s + 1,
            ds_decision_sequence := ds_decision_sequence s + 1\<rparr>) f
      in
      then_return (persist_lineage_locked
        (lineage_entry decision_id attempt_id PromotionOutcome_reverted (ar_incumbent attempt)
          (ar_selected attempt) (ar_set attempt) reason f) f) (\<lambda>f.
      then_return (compact_if_needed_locked (tally fs_reversions_update f)) (\<lambda>f.
      (Inr decision, f))))))"

definition revert :: "AttemptId \<Rightarrow> PathEvidence \<Rightarrow> Fabric \<Rightarrow> PromotionDecision Result \<times> Fabric" where
  "revert committed_attempt target f =
     (case map_of (fb_attempts f) committed_attempt of
        None \<Rightarrow> (Inl unknown_attempt, f)
      | Some committed \<Rightarrow>
          if ar_state committed \<noteq> AttemptState_committed then
            (Inl (Status Code_refused Reason_rollback_not_committed
               ''reversion applies to a committed promotion''), f)
          else
     (case validate_target_locked target f of
        (target_status, target_reason) \<Rightarrow>
      if \<not> st_ok target_status then
        (Inl (Status Code_refused Reason_rollback_incumbent_invalid (st_detail target_status)), f)
      else if revalidation_exhausted committed f then
        (Inl (Status Code_exhausted Reason_revalidation_exhausted
           ''revalidation budget exhausted''), f)
      else if valid (fb_active_attempt f) then
        (Inl (Status Code_refused Reason_attempt_active
           ''another promotion attempt owns the transition''), f)
      else if ds_attempt_sequence (fb_state f) = UINT64_MAX \<or>
              ds_decision_sequence (fb_state f) = UINT64_MAX then
        (Inl (Status Code_exhausted Reason_table_full ''attempt sequence exhausted''), f)
      else apply_reversion committed target target_reason f))"

section \<open>Start\<close>

text \<open>What the platform supplies to a new process.\<close>

record ProcessInfo =
  pi_boot :: BootId
  pi_incarnation :: IncarnationId
  pi_process_id :: u64
  pi_unix_micros :: u64

definition loaded_fabric :: "FabricOptions \<Rightarrow> Store \<Rightarrow> DurableState \<Rightarrow> Fabric" where
  "loaded_fabric options store state =
     \<lparr>fb_store = store,
      fb_identity = \<lparr>fi_incarnation = absent, fi_boot = absent, fi_epoch = absent,
        fi_process_id = 0, fi_start_unix_micros = 0, fi_restart_count = 0\<rparr>,
      fb_options = options, fb_state = state,
      fb_sets = foldl (\<lambda>m s. map_emplace (as_id s) s m) [] (ds_sets state),
      fb_evidence = [],
      fb_attempts = foldl (\<lambda>m a. map_emplace (ar_id a) a m) [] (ds_attempts state),
      fb_path_fences = foldl (\<lambda>m r. if valid (fr_path r) then map_emplace (fr_path r) (fr_reason r) m
        else m) [] (ds_fences state),
      fb_active_attempt = absent, fb_grants = [], fb_stats = zero_fabric_stats\<rparr>"

text \<open>A new incarnation: the epoch advances and everything in flight is interrupted.\<close>

definition advance_epoch :: "ProcessInfo \<Rightarrow> Fabric \<Rightarrow> Fabric" where
  "advance_epoch info f =
     (let s = fb_state f; epoch = av_epoch (ds_authority s) + 1;
          s = s\<lparr>ds_restart_count := ds_restart_count s + 1,
            ds_authority := (ds_authority s)\<lparr>av_epoch := epoch, av_boot := pi_boot info\<rparr>\<rparr>
      in f\<lparr>fb_state := s,
           fb_identity := \<lparr>fi_incarnation = pi_incarnation info, fi_boot = pi_boot info,
             fi_epoch = epoch, fi_process_id = pi_process_id info,
             fi_start_unix_micros = pi_unix_micros info,
             fi_restart_count = ds_restart_count s\<rparr>,
           fb_stats := (fb_stats f)\<lparr>fs_restarts := ds_restart_count s\<rparr>\<rparr>)"

definition restart :: "ProcessInfo \<Rightarrow> Fabric \<Rightarrow> Status \<times> Fabric" where
  "restart info f =
     (if av_epoch (ds_authority (fb_state f)) = UINT64_MAX then
        (Status Code_exhausted Reason_table_full ''coordinator epoch exhausted'', f)
      else
     (let f = advance_epoch info f; payload = epoch_payload (fb_state f) in
      if payload = [] then
        (Status Code_invalid Reason_invalid_payload ''cannot encode restart record'', f)
      else
      then_do (append_locked RecordType_epoch_advance payload f) (\<lambda>f.
      then_do (fence_each Reason_restart_fenced AttemptState_interrupted (active_ids f) f) (\<lambda>f.
      compact_if_needed_locked
        (sync_attempts_locked (f\<lparr>fb_active_attempt := absent, fb_grants := []\<rparr>))))))"

definition fabric_open :: "FabricOptions \<Rightarrow> Store Result \<Rightarrow> ProcessInfo \<Rightarrow> Fabric Result" where
  "fabric_open options opened info =
     (if fo_max_retained_attempts options = 0 \<or>
         unat (fo_max_retained_attempts options) > max_attempts then
        Inl (Status Code_invalid Reason_domain_invalid ''max_retained_attempts out of range'')
      else
     (case opened of
        Inl status \<Rightarrow> Inl status
      | Inr store \<Rightarrow>
     (case load store of
        Inl status \<Rightarrow> Inl status
      | Inr (state, store) \<Rightarrow>
     (case restart info (loaded_fabric options store state) of
        (status, f) \<Rightarrow> if \<not> st_ok status then Inl status else Inr f))))"

section \<open>Queries\<close>

definition fabric_identity :: "Fabric \<Rightarrow> FabricIdentity" where
  "fabric_identity f = fb_identity f"

definition fabric_authority :: "Fabric \<Rightarrow> AuthorityVector" where
  "fabric_authority f = ds_authority (fb_state f)"

definition fabric_stats :: "Fabric \<Rightarrow> FabricStats" where
  "fabric_stats f = fb_stats f"

definition fabric_recovery :: "Fabric \<Rightarrow> RecoveryReport" where
  "fabric_recovery f = sr_recovery (fb_store f)"

definition policy_installed :: "Fabric \<Rightarrow> bool" where
  "policy_installed f = ds_has_policy (fb_state f)"

definition obligations_installed :: "Fabric \<Rightarrow> bool" where
  "obligations_installed f = ds_has_obligations (fb_state f)"

definition alternate_set_count :: "Fabric \<Rightarrow> size_t" where
  "alternate_set_count f = length (fb_sets f)"

definition active_attempt_count :: "Fabric \<Rightarrow> size_t" where
  "active_attempt_count f =
     length (filter (\<lambda>e. is_active_state (ar_state (snd e))) (fb_attempts f))"

definition query_attempt :: "AttemptId \<Rightarrow> Fabric \<Rightarrow> AttemptRecord Result" where
  "query_attempt i f =
     (case map_of (fb_attempts f) i of None \<Rightarrow> Inl unknown_attempt | Some a \<Rightarrow> Inr a)"

definition query_attempts :: "Fabric \<Rightarrow> AttemptRecord list" where
  "query_attempts f = map snd (fb_attempts f)"

definition active_attempts :: "Fabric \<Rightarrow> AttemptRecord list" where
  "active_attempts f = filter (\<lambda>a. is_active_state (ar_state a)) (map snd (fb_attempts f))"

definition query_lineage :: "size_t \<Rightarrow> Fabric \<Rightarrow> LineageEntry list" where
  "query_lineage limit f =
     (let lineage = ds_lineage (fb_state f); bounded = min limit (length lineage)
      in drop (length lineage - bounded) lineage)"

definition query_fences :: "Fabric \<Rightarrow> FenceRecord list" where
  "query_fences f = ds_fences (fb_state f)"

definition query_alternate_set :: "AlternateSetId \<Rightarrow> Fabric \<Rightarrow> AlternateSet Result" where
  "query_alternate_set i f =
     (case map_of (fb_sets f) i of
        None \<Rightarrow> Inl (Status Code_not_found Reason_domain_invalid ''unknown alternate set'')
      | Some st \<Rightarrow> Inr st)"

definition query_policy :: "Fabric \<Rightarrow> FailoverPolicy Result" where
  "query_policy f =
     (if \<not> ds_has_policy (fb_state f) then
        Inl (Status Code_not_found Reason_policy_invalid ''no policy installed'')
      else Inr (ds_policy (fb_state f)))"

definition query_obligations :: "Fabric \<Rightarrow> ServiceObligations Result" where
  "query_obligations f =
     (if \<not> ds_has_obligations (fb_state f) then
        Inl (Status Code_not_found Reason_obligations_invalid ''no obligations installed'')
      else Inr (ds_obligations (fb_state f)))"

definition query_evidence :: "PathId \<Rightarrow> Fabric \<Rightarrow> PathEvidence Result" where
  "query_evidence path f =
     (case map_of (fb_evidence f) path of
        None \<Rightarrow> Inl (Status Code_not_found Reason_evidence_unknown ''no evidence for path'')
      | Some e \<Rightarrow> Inr e)"

end
