(* ===== verification/PFF_Server.thy ===== *)
theory PFF_Server
  imports PFF_Message PFF_Fabric
begin

text \<open>
  The coordinator service: \<open>Server\<close> of \<open>include/pff/server.hpp\<close> and \<open>src/server.cpp\<close>.

  \<open>dispatch\<close> is the request switch, \<open>handshake_frame\<close> and \<open>request_frame\<close> the bodies of the two
  inner loops of \<open>serve_session\<close>, \<open>serve_pending\<close> those loops and \<open>serve_session\<close> the thread of one
  session. The state is a record: the options, the stop flag, the session table, the counters and
  the coordinator the service was started on. A session holds its decoder and the authority it was
  greeted under; \<open>ss_socket\<close> is the identity of the session object, \<open>ss_handshake_done\<close> the local
  variable of that name, and \<open>ss_written\<close> what has been written to its socket, frame by frame.

  The socket calls are arguments: \<open>answers\<close> gives the results of the sends a thread performs, the
  results of \<open>net::recv_some\<close> are a list of chunks or errors (an empty chunk is the end of the
  stream), \<open>accepted\<close> is the result of \<open>net::accept_one\<close>. What \<open>request_stop\<close> does to blocked
  sockets shows in those results. Closing a handle has no effect on the state.
  Field prefixes: \<open>vo_\<close> options, \<open>vs_\<close> statistics, \<open>ss_\<close> session, \<open>dr_\<close> dispatch result,
  \<open>sv_\<close> server.
\<close>

section \<open>State\<close>

record ServerOptions =
  vo_bind_address :: string
  vo_port :: u16
  vo_max_sessions :: size_t
  vo_max_requests_per_session :: u64
  vo_allow_shutdown :: bool

definition default_server_options :: ServerOptions where
  "default_server_options =
     \<lparr>vo_bind_address = ''127.0.0.1'', vo_port = 0, vo_max_sessions = max_sessions,
      vo_max_requests_per_session = default_max_requests_per_session, vo_allow_shutdown = True\<rparr>"

record ServerStats =
  vs_connections_accepted :: u64
  vs_connections_rejected :: u64
  vs_handshakes_completed :: u64
  vs_requests_handled :: u64
  vs_frames_rejected :: u64
  vs_sessions_closed :: u64
  vs_sessions_evicted :: u64
  vs_bytes_received :: u64
  vs_bytes_sent :: u64
  vs_active_sessions :: u64

definition zero_server_stats :: ServerStats where
  "zero_server_stats =
     \<lparr>vs_connections_accepted = 0, vs_connections_rejected = 0, vs_handshakes_completed = 0,
      vs_requests_handled = 0, vs_frames_rejected = 0, vs_sessions_closed = 0,
      vs_sessions_evicted = 0, vs_bytes_received = 0, vs_bytes_sent = 0, vs_active_sessions = 0\<rparr>"

record Session =
  ss_socket :: nat
  ss_id :: SessionId
  ss_epoch :: Epoch
  ss_boot :: BootId
  ss_requests_handled :: u64
  ss_last_request_sequence :: u64
  ss_decoder :: FrameDecoder
  ss_handshake_done :: bool
  ss_written :: "byte list list"

definition new_session :: "nat \<Rightarrow> Session" where
  "new_session socket =
     \<lparr>ss_socket = socket, ss_id = absent, ss_epoch = absent, ss_boot = absent,
      ss_requests_handled = 0, ss_last_request_sequence = 0,
      ss_decoder = frame_decoder max_frame_payload, ss_handshake_done = False,
      ss_written = []\<rparr>"

record DispatchResult =
  dr_response_type :: MsgType
  dr_payload :: "byte list"
  dr_close_session :: bool
  dr_stop_server :: bool

record Server =
  sv_options :: ServerOptions
  sv_fabric :: Fabric
  sv_stop :: bool
  sv_active_threads :: size_t
  sv_sessions :: "Session list"
  sv_session_sequence :: u64
  sv_stats :: ServerStats

definition tick :: "((u64 \<Rightarrow> u64) \<Rightarrow> ServerStats \<Rightarrow> ServerStats) \<Rightarrow> u64 \<Rightarrow> Server \<Rightarrow> Server" where
  "tick counter n v = v\<lparr>sv_stats := counter (\<lambda>c. c + n) (sv_stats v)\<rparr>"

definition server_start :: "ServerOptions \<Rightarrow> bool \<Rightarrow> u16 Result \<Rightarrow> Fabric \<Rightarrow> Server Result" where
  "server_start options initialized listener fabric =
     (if vo_max_sessions options = 0 \<or> vo_max_sessions options > max_sessions then
        Inl (Status Code_invalid Reason_domain_invalid ''max_sessions out of range'')
      else if \<not> initialized then
        Inl (Status Code_unsupported Reason_io_failure ''socket library unavailable'')
      else
     (case listener of
        Inl status \<Rightarrow> Inl status
      | Inr bound \<Rightarrow> Inr
          \<lparr>sv_options = options, sv_fabric = fabric, sv_stop = False, sv_active_threads = 0,
           sv_sessions = [], sv_session_sequence = 0, sv_stats = zero_server_stats\<rparr>))"

definition request_stop :: "Server \<Rightarrow> Server" where
  "request_stop v = v\<lparr>sv_stop := True\<rparr>"

definition server_stats :: "Server \<Rightarrow> ServerStats" where
  "server_stats v = (sv_stats v)\<lparr>vs_active_sessions := word_of_nat (length (sv_sessions v))\<rparr>"

definition forget_session :: "Session \<Rightarrow> Server \<Rightarrow> Server" where
  "forget_session session v =
     (if \<exists>s \<in> set (sv_sessions v). ss_socket s = ss_socket session
      then tick vs_sessions_closed_update 1
        (v\<lparr>sv_sessions := erase_first (\<lambda>s. ss_socket s = ss_socket session) (sv_sessions v)\<rparr>)
      else v)"

definition send_frame ::
  "Status \<Rightarrow> MsgType \<Rightarrow> u64 \<Rightarrow> byte list \<Rightarrow> Session \<Rightarrow> Server \<Rightarrow> Status \<times> Session \<times> Server" where
  "send_frame answer type sequence payload session v =
     (let bytes = encode_frame type sequence 0 payload
      in if bytes = [] then
           (Status Code_invalid Reason_invalid_payload ''cannot encode response frame'', session, v)
         else if st_ok answer then
           (answer, session\<lparr>ss_written := ss_written session @ [bytes]\<rparr>,
            tick vs_bytes_sent_update (word_of_nat (length bytes)) v)
         else (answer, session, v))"

section \<open>Dispatch\<close>

definition error_response :: "Code \<Rightarrow> Reason \<Rightarrow> string \<Rightarrow> DispatchResult" where
  "error_response code reason detail =
     (let error = \<lparr>er_code = code, er_reason = reason,
            er_detail = (if length detail > max_reason_bytes then take max_reason_bytes detail
                         else detail)\<rparr>
      in \<lparr>dr_response_type = MsgType_error_rsp, dr_payload = encode_error_response error,
          dr_close_session = False, dr_stop_server = False\<rparr>)"

text \<open>The header of a request does not hold: the answer is an error and the session is closed.\<close>

definition closing :: "DispatchResult \<Rightarrow> DispatchResult" where
  "closing result = result\<lparr>dr_close_session := True\<rparr>"

definition from_status :: "Status \<Rightarrow> DispatchResult" where
  "from_status status =
     (if st_ok status
      then \<lparr>dr_response_type = MsgType_ok_rsp, dr_payload = [], dr_close_session = False,
            dr_stop_server = False\<rparr>
      else error_response (st_code status) (st_reason status) (st_detail status))"

definition acknowledge :: "Status \<times> Fabric \<Rightarrow> DispatchResult \<times> Fabric" where
  "acknowledge = apfst from_status"

definition answer_with :: "MsgType \<Rightarrow> byte list \<Rightarrow> string \<Rightarrow> DispatchResult" where
  "answer_with type payload detail =
     (if payload = [] then error_response Code_invalid Reason_invalid_payload detail
      else \<lparr>dr_response_type = type, dr_payload = payload, dr_close_session = False,
            dr_stop_server = False\<rparr>)"

text \<open>\<open>if (!body.ok() || !reader.at_end()) return error_response(...)\<close>.\<close>

definition with_body ::
  "'a Result reader \<Rightarrow> string \<Rightarrow> ('a \<Rightarrow> Fabric \<Rightarrow> DispatchResult \<times> Fabric) \<Rightarrow>
   ByteReader \<Rightarrow> Fabric \<Rightarrow> DispatchResult \<times> Fabric" where
  "with_body decode detail k reader f =
     (case run_state decode reader of
        (Inl status, reader) \<Rightarrow>
          (error_response Code_invalid Reason_invalid_payload detail, f)
      | (Inr value, reader) \<Rightarrow>
          if \<not> at_end reader
          then (error_response Code_invalid Reason_invalid_payload detail, f)
          else k value f)"

definition status_response :: "Server \<Rightarrow> StatusResponse" where
  "status_response v =
     (let f = sv_fabric v; identity = fabric_identity f; stats = fabric_stats f
      in \<lparr>sp_incarnation = fi_incarnation identity, sp_epoch = fi_epoch identity,
          sp_boot = fi_boot identity, sp_authority = fabric_authority f, sp_stats = stats,
          sp_recovery = fabric_recovery f,
          sp_active_sessions = word_of_nat (length (sv_sessions v)),
          sp_requests_handled = vs_requests_handled (sv_stats v),
          sp_policy_installed = policy_installed f,
          sp_obligations_installed = obligations_installed f,
          sp_alternate_sets = word_of_nat (alternate_set_count f),
          sp_active_attempts = word_of_nat (active_attempt_count f),
          sp_evidence_entries = 0, sp_fencing_events = fs_fences_recorded stats\<rparr>)"

definition do_evaluate :: "PromotionRequest \<Rightarrow> Fabric \<Rightarrow> DispatchResult \<times> Fabric" where
  "do_evaluate value f =
     (case fabric_evaluate (pr_incumbent value) (pr_condition value) (pr_set value) f of
        (Inl status, f) \<Rightarrow> (from_status status, f)
      | (Inr decision, f) \<Rightarrow>
          (answer_with MsgType_evaluate_rsp
             (encode_promote_response
                \<lparr>pm_decision = decision, pm_grant = absent, pm_attempt = absent\<rparr>)
             ''cannot encode decision'', f))"

definition promote_response :: "PromotionAuthorization \<Rightarrow> PromoteResponse" where
  "promote_response authorization =
     (if \<not> authorized authorization
      then \<lparr>pm_decision = pa_decision authorization, pm_grant = absent,
            pm_attempt = pd_attempt (pa_decision authorization)\<rparr>
      else \<lparr>pm_decision = pa_decision authorization, pm_grant = gr_id (pa_grant authorization),
            pm_attempt = gr_attempt (pa_grant authorization)\<rparr>)"

definition do_promote :: "PromotionRequest \<Rightarrow> Fabric \<Rightarrow> DispatchResult \<times> Fabric" where
  "do_promote value f =
     (case begin_promotion (pr_incumbent value) (pr_condition value) (pr_set value) f of
        (Inl status, f) \<Rightarrow> (from_status status, f)
      | (Inr authorization, f) \<Rightarrow>
          (answer_with MsgType_promote_rsp
             (encode_promote_response (promote_response authorization))
             ''cannot encode grant'', f))"

definition do_revert :: "AttemptId \<Rightarrow> PathEvidence \<Rightarrow> Fabric \<Rightarrow> DispatchResult \<times> Fabric" where
  "do_revert attempt target f =
     (case revert attempt target f of
        (Inl status, f) \<Rightarrow> (from_status status, f)
      | (Inr decision, f) \<Rightarrow>
          (answer_with MsgType_evaluate_rsp
             (encode_promote_response
                \<lparr>pm_decision = decision, pm_grant = absent, pm_attempt = pd_attempt decision\<rparr>)
             ''cannot encode reversion'', f))"

definition blank_attempt :: AttemptRecord where
  "blank_attempt =
     \<lparr>ar_id = absent, ar_epoch = absent, ar_boot = absent, ar_incumbent = absent,
      ar_selected = absent, ar_set = absent, ar_set_generation = absent, ar_basis = av_absent,
      ar_state = AttemptState_claimed, ar_terminal_reason = Reason_none,
      ar_begin_sequence = 0, ar_terminal_sequence = 0, ar_revalidations = 0\<rparr>"

definition do_attempt :: "AttemptId \<Rightarrow> Fabric \<Rightarrow> DispatchResult \<times> Fabric" where
  "do_attempt attempt f =
     (let response =
        (case query_attempt attempt f of
           Inr a \<Rightarrow> \<lparr>at_found = True, at_record = a\<rparr>
         | Inl status \<Rightarrow> \<lparr>at_found = False, at_record = blank_attempt\<lparr>ar_id := attempt\<rparr>\<rparr>)
      in (answer_with MsgType_attempt_rsp (encode_attempt_response response)
            ''cannot encode attempt'', f))"

definition do_lineage :: "u32 \<Rightarrow> Fabric \<Rightarrow> DispatchResult \<times> Fabric" where
  "do_lineage limit f =
     (let entries = query_lineage (unat limit) f
      in (answer_with MsgType_lineage_rsp
            (encode_lineage_response
               \<lparr>ln_truncated = length entries \<ge> unat limit, ln_entries = entries\<rparr>)
            ''cannot encode lineage'', f))"

text \<open>The switch of \<open>dispatch\<close>, from the position behind the session header.\<close>

definition operate :: "MsgType \<Rightarrow> ByteReader \<Rightarrow> Server \<Rightarrow> DispatchResult \<times> Fabric" where
  "operate type reader v =
     (let f = sv_fabric v
      in case type of
        MsgType_status_req \<Rightarrow>
          (answer_with MsgType_status_rsp (encode_status_response (status_response v))
             ''cannot encode status'', f)
      | MsgType_set_policy_req \<Rightarrow>
          with_body get_policy ''policy payload invalid''
            (\<lambda>policy f. acknowledge (fabric_apply_policy policy f)) reader f
      | MsgType_set_obligations_req \<Rightarrow>
          with_body get_obligations ''obligations payload invalid''
            (\<lambda>obligations f. acknowledge (fabric_apply_obligations obligations f)) reader f
      | MsgType_put_set_req \<Rightarrow>
          with_body get_set ''alternate set payload invalid''
            (\<lambda>st f. acknowledge (fabric_apply_alternate_set st f)) reader f
      | MsgType_put_evidence_req \<Rightarrow>
          with_body get_evidence ''evidence payload invalid''
            (\<lambda>evidence f. acknowledge (fabric_apply_evidence evidence f)) reader f
      | MsgType_set_authority_req \<Rightarrow>
          with_body get_authority ''authority payload invalid''
            (\<lambda>authority f. acknowledge (fabric_set_authority authority f)) reader f
      | MsgType_evaluate_req \<Rightarrow>
          with_body decode_request_body ''request payload invalid'' do_evaluate reader f
      | MsgType_promote_req \<Rightarrow>
          with_body decode_request_body ''request payload invalid'' do_promote reader f
      | MsgType_effect_req \<Rightarrow>
          with_body decode_effect_body ''effect payload invalid''
            (\<lambda>body f. acknowledge (record_effect (fst body) (snd body) f)) reader f
      | MsgType_abandon_req \<Rightarrow>
          with_body decode_abandon_body ''abandon payload invalid''
            (\<lambda>body f. acknowledge (abandon_attempt (fst body) (snd body) f)) reader f
      | MsgType_rollback_req \<Rightarrow>
          with_body decode_rollback_body ''rollback payload invalid''
            (\<lambda>body f. acknowledge (rollback (fst body) (snd body) f)) reader f
      | MsgType_revert_req \<Rightarrow>
          with_body decode_rollback_body ''rollback payload invalid''
            (\<lambda>body f. do_revert (fst body) (snd body) f) reader f
      | MsgType_fence_req \<Rightarrow>
          with_body decode_fence_body ''fence payload invalid''
            (\<lambda>body f. acknowledge (fabric_fence_path (fst body) (snd body) f)) reader f
      | MsgType_attempt_req \<Rightarrow>
          with_body decode_attempt_body ''attempt payload invalid'' do_attempt reader f
      | MsgType_lineage_req \<Rightarrow>
          with_body decode_lineage_body ''lineage payload invalid'' do_lineage reader f
      | MsgType_shutdown_req \<Rightarrow>
          (if \<not> vo_allow_shutdown (sv_options v)
           then error_response Code_refused Reason_message_unsupported
                  ''shutdown is disabled for this service''
           else \<lparr>dr_response_type = MsgType_shutdown_rsp, dr_payload = [],
                 dr_close_session = False, dr_stop_server = True\<rparr>, f)
      | _ \<Rightarrow>
          (error_response Code_unsupported Reason_message_unsupported
             ''message type is not a supported request'', f))"

text \<open>The checks of \<open>dispatch\<close> on the session header, in source order.\<close>

definition header_refusal :: "SessionHeader \<Rightarrow> Session \<Rightarrow> Server \<Rightarrow> DispatchResult option" where
  "header_refusal header session v =
     (if sh_session header \<noteq> ss_id session then
        Some (error_response Code_refused Reason_session_unknown
          ''request session does not match the established session'')
      else if sh_epoch header \<noteq> ss_epoch session \<or> sh_boot header \<noteq> ss_boot session then
        Some (error_response Code_stale Reason_session_stale
          ''session authority is no longer current'')
      else if sh_request_sequence header = 0 \<or>
              sh_request_sequence header \<le> ss_last_request_sequence session then
        Some (error_response Code_conflict Reason_sequence_regression
          ''request sequence replayed or regressed'')
      else if sh_request_sequence header > vo_max_requests_per_session (sv_options v) then
        Some (error_response Code_exhausted Reason_request_limit
          ''session request budget exhausted'')
      else None)"

definition dispatch :: "Frame \<Rightarrow> Session \<Rightarrow> Server \<Rightarrow> DispatchResult \<times> Session \<times> Server" where
  "dispatch fr session v =
     (case run_state decode_session_header (byte_reader (fm_payload fr)) of
        (Inl status, reader) \<Rightarrow>
          (closing (error_response Code_invalid (st_reason status) ''session header invalid''),
           session, v)
      | (Inr header, reader) \<Rightarrow>
     (case header_refusal header session v of
        Some result \<Rightarrow> (closing result, session, v)
      | None \<Rightarrow>
     (case operate (fm_type fr) reader v of
        (result, fabric) \<Rightarrow>
          (result, session\<lparr>ss_last_request_sequence := sh_request_sequence header\<rparr>,
           v\<lparr>sv_fabric := fabric\<rparr>))))"

section \<open>The thread of a session\<close>

text \<open>
  One iteration of an inner loop on a frame: whether the session goes on, the session and the
  server it leaves behind.
\<close>

definition refuse_frame ::
  "Status \<Rightarrow> Frame \<Rightarrow> Code \<Rightarrow> Reason \<Rightarrow> string \<Rightarrow> Session \<Rightarrow> Server \<Rightarrow> Session \<times> Server" where
  "refuse_frame answer fr code reason detail session v =
     snd (send_frame answer MsgType_error_rsp (fm_sequence fr)
       (encode_error_response \<lparr>er_code = code, er_reason = reason, er_detail = detail\<rparr>) session v)"

definition hello_response :: "SessionId \<Rightarrow> Server \<Rightarrow> HelloResponse" where
  "hello_response i v =
     \<lparr>hr_protocol = protocol_version, hr_session = i,
      hr_epoch = fi_epoch (fabric_identity (sv_fabric v)),
      hr_boot = fi_boot (fabric_identity (sv_fabric v)),
      hr_incarnation = fi_incarnation (fabric_identity (sv_fabric v)),
      hr_authority = fabric_authority (sv_fabric v),
      hr_max_requests_per_session = vo_max_requests_per_session (sv_options v)\<rparr>"

definition greet :: "Status \<Rightarrow> Frame \<Rightarrow> Session \<Rightarrow> Server \<Rightarrow> bool \<times> Session \<times> Server" where
  "greet answer fr session v =
     (let identity = fabric_identity (sv_fabric v);
          v = tick vs_handshakes_completed_update 1
                (v\<lparr>sv_session_sequence := sv_session_sequence v + 1\<rparr>);
          session = session\<lparr>ss_id := sv_session_sequence v, ss_epoch := fi_epoch identity,
                            ss_boot := fi_boot identity\<rparr>;
          ack = encode_hello_response (hello_response (ss_id session) v)
      in if ack = [] then (False, session, v)
         else
     (case send_frame answer MsgType_hello_ack (fm_sequence fr) ack session v of
        (status, session, v) \<Rightarrow>
          if \<not> st_ok status then (False, session, v)
          else (True, session\<lparr>ss_handshake_done := True\<rparr>, v)))"

definition handshake_frame ::
  "Status \<Rightarrow> Frame \<Rightarrow> Session \<Rightarrow> Server \<Rightarrow> bool \<times> Session \<times> Server" where
  "handshake_frame answer fr session v =
     (if fm_type fr \<noteq> MsgType_hello then
        (False, apsnd (tick vs_frames_rejected_update 1)
           (refuse_frame answer fr Code_refused Reason_message_unsupported ''handshake required''
              session v))
      else
     (case decode_hello_request (fm_payload fr) of
        Inl status \<Rightarrow> (False, session, v)
      | Inr hello \<Rightarrow>
          if hq_protocol hello \<noteq> protocol_version then
            (False,
             refuse_frame answer fr Code_version_unsupported Reason_protocol_version_mismatch
               ''protocol version mismatch'' session v)
          else greet answer fr session v))"

definition request_frame ::
  "Status \<Rightarrow> Frame \<Rightarrow> Session \<Rightarrow> Server \<Rightarrow> bool \<times> Session \<times> Server" where
  "request_frame answer fr session v =
     (if \<not> is_request_type (fm_type fr) then
        (False,
         refuse_frame answer fr Code_refused Reason_message_unsupported
           ''response type is not a request'' session v)
      else
     (case dispatch fr session v of
        (dispatched, session, v) \<Rightarrow>
     (let session = session\<lparr>ss_requests_handled := ss_requests_handled session + 1\<rparr>;
          v = tick vs_requests_handled_update 1 v;
          v = (if dr_response_type dispatched = MsgType_error_rsp
               then tick vs_frames_rejected_update 1 v else v)
      in case send_frame answer (dr_response_type dispatched) (fm_sequence fr)
                (dr_payload dispatched) session v of
        (status, session, v) \<Rightarrow>
          (st_ok status \<and> \<not> dr_close_session dispatched \<and> \<not> dr_stop_server dispatched, session,
           if dr_stop_server dispatched then request_stop v else v))))"

text \<open>
  \<open>net::recv_some\<close> has returned a chunk: it is counted and fed. In the request loop a refused
  chunk is counted; in the handshake loop the failed decoder is looked at after the frames.
\<close>

definition receive_chunk :: "byte list \<Rightarrow> Session \<Rightarrow> Server \<Rightarrow> Session \<times> Server" where
  "receive_chunk chunk session v =
     (let v = tick vs_bytes_received_update (word_of_nat (length chunk)) v
      in case feed chunk (ss_decoder session) of
        (fed, decoder) \<Rightarrow>
          (session\<lparr>ss_decoder := decoder\<rparr>,
           if ss_handshake_done session \<and> \<not> st_ok fed
           then tick vs_frames_rejected_update 1 v else v))"

text \<open>
  \<open>serve_pending\<close>: the inner loop of either phase. A handshake loop stops after one frame, a request loop
  when the session ends or no frame is left. \<open>k\<close> counts the sends.
\<close>

lemma unchanged [simp]:
  "\<exists>w. s = (s :: Session)\<lparr>ss_written := w\<rparr>" "\<exists>q. s = s\<lparr>ss_last_request_sequence := q\<rparr>"
  "\<exists>t. v = (v :: Server)\<lparr>sv_stats := t\<rparr>" "\<exists>f. v = v\<lparr>sv_fabric := f\<rparr>"
  by (rule exI [of _ "ss_written s"], simp, rule exI [of _ "ss_last_request_sequence s"], simp,
      rule exI [of _ "sv_stats v"], simp, rule exI [of _ "sv_fabric v"], simp)

lemma send_frame_session:
  "send_frame answer type q p session v = (status, session', v') \<Longrightarrow>
     (\<exists>w. session' = session\<lparr>ss_written := w\<rparr>) \<and> (\<exists>t. v' = v\<lparr>sv_stats := t\<rparr>)"
  unfolding send_frame_def tick_def Let_def by (auto split: if_splits)

lemma refuse_frame_session:
  assumes "refuse_frame answer fr code reason detail session v = (session', v')"
  shows "(\<exists>w. session' = session\<lparr>ss_written := w\<rparr>) \<and> (\<exists>t. v' = v\<lparr>sv_stats := t\<rparr>)"
  using assms send_frame_session unfolding refuse_frame_def by (metis prod.collapse)

lemma dispatch_session:
  "dispatch fr session v = (result, session', v') \<Longrightarrow>
     (\<exists>q. session' = session\<lparr>ss_last_request_sequence := q\<rparr>) \<and> (\<exists>f. v' = v\<lparr>sv_fabric := f\<rparr>)"
  unfolding dispatch_def by (auto split: prod.splits sum.splits option.splits)

lemma request_frame_decoder:
  assumes "request_frame answer fr session v = (go, session', v')"
  shows "ss_decoder session' = ss_decoder session"
proof (cases "is_request_type (fm_type fr)")
  case False
  then show ?thesis using assms refuse_frame_session by (fastforce simp: request_frame_def)
next
  case True
  obtain r s1 v1 where d: "dispatch fr session v = (r, s1, v1)" by (metis prod_cases3)
  show ?thesis
    using assms True dispatch_session [OF d]
    by (auto simp: request_frame_def d Let_def dest!: send_frame_session split: prod.splits)
qed

function serve_requests ::
  "(nat \<Rightarrow> Status) \<Rightarrow> nat \<Rightarrow> Session \<Rightarrow> Server \<Rightarrow> bool \<times> Session \<times> Server" where
  "serve_requests answers k session v =
     (case pop (ss_decoder session) of
        (Inl status, decoder) \<Rightarrow> (True, session\<lparr>ss_decoder := decoder\<rparr>, v)
      | (Inr fr, decoder) \<Rightarrow>
          (case request_frame (answers k) fr (session\<lparr>ss_decoder := decoder\<rparr>) v of
             (keep_going, session, v) \<Rightarrow>
               if keep_going then serve_requests answers (Suc k) session v
               else (False, session, v)))"
  by pat_completeness auto
termination
  by (relation "measure (\<lambda>(answers, k, session, v). available (ss_decoder session))")
    (auto dest!: request_frame_decoder [OF sym] pop_shrinks [OF sym])

declare serve_requests.simps [simp del]

definition serve_handshake ::
  "(nat \<Rightarrow> Status) \<Rightarrow> Session \<Rightarrow> Server \<Rightarrow> bool \<times> Session \<times> Server" where
  "serve_handshake answers session v =
     (case (case pop (ss_decoder session) of
              (Inl status, decoder) \<Rightarrow> (True, session\<lparr>ss_decoder := decoder\<rparr>, v)
            | (Inr fr, decoder) \<Rightarrow>
                handshake_frame (answers 0) fr (session\<lparr>ss_decoder := decoder\<rparr>) v) of
        (keep_going, session, v) \<Rightarrow>
          if failed (ss_decoder session)
          then (False, session, tick vs_frames_rejected_update 1 v)
          else (keep_going, session, v))"

definition serve_pending ::
  "(nat \<Rightarrow> Status) \<Rightarrow> Session \<Rightarrow> Server \<Rightarrow> bool \<times> Session \<times> Server" where
  "serve_pending answers session v =
     (if ss_handshake_done session then serve_requests answers 0 session v
      else serve_handshake answers session v)"

definition end_session :: "Session \<Rightarrow> Server \<Rightarrow> Server" where
  "end_session session v =
     (let v = forget_session session v in v\<lparr>sv_active_threads := sv_active_threads v - 1\<rparr>)"

text \<open>
  One turn of an outer loop: the stop flag, the receive, the frames. The result says whether the
  loop goes on. \<open>stopped\<close> is what the load of the stop flag gave: the flag may change while the
  thread waits in the receive that follows.
\<close>

definition serve_turn ::
  "bool \<Rightarrow> byte list Result \<Rightarrow> (nat \<Rightarrow> Status) \<Rightarrow> Session \<Rightarrow> Server \<Rightarrow>
   bool \<times> Session \<times> Server" where
  "serve_turn stopped received answers session v =
     (if stopped then (False, session, v)
      else
     (case received of
        Inl status \<Rightarrow> (False, session, v)
      | Inr chunk \<Rightarrow>
          if chunk = [] then (False, session, v)
          else (case receive_chunk chunk session v of
                  (session, v) \<Rightarrow> serve_pending answers session v)))"

text \<open>
  The whole thread when no other session interleaves, over the results of its receives; a thread
  whose receives are used up is still waiting for the next.
\<close>

primrec serve_session ::
  "(bool \<times> byte list Result \<times> (nat \<Rightarrow> Status)) list \<Rightarrow> Session \<Rightarrow> Server \<Rightarrow>
   Session option \<times> Server" where
  "serve_session [] session v = (Some session, v)"
| "serve_session (turn # turns) session v =
     (case turn of (stopped, received, answers) \<Rightarrow>
     (case serve_turn stopped received answers session v of
        (keep_going, session, v) \<Rightarrow>
          if keep_going then serve_session turns session v
          else (None, end_session session v)))"

section \<open>The accept loop\<close>

text \<open>
  One turn of \<open>run\<close>: \<^term>\<open>None\<close> when the loop goes on, otherwise what it leaves the loop with
  (\<open>ok_status\<close> for a \<open>break\<close>). \<open>spawned\<close> says whether the session thread could be started.
\<close>

definition accept_turn :: "nat Result \<Rightarrow> bool \<Rightarrow> Server \<Rightarrow> Status option \<times> Server" where
  "accept_turn accepted spawned v =
     (if sv_stop v then (Some ok_status, v)
      else
     (case accepted of
        Inl status \<Rightarrow> (Some status, v)
      | Inr socket \<Rightarrow>
          if length (sv_sessions v) \<ge> vo_max_sessions (sv_options v)
          then (None, tick vs_connections_rejected_update 1 v)
          else
            (let session = new_session socket;
                 v = tick vs_connections_accepted_update 1
                       (v\<lparr>sv_sessions := sv_sessions v @ [session]\<rparr>);
                 v = v\<lparr>sv_active_threads := sv_active_threads v + 1\<rparr>
             in if spawned then (None, v)
                else (Some (Status Code_exhausted Reason_allocation_denied
                             ''cannot start session thread''), end_session session v))))"

end
