(* ===== verification/PFF_Machine.thy ===== *)
theory PFF_Machine
  imports PFF_Fabric
begin

text \<open>
  The coordinator as a state machine. \<open>micro\<close> lists the elementary changes that the operations
  of \<open>src/fabric.cpp\<close> are made of, each with the guard under which the code makes it; every
  operation is shown to be a sequence of them, also where it fails half way. Invariants are then
  proved by rule induction on \<open>micro\<close> and hold for every sequence of operations.
\<close>

section \<open>Elementary changes\<close>

text \<open>
  Only the store, the statistics and the counters change, and the attempt counter does not go back.
\<close>

definition same_tables :: "DurableState \<Rightarrow> DurableState \<Rightarrow> bool" where
  "same_tables s t \<longleftrightarrow>
     ds_authority t = ds_authority s \<and> ds_has_policy t = ds_has_policy s \<and>
     ds_policy t = ds_policy s \<and> ds_has_obligations t = ds_has_obligations s \<and>
     ds_obligations t = ds_obligations s \<and> ds_sets t = ds_sets s \<and> ds_fences t = ds_fences s \<and>
     ds_attempts t = ds_attempts s \<and> ds_lineage t = ds_lineage s \<and>
     ds_lineage_truncated t = ds_lineage_truncated s \<and> ds_restart_count t = ds_restart_count s"

definition calm :: "Fabric \<Rightarrow> Fabric \<Rightarrow> bool" where
  "calm f g \<longleftrightarrow>
     fb_identity g = fb_identity f \<and> fb_options g = fb_options f \<and> fb_sets g = fb_sets f \<and>
     fb_evidence g = fb_evidence f \<and> fb_attempts g = fb_attempts f \<and>
     fb_path_fences g = fb_path_fences f \<and> fb_active_attempt g = fb_active_attempt f \<and>
     fb_grants g = fb_grants f \<and> same_tables (fb_state f) (fb_state g) \<and>
     ds_attempt_sequence (fb_state f) \<le> ds_attempt_sequence (fb_state g)"

text \<open>An effect that \<open>record_effect\<close> accepts for an attempt.\<close>

definition verified_for :: "EffectEvidence \<Rightarrow> AttemptRecord \<Rightarrow> Fabric \<Rightarrow> bool" where
  "verified_for e a f \<longleftrightarrow>
     st_ok (validate_effect e) \<and> ee_path e = ar_selected a \<and>
     cmp_overall (classify (ee_observed_under e) (ds_authority (fb_state f))) =
       AuthorityClass_current \<and>
     (\<forall>stored. map_of (fb_evidence f) (ee_path e) = Some stored \<longrightarrow>
        pe_observation_seq stored < ee_observation_seq e)"

text \<open>The attempt table, or the table after one terminal attempt was dropped from it.\<close>

definition makes_room :: "(AttemptId, AttemptRecord) smap \<Rightarrow> Fabric \<Rightarrow> bool" where
  "makes_room m f \<longleftrightarrow> m = fb_attempts f \<or>
     (\<exists>i a. map_of (fb_attempts f) i = Some a \<and> is_terminal_state (ar_state a) \<and>
        m = map_erase i (fb_attempts f))"

inductive micro :: "Fabric \<Rightarrow> Fabric \<Rightarrow> bool" where
  quiet: "calm f g \<Longrightarrow> micro f g"
| wrap: "ds_attempt_sequence (fb_state f) = - 1 \<Longrightarrow>
    micro f (with_state (\<lambda>s. s\<lparr>ds_attempt_sequence := 0\<rparr>) f)"
| claim: "ds_attempt_sequence (fb_state f) \<noteq> - 1 \<Longrightarrow>
    ar_id a = ds_attempt_sequence (fb_state f) + 1 \<Longrightarrow>
    ar_state a = AttemptState_claimed \<or>
      ar_state a = AttemptState_committed \<and>
      (\<exists>e. st_ok (fst (validate_target_locked e f)) \<and> ar_selected a = pe_path e) \<Longrightarrow>
    fb_active_attempt f = absent \<Longrightarrow> makes_room m f \<Longrightarrow>
    length (map_assign (ar_id a) a m) \<le>
      max (length (fb_attempts f)) (unat (fo_max_retained_attempts (fb_options f))) \<Longrightarrow>
    micro f (with_state (\<lambda>s. s\<lparr>ds_attempt_sequence := ar_id a\<rparr>)
      (f\<lparr>fb_attempts := map_assign (ar_id a) a m\<rparr>))"
| finish: "map_of (fb_attempts f) i = Some b \<Longrightarrow> is_active_state (ar_state b) \<Longrightarrow>
    is_terminal_state (ar_state a) \<Longrightarrow> ar_state a \<noteq> AttemptState_committed \<Longrightarrow> ar_id a = ar_id b \<Longrightarrow>
    micro f (store_attempt i a f)"
| commit: "map_of (fb_attempts f) i = Some b \<Longrightarrow> is_active_state (ar_state b) \<Longrightarrow>
    fb_active_attempt f = i \<Longrightarrow> verified_for e b f \<Longrightarrow>
    micro f (store_attempt i (ended AttemptState_committed Reason_none f b) f)"
| leave: "\<not> owner_active f \<Longrightarrow> micro f (f\<lparr>fb_active_attempt := absent\<rparr>)"
| ungrant: "micro f (f\<lparr>fb_grants := map_erase i (fb_grants f)\<rparr>)"
| lineage: "length l \<le> max max_lineage (length (ds_lineage (fb_state f))) \<Longrightarrow>
    micro f (with_state (\<lambda>s. s\<lparr>ds_lineage := l, ds_lineage_truncated := t\<rparr>) f)"
| fence: "length (ds_fences (fb_state f)) < max_fences \<Longrightarrow> \<not> valid (fr_path r) \<Longrightarrow>
    micro f (with_state (\<lambda>s. s\<lparr>ds_fences := ds_fences s @ [r]\<rparr>) f)"
| path_fence: "length (ds_fences (fb_state f)) < max_fences \<Longrightarrow> valid (fr_path r) \<Longrightarrow>
    micro f (with_state (\<lambda>s. s\<lparr>ds_fences := ds_fences s @ [r]\<rparr>)
      (f\<lparr>fb_path_fences := map_emplace (fr_path r) reason (fb_path_fences f)\<rparr>))"
| put_set: "st_ok (validate_set st) \<Longrightarrow>
    (case map_of (fb_sets f) (as_id st) of
       Some old \<Rightarrow> as_generation old < as_generation st
     | None \<Rightarrow> length (fb_sets f) < max_alternate_sets) \<Longrightarrow>
    micro f (with_state (\<lambda>s. s\<lparr>ds_sets := l\<rparr>)
      (f\<lparr>fb_sets := map_assign (as_id st) st (fb_sets f)\<rparr>))"
| observe: "micro f (f\<lparr>fb_evidence := m\<rparr>)"
| policy: "st_ok (validate_policy p) \<Longrightarrow>
    ds_has_policy (fb_state f) \<longrightarrow> fp_generation (ds_policy (fb_state f)) < fp_generation p \<Longrightarrow>
    micro f (with_state (\<lambda>s. s\<lparr>ds_policy := p, ds_has_policy := True,
      ds_authority := (ds_authority s)\<lparr>av_policy := fp_generation p\<rparr>\<rparr>) f)"
| obligations: "st_ok (validate_obligations ob) \<Longrightarrow>
    ds_has_obligations (fb_state f) \<longrightarrow>
      so_generation (ds_obligations (fb_state f)) < so_generation ob \<Longrightarrow>
    micro f (with_state (\<lambda>s. s\<lparr>ds_obligations := ob, ds_has_obligations := True,
      ds_authority := (ds_authority s)\<lparr>av_obligations := so_generation ob\<rparr>\<rparr>) f)"
| topology: "av_topology (ds_authority (fb_state f)) \<le> x \<Longrightarrow>
    av_path_authority (ds_authority (fb_state f)) \<le> y \<Longrightarrow>
    micro f (with_state (\<lambda>s. s\<lparr>ds_authority := (ds_authority s)\<lparr>av_topology := x,
      av_path_authority := y\<rparr>\<rparr>) f)"

inductive_cases microE: "micro f g"

text \<open>
  Ownership of the transition is taken by \<open>begin_promotion\<close> only; the other operations consist of
  \<open>micro\<close> steps.
\<close>

inductive move :: "Fabric \<Rightarrow> Fabric \<Rightarrow> bool" where
  grant: "map_of (fb_attempts f) i = Some b \<Longrightarrow> ar_state b = AttemptState_claimed \<Longrightarrow> valid i \<Longrightarrow>
    fb_active_attempt f = absent \<Longrightarrow> ar_id b = i \<Longrightarrow>
    move f (f\<lparr>fb_attempts :=
        map_assign i (b\<lparr>ar_state := AttemptState_authorized\<rparr>) (fb_attempts f),
      fb_active_attempt := i, fb_grants := map_assign i g (fb_grants f)\<rparr>)"
| inner: "micro f g \<Longrightarrow> move f g"

abbreviation steps :: "Fabric \<Rightarrow> Fabric \<Rightarrow> bool" where
  "steps \<equiv> micro\<^sup>*\<^sup>*"

abbreviation moves :: "Fabric \<Rightarrow> Fabric \<Rightarrow> bool" where
  "moves \<equiv> move\<^sup>*\<^sup>*"

lemma moves_trans [trans]: "moves f g \<Longrightarrow> moves g h \<Longrightarrow> moves f h"
  by (rule rtranclp_trans)

lemma steps_moves: "steps f g \<Longrightarrow> moves f g"
  by (rule rtranclp_mono [THEN predicate2D]) (auto intro: inner)

lemma steps_trans [trans]: "steps f g \<Longrightarrow> steps g h \<Longrightarrow> steps f h"
  by (rule rtranclp_trans)

lemma steps_micro: "micro f g \<Longrightarrow> steps f g"
  by (rule r_into_rtranclp)

section \<open>Quiet changes\<close>

lemmas calm_defs = calm_def same_tables_def

lemma calm_refl: "calm f f"
  by (simp add: calm_defs)

lemma calm_trans: "calm f g \<Longrightarrow> calm g h \<Longrightarrow> calm f h"
  by (auto simp: calm_defs)

lemma calm_tally: "calm f (tally u f)"
  by (simp add: calm_defs tally_def)

lemma calm_append: "calm f (snd (append_locked t p f))"
  by (simp add: append_locked_def calm_defs with_state_def tally_def Let_def split: prod.split)

lemma calm_compact: "calm f (snd (compact_if_needed_locked f))"
  by (simp add: compact_if_needed_locked_def calm_defs split: prod.split)

lemma calm_steps: "calm f g \<Longrightarrow> steps f g"
  by (rule steps_micro [OF quiet])

text \<open>Sequencing.\<close>

lemma steps_then_do:
  "steps f (snd r) \<Longrightarrow> (st_ok (fst r) \<Longrightarrow> steps (snd r) (snd (k (snd r)))) \<Longrightarrow>
   steps f (snd (then_do r k))"
  by (cases r) (auto simp: then_do_def intro: steps_trans)

lemma steps_then_return:
  "steps f (snd r) \<Longrightarrow> (st_ok (fst r) \<Longrightarrow> steps (snd r) (snd (k (snd r)))) \<Longrightarrow>
   steps f (snd (then_return r k))"
  by (cases r) (auto simp: then_return_def intro: steps_trans)

lemma then_do_ok:
  assumes "then_do r k = (status, g)" "st_ok status"
  shows "st_ok (fst r) \<and> k (snd r) = (status, g)"
  using assms by (cases r) (auto simp: then_do_def split: if_splits)

section \<open>Attempts\<close>

text \<open>Identities and order of the maps.\<close>

definition keyed :: "Fabric \<Rightarrow> bool" where
  "keyed f \<longleftrightarrow> ordered (fb_attempts f) \<and>
     (\<forall>i a. map_of (fb_attempts f) i = Some a \<longrightarrow> ar_id a = i)"

lemma keyedD:
  "keyed f \<Longrightarrow> ordered (fb_attempts f)"
  "keyed f \<Longrightarrow> map_of (fb_attempts f) i = Some a \<Longrightarrow> ar_id a = i"
  by (simp_all add: keyed_def)

lemma keyed_store: "keyed f \<Longrightarrow> ar_id a = i \<Longrightarrow> keyed (store_attempt i a f)"
  by (auto simp: keyed_def store_attempt_def ordered_assign)

lemma micro_keyed: "micro f g \<Longrightarrow> keyed f \<Longrightarrow> keyed g"
  by (induction rule: micro.induct)
    (auto simp: keyed_def calm_defs with_state_def store_attempt_def ordered_assign ordered_erase
      ended_def makes_room_def split: if_splits)

lemma move_keyed: "move f g \<Longrightarrow> keyed f \<Longrightarrow> keyed g"
proof (induction rule: move.induct)
  case (grant f i b g)
  then show ?case by (auto simp: keyed_def ordered_assign)
next
  case (inner f g)
  then show ?case by (rule micro_keyed)
qed

lemma moves_keyed: "moves f g \<Longrightarrow> keyed f \<Longrightarrow> keyed g"
  by (induction rule: rtranclp_induct) (auto intro: move_keyed)

lemma steps_keyed: "steps f g \<Longrightarrow> keyed f \<Longrightarrow> keyed g"
  by (induction rule: rtranclp_induct) (auto intro: micro_keyed)

lemma payload_ne [simp]:
  "encode_attempt_record a \<noteq> []" "encode_lineage_record l \<noteq> []" "encode_fence_record r \<noteq> []"
  "encode_policy_record p \<noteq> []" "encode_obligations_record ob \<noteq> []" "epoch_payload s \<noteq> []"
  using payload_lengths(2-) unfolding epoch_payload_def
  by (metis list.size(3) zero_neq_numeral)+

lemma set_payload_ne: "st_ok (validate_set st) \<Longrightarrow> encode_set_record st \<noteq> []"
  using set_payload_length(1) by fastforce

definition with_attempt_id :: "AttemptId \<Rightarrow> Fabric \<Rightarrow> Fabric" where
  "with_attempt_id i f =
     with_state (\<lambda>s. s\<lparr>ds_attempt_sequence := max (ds_attempt_sequence s) i\<rparr>) f"

lemma calm_with_attempt_id: "calm f (with_attempt_id i f)"
  by (simp add: with_attempt_id_def with_state_def calm_defs)

text \<open>The record is appended, or the coordinator stays as it is.\<close>

lemma persist_attempt_cases:
  obtains (refused) "\<not> st_ok (fst (persist_attempt_locked a w f))"
      "calm f (snd (persist_attempt_locked a w f))"
  | (retained) g where "calm f g"
      "ds_attempt_sequence (fb_state g) = ds_attempt_sequence (fb_state f)"
      "persist_attempt_locked a w f = retain_attempt_locked a (with_attempt_id (ar_id a) g)"
proof -
  let ?t = "if w then RecordType_attempt_begin else RecordType_attempt_state"
  let ?r = "append_locked ?t (encode_attempt_record a) f"
  have seq: "ds_attempt_sequence (fb_state (snd ?r)) = ds_attempt_sequence (fb_state f)"
    by (simp add: append_locked_def with_state_def tally_def Let_def split: prod.split)
  show thesis
  proof (cases "st_ok (fst ?r)")
    case True
    then have "persist_attempt_locked a w f =
        retain_attempt_locked a (with_attempt_id (ar_id a) (snd ?r))"
      by (simp add: persist_attempt_locked_def then_do_def with_attempt_id_def split_beta)
    then show thesis using retained calm_append seq by blast
  next
    case False
    then have "persist_attempt_locked a w f = ?r"
      by (simp add: persist_attempt_locked_def then_do_def split_beta)
    then show thesis using refused False calm_append by metis
  qed
qed

lemma persist_known_cases:
  assumes "map_of (fb_attempts f) (ar_id a) = Some b"
  obtains (refused) "\<not> st_ok (fst (persist_attempt_locked a w f))"
      "calm f (snd (persist_attempt_locked a w f))"
  | (stored) g where "calm f g" "persist_attempt_locked a w f = (ok_status, store_attempt (ar_id a) a g)"
proof (rule persist_attempt_cases [of a w f])
  fix g assume g: "calm f g"
    "persist_attempt_locked a w f = retain_attempt_locked a (with_attempt_id (ar_id a) g)"
  let ?g = "with_attempt_id (ar_id a) g"
  have calm: "calm f ?g" using g(1) calm_with_attempt_id by (rule calm_trans)
  then have "map_of (fb_attempts ?g) (ar_id a) = Some b" using assms by (simp add: calm_defs)
  then show thesis using stored [OF calm] g(2) by (simp add: retain_attempt_locked_def)
qed (rule refused)

text \<open>An attempt that was already changed in memory.\<close>

lemma persist_in_place:
  assumes "keyed f" "map_of (fb_attempts f) (ar_id a) = Some a"
  shows "calm f (snd (persist_attempt_locked a w f))"
  using assms(2)
proof (cases rule: persist_known_cases [of f a a w])
  case (stored g)
  have "map_assign (ar_id a) a (fb_attempts f) = fb_attempts f"
    by (rule smap.entries_assign_same [OF keyedD(1) [OF assms(1)] assms(2)])
  then have "store_attempt (ar_id a) a g = g"
    using stored(1) by (simp add: store_attempt_def calm_defs)
  then show ?thesis using stored by simp
qed

lemma store_then_persist:
  assumes "keyed f" "map_of (fb_attempts f) i = Some b" "ar_id a = ar_id b"
  shows "calm (store_attempt i a f) (snd (persist_attempt_locked a w (store_attempt i a f)))"
    and "map_of (fb_attempts (store_attempt i a f)) i = Some a" "keyed (store_attempt i a f)"
proof -
  have i: "ar_id a = i" using assms(3) keyedD(2) [OF assms(1,2)] by simp
  then show k: "keyed (store_attempt i a f)" by (rule keyed_store [OF assms(1)])
  show m: "map_of (fb_attempts (store_attempt i a f)) i = Some a" by (simp add: store_attempt_def)
  then show "calm (store_attempt i a f) (snd (persist_attempt_locked a w (store_attempt i a f)))"
    using persist_in_place [OF k, of a w] i by simp
qed

lemma steps_lineage: "steps f (snd (persist_lineage_locked e f))"
proof -
  let ?r = "append_locked RecordType_lineage_entry (encode_lineage_record e) f"
  let ?g = "with_state (\<lambda>s. s\<lparr>ds_decision_sequence := max (ds_decision_sequence s) (li_decision e)\<rparr>)
    (snd ?r)"
  let ?full = "length (ds_lineage (fb_state ?g)) \<ge> max_lineage"
  let ?l = "(if ?full then tl (ds_lineage (fb_state ?g)) else ds_lineage (fb_state ?g)) @ [e]"
  have r: "steps f (snd ?r)" by (rule calm_steps [OF calm_append])
  have g: "steps f ?g"
    by (rule steps_trans [OF r calm_steps]) (simp add: calm_defs with_state_def)
  show ?thesis
  proof (cases "st_ok (fst ?r)")
    case True
    have len: "length ?l \<le> max max_lineage (length (ds_lineage (fb_state ?g)))"
      by (auto simp: max_lineage_def)
    have "snd (persist_lineage_locked e f) = with_state (\<lambda>s. s\<lparr>ds_lineage := ?l,
        ds_lineage_truncated := (?full \<or> ds_lineage_truncated (fb_state ?g))\<rparr>) ?g"
      using True by (simp add: persist_lineage_locked_def then_do_def split_beta with_state_def Let_def)
    then show ?thesis by (simp only: steps_trans [OF g steps_micro [OF lineage [OF len]]])
  next
    case False
    then show ?thesis using r by (simp add: persist_lineage_locked_def then_do_def split_beta)
  qed
qed

lemma fence_cases:
  obtains (refused) "\<not> st_ok (fst (record_fence_locked i path reason f))"
      "calm f (snd (record_fence_locked i path reason f))"
  | (recorded) r g where "calm f g" "length (ds_fences (fb_state g)) < max_fences" "fr_path r = path"
      "record_fence_locked i path reason f =
         (ok_status, with_state (\<lambda>s. s\<lparr>ds_fences := ds_fences s @ [r]\<rparr>) g)"
proof -
  define r where "r = \<lparr>fr_id = ds_fence_sequence (fb_state f) + 1, fr_epoch = fi_epoch (fb_identity f),
    fr_boot = fi_boot (fb_identity f), fr_attempt = i, fr_path = path, fr_reason = reason,
    fr_at = ds_authority (fb_state f), fr_sequence = ds_last_sequence (fb_state f) + 1\<rparr>"
  let ?a = "append_locked RecordType_fence_recorded (encode_fence_record r) f"
  let ?g = "with_state (\<lambda>s. s\<lparr>ds_fence_sequence := max (ds_fence_sequence s) (fr_id r)\<rparr>) (snd ?a)"
  consider (no) "ds_fence_sequence (fb_state f) = UINT64_MAX \<or>
      length (ds_fences (fb_state f)) \<ge> max_fences"
    | (failed) "ds_fence_sequence (fb_state f) \<noteq> UINT64_MAX"
      "length (ds_fences (fb_state f)) < max_fences" "\<not> st_ok (fst ?a)"
    | (ok) "ds_fence_sequence (fb_state f) \<noteq> UINT64_MAX"
      "length (ds_fences (fb_state f)) < max_fences" "st_ok (fst ?a)"
    by linarith
  then show thesis
  proof cases
    case no
    then show thesis
      by (intro refused) (auto simp: record_fence_locked_def persist_fence_locked_def calm_defs
          with_state_def)
  next
    case failed
    then have "record_fence_locked i path reason f = ?a"
      by (simp add: record_fence_locked_def persist_fence_locked_def then_do_def split_beta
          flip: r_def)
    then show thesis using refused failed(3) calm_append by metis
  next
    case ok
    have "calm (snd ?a) ?g" by (simp add: calm_defs with_state_def)
    with calm_append have g: "calm f ?g" by (rule calm_trans)
    show thesis
    proof (rule recorded [OF g])
      show "length (ds_fences (fb_state ?g)) < max_fences" using ok(2) g by (simp add: calm_defs)
      show "fr_path r = path" by (simp add: r_def)
      show "record_fence_locked i path reason f =
          (ok_status, with_state (\<lambda>s. s\<lparr>ds_fences := ds_fences s @ [r]\<rparr>) ?g)"
        using ok by (simp add: record_fence_locked_def persist_fence_locked_def then_do_def
            split_beta with_state_def Let_def flip: r_def)
    qed
  qed
qed

lemma steps_fence: "steps f (snd (record_fence_locked i absent reason f))"
proof (rule fence_cases [of i absent reason f])
  fix r g assume g: "calm f g" "length (ds_fences (fb_state g)) < max_fences" "fr_path r = absent"
    "record_fence_locked i absent reason f =
       (ok_status, with_state (\<lambda>s. s\<lparr>ds_fences := ds_fences s @ [r]\<rparr>) g)"
  have "micro g (with_state (\<lambda>s. s\<lparr>ds_fences := ds_fences s @ [r]\<rparr>) g)"
    by (rule fence [OF g(2)]) (simp add: g(3) valid_def absent_def)
  then show ?thesis using steps_trans [OF calm_steps [OF g(1)] steps_micro] g(4) by simp
qed (rule calm_steps)

text \<open>What the helpers of fencing leave alone.\<close>

definition same_but_attempts :: "Fabric \<Rightarrow> Fabric \<Rightarrow> bool" where
  "same_but_attempts f g \<longleftrightarrow>
     (\<exists>l m. calm (with_state (\<lambda>s. s\<lparr>ds_fences := l\<rparr>) (f\<lparr>fb_attempts := m\<rparr>)) g)"

lemma same_but_attempts_trans:
  "same_but_attempts f g \<Longrightarrow> same_but_attempts g h \<Longrightarrow> same_but_attempts f h"
  unfolding same_but_attempts_def by (auto simp: calm_defs with_state_def intro: order_trans)

lemma same_but_attempts_intros:
  "calm f g \<Longrightarrow> same_but_attempts f g"
  "same_but_attempts f (store_attempt i a f)"
  "same_but_attempts f (snd (record_fence_locked i path reason f))"
proof -
  show calm: "same_but_attempts f g" if "calm f g" for f g
    unfolding same_but_attempts_def
    by (rule exI [of _ "ds_fences (fb_state f)"], rule exI [of _ "fb_attempts f"])
      (use that in \<open>simp add: calm_defs with_state_def\<close>)
  show "same_but_attempts f (store_attempt i a f)"
    unfolding same_but_attempts_def store_attempt_def
    by (rule exI [of _ "ds_fences (fb_state f)"], rule exI) (auto simp: calm_defs with_state_def)
  show "same_but_attempts f (snd (record_fence_locked i path reason f))"
  proof (rule fence_cases [of i path reason f])
    fix r g assume g: "calm f g" "record_fence_locked i path reason f =
       (ok_status, with_state (\<lambda>s. s\<lparr>ds_fences := ds_fences s @ [r]\<rparr>) g)"
    show ?thesis
      unfolding g(2) snd_conv same_but_attempts_def
      by (rule exI [of _ "ds_fences (fb_state f) @ [r]"], rule exI [of _ "fb_attempts f"])
        (use g(1) in \<open>auto simp: calm_defs with_state_def\<close>)
  qed (rule calm)
qed

lemma fence_keeps_attempts: "fb_attempts (snd (record_fence_locked i path reason f)) = fb_attempts f"
  by (rule fence_cases [of i path reason f]) (auto simp: calm_defs with_state_def)

section \<open>Fencing\<close>

definition ends :: "AttemptState \<Rightarrow> bool" where
  "ends st \<longleftrightarrow> is_terminal_state st \<and> st \<noteq> AttemptState_committed"

definition active_at :: "Fabric \<Rightarrow> AttemptId \<Rightarrow> bool" where
  "active_at f i \<longleftrightarrow>
     (case map_of (fb_attempts f) i of Some b \<Rightarrow> is_active_state (ar_state b) | None \<Rightarrow> False)"

lemma active_ids_iff: "keyed f \<Longrightarrow> i \<in> set (active_ids f) \<longleftrightarrow> active_at f i"
  using smap.entry_find [of "fb_attempts f"] keyedD(1) [of f]
  by (force simp: active_ids_def active_at_def image_iff split: option.splits)

lemma distinct_active_ids: "keyed f \<Longrightarrow> distinct (active_ids f)"
  using smap.distinct_entries keyedD(1) unfolding active_ids_def
  by (blast intro: distinct_map_filter)

text \<open>One attempt is ended in memory, persisted and fenced.\<close>

definition end_one :: "Reason \<Rightarrow> AttemptState \<Rightarrow> AttemptId \<Rightarrow> Fabric \<Rightarrow> Fabric \<Rightarrow> bool" where
  "end_one reason st i f g \<longleftrightarrow>
     steps f g \<and> same_but_attempts f g \<and>
     map_of (fb_attempts g) = (map_of (fb_attempts f))(i \<mapsto> ended st reason f
       (the (map_of (fb_attempts f) i)))"

lemma end_and_persist:
  assumes "keyed f" "map_of (fb_attempts f) i = Some b" "is_active_state (ar_state b)" "ends st"
    and "a = ended st reason f b"
  shows "end_one reason st i f (snd (persist_attempt_locked a False (store_attempt i a f)))"
proof -
  let ?s = "store_attempt i a f" and ?p = "snd (persist_attempt_locked a False (store_attempt i a f))"
  have id: "ar_id a = ar_id b" and a: "is_terminal_state (ar_state a)"
    "ar_state a \<noteq> AttemptState_committed"
    using assms(4,5) by (auto simp: ended_def ends_def)
  note calm = store_then_persist(1) [OF assms(1,2) id, of False]
  have "steps f ?s" by (rule steps_micro [OF finish [OF assms(2,3) a id]])
  moreover have "same_but_attempts f ?p"
    using same_but_attempts_trans same_but_attempts_intros(1) [OF calm] same_but_attempts_intros(2)
    by blast
  ultimately show ?thesis
    using calm_steps [OF calm] calm assms(2,5) unfolding end_one_def
    by (auto intro: steps_trans simp: calm_defs store_attempt_def)
qed

definition ended_at :: "Reason \<Rightarrow> AttemptState \<Rightarrow> Fabric \<Rightarrow> AttemptId \<Rightarrow> bool" where
  "ended_at reason st f i \<longleftrightarrow>
     (\<exists>a. map_of (fb_attempts f) i = Some a \<and> ar_state a = st \<and> ar_terminal_reason a = reason)"

lemma ended_not_active: "ended_at reason st f i \<Longrightarrow> ends st \<Longrightarrow> \<not> active_at f i"
  by (auto simp: ended_at_def active_at_def ends_def is_active_state_def)

lemma fence_each_steps:
  assumes "keyed f" "distinct is" "\<forall>i \<in> set is. active_at f i" "ends st"
  shows "steps f (snd (fence_each reason st is f)) \<and>
    same_but_attempts f (snd (fence_each reason st is f)) \<and>
    (\<forall>j. j \<notin> set is \<longrightarrow>
       map_of (fb_attempts (snd (fence_each reason st is f))) j = map_of (fb_attempts f) j) \<and>
    (st_ok (fst (fence_each reason st is f)) \<longrightarrow>
      (\<forall>j \<in> set is. ended_at reason st (snd (fence_each reason st is f)) j))"
  using assms
proof (induction "is" arbitrary: f)
  case Nil
  then show ?case using same_but_attempts_intros(1) [OF calm_refl] by simp
next
  case (Cons i rest)
  obtain b where b: "map_of (fb_attempts f) i = Some b" "is_active_state (ar_state b)"
    using Cons.prems(3) by (auto simp: active_at_def split: option.splits)
  define a where "a = ended st reason f b"
  let ?p = "persist_attempt_locked a False (store_attempt i a f)"
  let ?q = "record_fence_locked i absent reason (snd ?p)"
  let ?g = "tally fs_fences_recorded_update (snd ?q)"
  have p: "end_one reason st i f (snd ?p)"
    using end_and_persist [OF Cons.prems(1) b Cons.prems(4) a_def] .
  then have sp: "steps f (snd ?p)" and fp: "same_but_attempts f (snd ?p)"
    and mp: "map_of (fb_attempts (snd ?p)) = (map_of (fb_attempts f))(i \<mapsto> a)"
    using b(1) by (auto simp: end_one_def a_def)
  have sq: "steps f (snd ?q)" using sp steps_fence by (rule steps_trans)
  have fq: "same_but_attempts f (snd ?q)"
    using fp same_but_attempts_intros(3) by (rule same_but_attempts_trans)
  have mq: "map_of (fb_attempts (snd ?q)) = (map_of (fb_attempts f))(i \<mapsto> a)"
    using mp by (simp add: fence_keeps_attempts)
  have g: "steps f ?g" "same_but_attempts f ?g"
    "map_of (fb_attempts ?g) = (map_of (fb_attempts f))(i \<mapsto> a)"
    using steps_trans [OF sq calm_steps [OF calm_tally]] mq
      same_but_attempts_trans [OF fq same_but_attempts_intros(1) [OF calm_tally]]
    by (auto simp: tally_def)
  have out: "fence_each reason st (i # rest) f =
      (if \<not> st_ok (fst ?p) then ?p else if \<not> st_ok (fst ?q) then ?q
       else fence_each reason st rest ?g)"
    by (simp add: find_attempt_locked_def b(1) then_do_def split_beta Let_def flip: a_def)
  have over: "ar_state a = st" "ar_terminal_reason a = reason"
    by (simp_all add: a_def ended_def)
  have rest: "i \<notin> set rest" "distinct rest" "\<forall>j \<in> set rest. active_at ?g j"
    using Cons.prems(2,3) g(3) by (auto simp: active_at_def)
  note IH = Cons.IH [OF steps_keyed [OF g(1) Cons.prems(1)] rest(2,3) Cons.prems(4)]
  show ?case
  proof (cases "st_ok (fst ?p) \<and> st_ok (fst ?q)")
    case True
    let ?h = "snd (fence_each reason st rest ?g)"
    have "ended_at reason st ?h i" using IH rest(1) g(3) over by (simp add: ended_at_def)
    then show ?thesis
      using True out IH steps_trans [OF g(1)] same_but_attempts_trans [OF g(2)] g(3)
      by simp
  next
    case False
    then show ?thesis using out sp fp mp sq fq mq by auto
  qed
qed

lemma steps_ungrant: "steps f (f\<lparr>fb_grants := foldl (\<lambda>m i. map_erase i m) (fb_grants f) is\<rparr>)"
proof (induction "is" arbitrary: f)
  case (Cons i rest)
  then show ?case
    using steps_trans [OF steps_micro [OF ungrant [of f i]] Cons.IH] by simp
qed simp

lemma owner_active_iff: "owner_active f \<longleftrightarrow> valid (fb_active_attempt f) \<and> active_at f (fb_active_attempt f)"
  by (auto simp: owner_active_def active_at_def split: option.split)

lemma fence_attempts_steps:
  assumes "keyed f" "ends st"
  shows "steps f (snd (fence_attempts_locked reason st f)) \<and>
    (st_ok (fst (fence_attempts_locked reason st f)) \<longrightarrow>
      (\<forall>j. \<not> active_at (snd (fence_attempts_locked reason st f)) j))"
proof -
  let ?r = "fence_each reason st (active_ids f) f" and ?out = "fence_attempts_locked reason st f"
  have "\<forall>i \<in> set (active_ids f). active_at f i" using active_ids_iff [OF assms(1)] by blast
  note r = fence_each_steps [OF assms(1) distinct_active_ids [OF assms(1)] this assms(2), of reason]
  show ?thesis
  proof (cases "st_ok (fst ?r)")
    case False
    then have "?out = ?r" by (simp add: fence_attempts_locked_def then_do_def split_beta)
    then show ?thesis using r False by simp
  next
    case True
    let ?g = "snd ?r"
    let ?h = "?g\<lparr>fb_active_attempt := absent\<rparr>"
    have quiet: "\<not> active_at ?g j" for j
    proof (cases "j \<in> set (active_ids f)")
      case True
      then show ?thesis using r \<open>st_ok (fst ?r)\<close> ended_not_active assms(2) by blast
    next
      case False
      then show ?thesis using r active_ids_iff [OF assms(1)] by (simp add: active_at_def)
    qed
    have "\<not> owner_active ?g" using quiet by (simp add: owner_active_iff)
    then have "steps ?g ?h" by (intro steps_micro leave)
    moreover have "steps ?h (?h\<lparr>fb_grants := foldl (\<lambda>m i. map_erase i m) (fb_grants ?h)
        (active_ids f)\<rparr>)" by (rule steps_ungrant)
    moreover have "?out = (ok_status, if active_ids f = [] then ?g
        else ?h\<lparr>fb_grants := foldl (\<lambda>m i. map_erase i m) (fb_grants ?h) (active_ids f)\<rparr>)"
      using True by (simp add: fence_attempts_locked_def then_do_def split_beta Let_def)
    ultimately show ?thesis
      using r quiet by (auto simp: active_at_def intro: steps_trans)
  qed
qed

lemma fence_targeting_steps:
  assumes "keyed f"
  shows "steps f (snd (fence_targeting path is f))"
  using assms
proof (induction "is" arbitrary: f)
  case (Cons i rest)
  show ?case
  proof (cases "map_of (fb_attempts f) i")
    case None
    then show ?thesis using Cons by (simp add: find_attempt_locked_def)
  next
    case (Some b)
    show ?thesis
    proof (cases "is_active_state (ar_state b) \<and> ar_selected b = path")
      case False
      then show ?thesis using Cons Some by (auto simp: find_attempt_locked_def)
    next
      case True
      define a where "a = ended AttemptState_fenced Reason_path_fenced f b"
      let ?p = "persist_attempt_locked a False (store_attempt i a f)"
      let ?g = "(snd ?p)\<lparr>fb_grants := map_erase i (fb_grants (snd ?p))\<rparr>"
      let ?h = "?g\<lparr>fb_active_attempt :=
        (if fb_active_attempt (snd ?p) = i then absent else fb_active_attempt (snd ?p))\<rparr>"
      have p: "end_one Reason_path_fenced AttemptState_fenced i f (snd ?p)"
        using end_and_persist [OF Cons.prems Some _ _ a_def] True by (simp add: ends_def)
      then have steps_p: "steps f (snd ?p)" and at_i: "map_of (fb_attempts (snd ?p)) i = Some a"
        using Some by (auto simp: end_one_def a_def)
      have "\<not> active_at ?g i" using at_i by (simp add: active_at_def a_def ended_def)
      then have "steps ?g ?h"
        using steps_micro [OF leave, of ?g] by (cases "fb_active_attempt (snd ?p) = i")
          (auto simp: owner_active_iff)
      then have h: "steps f ?h"
        using steps_p steps_micro [OF ungrant, of "snd ?p" i] by (meson steps_trans)
      have "fence_targeting path (i # rest) f =
          (if \<not> st_ok (fst ?p) then ?p else fence_targeting path rest ?h)"
        using Some True by (simp add: find_attempt_locked_def then_do_def split_beta Let_def
            flip: a_def)
      then show ?thesis
        using steps_p h Cons.IH [OF steps_keyed [OF h Cons.prems]] by (auto intro: steps_trans)
    qed
  qed
qed simp

section \<open>A new attempt\<close>

definition admissible :: "AttemptRecord \<Rightarrow> Fabric \<Rightarrow> bool" where
  "admissible a f \<longleftrightarrow> ar_state a = AttemptState_claimed \<or>
     ar_state a = AttemptState_committed \<and>
     (\<exists>e. st_ok (fst (validate_target_locked e f)) \<and> ar_selected a = pe_path e)"

text \<open>A target is validated against the authority vector, the obligations and the path fences.\<close>

definition same_target_view :: "Fabric \<Rightarrow> Fabric \<Rightarrow> bool" where
  "same_target_view f g \<longleftrightarrow>
     ds_authority (fb_state g) = ds_authority (fb_state f) \<and>
     ds_obligations (fb_state g) = ds_obligations (fb_state f) \<and>
     ds_has_obligations (fb_state g) = ds_has_obligations (fb_state f) \<and>
     fb_path_fences g = fb_path_fences f"

lemma validate_target_view:
  assumes "same_target_view f g"
  shows "validate_target_locked e g = validate_target_locked e f"
  using assms unfolding validate_target_locked_def same_target_view_def by (simp only:)

lemma admissible_view:
  assumes "admissible a f" "same_target_view f g"
  shows "admissible a g"
  using assms(1) unfolding admissible_def validate_target_view [OF assms(2)] .

lemma claim_step:
  assumes "ds_attempt_sequence (fb_state f) \<noteq> - 1" "admissible a f"
    and "ar_id a = ds_attempt_sequence (fb_state f) + 1"
    and "fb_active_attempt f = absent" "makes_room m f"
    and "length (map_assign (ar_id a) a m) \<le>
      max (length (fb_attempts f)) (unat (fo_max_retained_attempts (fb_options f)))"
  shows "steps f ((with_attempt_id (ar_id a) f)\<lparr>fb_attempts := map_assign (ar_id a) a m\<rparr>)"
proof -
  have "max (ds_attempt_sequence (fb_state f)) (ar_id a) = ar_id a"
    unfolding assms(3) by (rule max_absorb2) (use word_succ_gt [OF assms(1)] in simp)
  then have "(with_attempt_id (ar_id a) f)\<lparr>fb_attempts := map_assign (ar_id a) a m\<rparr> =
      with_state (\<lambda>s. s\<lparr>ds_attempt_sequence := ar_id a\<rparr>) (f\<lparr>fb_attempts := map_assign (ar_id a) a m\<rparr>)"
    by (cases f) (simp add: with_attempt_id_def with_state_def)
  then show ?thesis
    using steps_micro [OF claim [OF assms(1,3) _ assms(4-6)]] assms(2)
    unfolding admissible_def by auto
qed

lemma persist_claim:
  assumes "keyed f" "ds_attempt_sequence (fb_state f) \<noteq> - 1" "admissible a f"
    and "ar_id a = ds_attempt_sequence (fb_state f) + 1" "fb_active_attempt f = absent"
  shows "steps f (snd (persist_attempt_locked a w f)) \<and>
    (st_ok (fst (persist_attempt_locked a w f)) \<longrightarrow>
      map_of (fb_attempts (snd (persist_attempt_locked a w f))) (ar_id a) = Some a \<and>
      (\<exists>m. calm (f\<lparr>fb_attempts := m\<rparr>) (snd (persist_attempt_locked a w f))))"
proof (rule persist_attempt_cases [of a w f])
  fix g assume g: "calm f g" "ds_attempt_sequence (fb_state g) = ds_attempt_sequence (fb_state f)"
    "persist_attempt_locked a w f = retain_attempt_locked a (with_attempt_id (ar_id a) g)"
  let ?G = "with_attempt_id (ar_id a) g" and ?m = "fb_attempts g"
  let ?cap = "unat (fo_max_retained_attempts (fb_options g))"
  have same: "fb_attempts ?G = ?m" "fb_options ?G = fb_options g"
    by (simp_all add: with_attempt_id_def with_state_def)
  have ord: "ordered ?m" using keyedD(1) [OF assms(1)] g(1) by (simp add: calm_defs)
  have adm: "admissible a g"
    by (rule admissible_view [OF assms(3)]) (use g(1) in \<open>simp add: same_target_view_def calm_defs\<close>)
  have claimed: "steps f (?G\<lparr>fb_attempts := map_assign (ar_id a) a m\<rparr>)"
    if "makes_room m g" "length (map_assign (ar_id a) a m) \<le> max (length ?m) ?cap" for m
    using steps_trans [OF calm_steps [OF g(1)] claim_step [OF _ adm _ _ that]] assms(2,4,5) g(1,2)
    by (simp add: calm_def)
  have frame: "calm (f\<lparr>fb_attempts := m\<rparr>) (?G\<lparr>fb_attempts := m\<rparr>)" for m
    using g(1) calm_with_attempt_id [of g "ar_id a"] by (auto simp: calm_defs)
  consider (room) "map_of ?m (ar_id a) \<noteq> None \<or> length ?m < ?cap"
    | (full) "map_of ?m (ar_id a) = None" "length ?m \<ge> ?cap"
    using linorder_not_le by blast
  then show ?thesis
  proof cases
    case room
    then have "steps f (?G\<lparr>fb_attempts := map_assign (ar_id a) a ?m\<rparr>)"
      by (intro claimed) (auto simp: makes_room_def length_assign [OF ord])
    moreover have "retain_attempt_locked a ?G =
        (ok_status, ?G\<lparr>fb_attempts := map_assign (ar_id a) a ?m\<rparr>)"
      using room by (auto simp: retain_attempt_locked_def same store_attempt_def map_emplace_def
          split: option.splits)
    ultimately show ?thesis using frame g(3) by auto
  next
    case full
    show ?thesis
    proof (cases "List.find (\<lambda>e. is_terminal_state (ar_state (snd e))) ?m")
      case None
      then have "retain_attempt_locked a ?G =
          (Status Code_table_full Reason_table_full ''attempt table full'', ?G)"
        using full by (simp add: retain_attempt_locked_def same)
      then show ?thesis
        using calm_steps [OF calm_trans [OF g(1) calm_with_attempt_id]] g(3) by simp
    next
      case (Some e)
      let ?rest = "map_erase (fst e) ?m"
      define h where "h = ?G\<lparr>fb_attempts := map_assign (ar_id a) a ?rest\<rparr>"
      define k where "k = tally fs_attempts_dropped_update
        (with_state (\<lambda>s. s\<lparr>ds_attempts_dropped := ds_attempts_dropped s + 1\<rparr>) h)"
      have e: "map_of ?m (fst e) = Some (snd e)" "is_terminal_state (ar_state (snd e))"
        using find_Some_mem [OF Some] smap.entry_find [OF ord, of "fst e" "snd e"] by auto
      have "length (map_assign (ar_id a) a ?rest) \<le> length ?m"
        using length_assign [OF ordered_erase [OF ord]] length_erase_present [OF e(1)] by simp
      then have "steps f h"
        unfolding h_def using e by (intro claimed) (auto simp: makes_room_def)
      moreover have hk: "calm h k" by (simp add: k_def calm_defs tally_def with_state_def)
      ultimately have "steps f k" using calm_steps steps_trans by meson
      moreover have "retain_attempt_locked a ?G = (ok_status, k)"
        using full Some by (simp add: retain_attempt_locked_def same map_emplace_def k_def h_def)
      moreover have "map_of (fb_attempts k) (ar_id a) = Some a"
        by (simp add: k_def h_def tally_def with_state_def)
      moreover have "calm (f\<lparr>fb_attempts := fb_attempts h\<rparr>) k"
        using calm_trans [OF frame, of "fb_attempts h" k] hk by (simp add: h_def)
      ultimately show ?thesis using g(3) by auto
    qed
  qed
qed (auto intro: calm_steps)

end
