(* ===== verification/PFF_Operations.thy ===== *)
theory PFF_Operations
  imports PFF_Machine
begin

text \<open>
  Every operation of the coordinator is a sequence of the elementary changes of \<open>PFF_Machine\<close>,
  whatever the store answers. \<open>Call\<close> lists the operations, \<open>perform\<close> runs one and \<open>reachable\<close>
  closes a start state under them.
\<close>

section \<open>Ingest\<close>

lemma steps_compact: "steps f (snd (compact_if_needed_locked f))"
  by (rule calm_steps [OF calm_compact])

lemma steps_append: "steps f (snd (append_locked t p f))"
  by (rule calm_steps [OF calm_append])

lemma steps_tally: "steps f (tally u f)"
  by (rule calm_steps [OF calm_tally])

lemma steps_fence_attempts: "keyed f \<Longrightarrow> ends st \<Longrightarrow> steps f (snd (fence_attempts_locked reason st f))"
  using fence_attempts_steps by blast

lemma ends_simps [simp]: "ends AttemptState_fenced" "ends AttemptState_interrupted"
  "ends AttemptState_abandoned" "ends AttemptState_rolled_back" "ends AttemptState_refused"
  by (simp_all add: ends_def)

text \<open>An authority record is appended, applied, and everything in flight is fenced.\<close>

lemma steps_authority_change:
  assumes "keyed f" "\<And>g. calm f g \<Longrightarrow> micro g (h g)"
  shows "steps f (snd (then_do (append_locked t p f) (\<lambda>f.
    then_do (fence_attempts_locked reason AttemptState_fenced (h f)) compact_if_needed_locked)))"
proof (intro steps_then_do steps_append steps_compact)
  let ?g = "snd (append_locked t p f)"
  have h: "steps ?g (h ?g)" by (rule steps_micro [OF assms(2) [OF calm_append]])
  have "keyed (h ?g)" using steps_keyed [OF steps_trans [OF steps_append h] assms(1)] .
  then show "steps ?g (snd (fence_attempts_locked reason AttemptState_fenced (h ?g)))"
    using steps_trans [OF h steps_fence_attempts] by simp
qed

lemma steps_apply_policy: "keyed f \<Longrightarrow> steps f (snd (fabric_apply_policy p f))"
  unfolding fabric_apply_policy_def Let_def
  by (auto intro!: steps_authority_change micro.policy simp: calm_defs not_less order_less_le)

lemma steps_apply_obligations: "keyed f \<Longrightarrow> steps f (snd (fabric_apply_obligations ob f))"
  unfolding fabric_apply_obligations_def Let_def
  by (auto intro!: steps_authority_change micro.obligations simp: calm_defs not_less order_less_le)

lemma steps_set_authority:
  assumes "keyed f"
  shows "steps f (snd (fabric_set_authority a f))"
proof -
  let ?h = "with_state (\<lambda>s. s\<lparr>ds_authority := (ds_authority s)\<lparr>av_topology := av_topology a,
    av_path_authority := av_path_authority a\<rparr>\<rparr>) f"
  let ?k = "then_do (append_locked RecordType_epoch_advance (epoch_payload (fb_state ?h)) ?h) (\<lambda>f.
    then_do (fence_attempts_locked Reason_authority_fenced AttemptState_fenced f)
      compact_if_needed_locked)"
  let ?held = "ds_authority (fb_state f)"
  have run: "steps ?h (snd ?k)" if "steps f ?h"
    using steps_keyed [OF steps_append] steps_keyed [OF that assms]
    by (intro steps_then_do steps_append steps_compact steps_fence_attempts) auto
  show ?thesis
  proof (cases "av_topology a < av_topology ?held \<or> av_path_authority a < av_path_authority ?held")
    case False
    then have "steps f ?h" by (intro steps_micro micro.topology) auto
    then show ?thesis
      using steps_trans [OF _ run] unfolding fabric_set_authority_def Let_def by simp
  qed (simp add: fabric_set_authority_def)
qed

lemma steps_put_set:
  assumes "st_ok (validate_set st)" "case map_of (fb_sets f) (as_id st) of
       Some old \<Rightarrow> as_generation old < as_generation st
     | None \<Rightarrow> length (fb_sets f) < max_alternate_sets"
  shows "steps f (snd (put_set_locked st f))"
proof -
  let ?a = "append_locked RecordType_alternate_set_put (encode_set_record st) f"
  have sets: "fb_sets (snd ?a) = fb_sets f" using calm_append by (simp add: calm_def)
  note put = micro.put_set [OF assms(1), of "snd ?a", unfolded sets, OF assms(2)]
  have "steps (snd ?a) (snd (compact_if_needed_locked (with_state (\<lambda>s. s\<lparr>ds_sets := l s\<rparr>)
      ((snd ?a)\<lparr>fb_sets := map_assign (as_id st) st (fb_sets (snd ?a))\<rparr>))))" for l
    using steps_trans [OF steps_micro [OF put] steps_compact] by (simp add: with_state_def sets)
  then show ?thesis
    unfolding put_set_locked_def Let_def by (simp add: steps_then_do [OF steps_append])
qed

lemma steps_apply_alternate_set: "steps f (snd (fabric_apply_alternate_set st f))"
  unfolding fabric_apply_alternate_set_def Let_def
  by (auto intro!: steps_put_set split: option.split)

lemma steps_apply_evidence: "steps f (snd (fabric_apply_evidence e f))"
  unfolding fabric_apply_evidence_def Let_def
  by (auto intro: steps_tally steps_trans [OF steps_micro [OF observe] steps_tally]
      split: option.split)

text \<open>A path fence is recorded and takes effect in one step.\<close>

lemma steps_record_path_fence:
  assumes "valid path" "st_ok (fst (record_fence_locked absent path reason f))"
  shows "steps f ((snd (record_fence_locked absent path reason f))\<lparr>fb_path_fences :=
    map_emplace path reason (fb_path_fences (snd (record_fence_locked absent path reason f)))\<rparr>)"
proof (rule fence_cases [of absent path reason f])
  fix r g assume g: "calm f g" "length (ds_fences (fb_state g)) < max_fences" "fr_path r = path"
    "record_fence_locked absent path reason f =
       (ok_status, with_state (\<lambda>s. s\<lparr>ds_fences := ds_fences s @ [r]\<rparr>) g)"
  have "micro g (with_state (\<lambda>s. s\<lparr>ds_fences := ds_fences s @ [r]\<rparr>)
      (g\<lparr>fb_path_fences := map_emplace path reason (fb_path_fences g)\<rparr>))"
    using path_fence [OF g(2), of r reason] assms(1) g(3) by simp
  note step = steps_trans [OF calm_steps [OF g(1)] steps_micro [OF this]]
  have "with_state u (g\<lparr>fb_path_fences := m\<rparr>) = (with_state u g)\<lparr>fb_path_fences := m\<rparr>" for u m
    by (cases g) (simp add: with_state_def)
  moreover have "fb_path_fences (with_state u g) = fb_path_fences g" for u by (simp add: with_state_def)
  ultimately show ?thesis using step g(4) by simp
qed (use assms in simp)

lemma steps_fence_path:
  assumes "keyed f"
  shows "steps f (snd (fabric_fence_path path reason f))"
proof -
  let ?r = "record_fence_locked absent path reason f"
  let ?e = "tally fs_fences_recorded_update ((snd ?r)\<lparr>fb_path_fences :=
    map_emplace path reason (fb_path_fences (snd ?r))\<rparr>)"
  have go: "steps f (snd (then_do (fence_targeting path is ?e) compact_if_needed_locked))"
    if "valid path" "st_ok (fst ?r)" for "is"
  proof (rule steps_then_do)
    have e: "steps f ?e" using steps_trans [OF steps_record_path_fence [OF that] steps_tally] .
    show "steps f (snd (fence_targeting path is ?e))"
      using steps_trans [OF e fence_targeting_steps [OF steps_keyed [OF e assms]]] .
  qed (rule steps_compact)
  show ?thesis
  proof (cases "valid path \<and> map_of (fb_path_fences f) path = None \<and> st_ok (fst ?r)")
    case True
    then show ?thesis using go
      by (simp add: fabric_fence_path_def then_do_def [of ?r] split_beta Let_def)
  next
    case False
    have "steps f (snd ?r)" if "\<not> st_ok (fst ?r)"
      using that by (rule_tac fence_cases [of absent path reason f]) (auto intro: calm_steps)
    then show ?thesis using False
      by (auto simp: fabric_fence_path_def then_do_def split_beta)
  qed
qed

lemma steps_fence_all: "keyed f \<Longrightarrow> steps f (snd (fabric_fence_all reason f))"
  unfolding fabric_fence_all_def by (rule steps_fence_attempts) simp_all

lemma calm_decision: "calm f (with_state (\<lambda>s. s\<lparr>ds_decision_sequence := n s\<rparr>) f)"
  by (simp add: calm_defs with_state_def)

lemma steps_evaluate: "steps f (snd (fabric_evaluate incumbent c s f))"
  unfolding fabric_evaluate_def
  by (auto intro: calm_steps [OF calm_decision] split: sum.split)

section \<open>Promotions\<close>

lemma steps_next_attempt:
  "steps f (with_state (\<lambda>s. s\<lparr>ds_attempt_sequence := ds_attempt_sequence s + 1\<rparr>) f)"
proof (cases "ds_attempt_sequence (fb_state f) = - 1")
  case True
  then show ?thesis using steps_micro [OF wrap [OF True]] by (simp add: with_state_def)
next
  case False
  then have "ds_attempt_sequence (fb_state f) \<le> ds_attempt_sequence (fb_state f) + 1"
    using word_succ_gt [OF False] by simp
  then show ?thesis by (intro calm_steps) (simp add: calm_defs with_state_def)
qed

lemma lineage_keeps:
  "fb_attempts (snd (persist_lineage_locked e f)) = fb_attempts f"
  "fb_active_attempt (snd (persist_lineage_locked e f)) = fb_active_attempt f"
  using calm_append [of f RecordType_lineage_entry "encode_lineage_record e"]
  by (auto simp: persist_lineage_locked_def then_do_def with_state_def calm_defs Let_def
      split: prod.split)

text \<open>An attempt is ended in memory, persisted, entered into the lineage, and \<open>k\<close> follows.\<close>

lemma steps_settle:
  assumes "keyed f" "map_of (fb_attempts f) i = Some b" "ar_id a = ar_id b"
    and "micro f (store_attempt i a f)"
    and k: "\<And>g. map_of (fb_attempts g) i = Some a \<Longrightarrow> fb_active_attempt g = fb_active_attempt f \<Longrightarrow>
      steps g (snd (k g))"
  shows "steps f (snd (then_do (persist_attempt_locked a False (store_attempt i a f)) (\<lambda>f.
    then_do (persist_lineage_locked (e f) f) k)))"
proof (intro steps_then_do steps_lineage k)
  let ?s = "store_attempt i a f"
  let ?p = "snd (persist_attempt_locked a False ?s)"
  have calm: "calm ?s ?p" by (rule store_then_persist(1) [OF assms(1-3)])
  show "steps f ?p" using steps_trans [OF steps_micro [OF assms(4)] calm_steps [OF calm]] .
  show "map_of (fb_attempts (snd (persist_lineage_locked (e ?p) ?p))) i = Some a"
    "fb_active_attempt (snd (persist_lineage_locked (e ?p) ?p)) = fb_active_attempt f"
    using calm by (simp_all add: lineage_keeps calm_defs store_attempt_def)
qed

lemma steps_release:
  assumes "\<not> active_at f i"
  shows "steps f (release i f)"
proof -
  let ?g = "f\<lparr>fb_grants := map_erase i (fb_grants f)\<rparr>"
  have "\<not> active_at ?g i" using assms by (simp add: active_at_def)
  then have "steps ?g (release i f)"
    using steps_micro [OF leave, of ?g] by (auto simp: release_def owner_active_iff)
  then show ?thesis using steps_trans [OF steps_micro [OF ungrant]] by blast
qed

lemma steps_abandon:
  assumes "keyed f"
  shows "steps f (snd (abandon_attempt i reason f))"
proof (cases "map_of (fb_attempts f) i")
  case (Some b)
  show ?thesis
  proof (cases "is_terminal_state (ar_state b)")
    case False
    let ?a = "ended AttemptState_abandoned reason f b"
    have "micro f (store_attempt i ?a f)"
      by (rule finish [OF Some]) (use False in \<open>auto simp: ended_def is_active_state_def\<close>)
    moreover have "steps g (snd (compact_if_needed_locked (release i g)))"
      if "map_of (fb_attempts g) i = Some ?a" for g
      using that by (intro steps_trans [OF steps_release steps_compact])
        (simp add: active_at_def ended_def is_active_state_def)
    ultimately show ?thesis
      using Some False steps_settle [OF assms Some, of ?a]
      by (simp add: abandon_attempt_def find_attempt_locked_def Let_def ended_def)
  qed (simp add: abandon_attempt_def find_attempt_locked_def Some)
qed (simp add: abandon_attempt_def find_attempt_locked_def)

lemma steps_rollback:
  assumes "keyed f"
  shows "steps f (snd (rollback i e f))"
proof (cases "map_of (fb_attempts f) i")
  case (Some b)
  let ?f = "tally fs_revalidations_update f"
  let ?reason = "snd (validate_target_locked e f)"
  let ?a = "ended AttemptState_rolled_back ?reason ?f
    (b\<lparr>ar_revalidations := ar_revalidations b + 1\<rparr>)"
  have known: "map_of (fb_attempts ?f) i = Some b" "keyed ?f"
    using Some steps_keyed [OF steps_tally assms] by (auto simp: tally_def)
  have after: "steps g (snd (compact_if_needed_locked (tally fs_rollbacks_update (release i g))))"
    if "map_of (fb_attempts g) i = Some ?a" for g
    using that by (intro steps_trans [OF steps_release steps_trans [OF steps_tally steps_compact]])
      (simp add: active_at_def ended_def)
  have main: "steps f (snd (then_do (persist_attempt_locked ?a False (store_attempt i ?a ?f)) (\<lambda>f.
      then_do (persist_lineage_locked (l f) f)
        (\<lambda>f. compact_if_needed_locked (tally fs_rollbacks_update (release i f))))))"
    if "\<not> is_terminal_state (ar_state b)" for l
  proof (rule steps_trans [OF steps_tally steps_settle [OF known(2,1)]])
    show "micro ?f (store_attempt i ?a ?f)"
      by (rule finish [OF known(1)]) (use that in \<open>auto simp: ended_def is_active_state_def\<close>)
  qed (use after in \<open>auto simp: ended_def\<close>)
  show ?thesis
    using Some main steps_tally unfolding rollback_def find_attempt_locked_def Let_def
    by (auto simp: split_beta)
qed (simp add: rollback_def find_attempt_locked_def)

lemma effect_accepted:
  assumes "effect_refusal i e b f = None"
  shows "is_active_state (ar_state b)" "fb_active_attempt f = i" "verified_for e b f"
  using assms unfolding effect_refusal_def verified_for_def
  by (auto simp: is_active_state_def not_le split: if_splits option.splits)

lemma steps_record_effect:
  assumes "keyed f"
  shows "steps f (snd (record_effect i e f))"
proof (cases "map_of (fb_attempts f) i")
  case (Some b)
  show ?thesis
  proof (cases "effect_refusal i e b f")
    case None
    let ?a = "ended AttemptState_committed Reason_none f b"
    let ?k = "\<lambda>f. f\<lparr>fb_evidence := map_assign (ee_path e) (verified_evidence e) (fb_evidence f),
      fb_active_attempt := absent, fb_grants := map_erase i (fb_grants f)\<rparr>"
    note accepted = effect_accepted [OF None]
    have "micro f (store_attempt i ?a f)" by (rule micro.commit [OF Some accepted])
    moreover have "steps g (snd (compact_if_needed_locked (tally fs_promotions_committed_update (?k g))))"
      if "map_of (fb_attempts g) i = Some ?a" "fb_active_attempt g = fb_active_attempt f" for g
    proof -
      let ?h = "g\<lparr>fb_evidence := map_assign (ee_path e) (verified_evidence e) (fb_evidence g)\<rparr>"
      have "steps g ?h" by (rule steps_micro [OF observe])
      moreover have "steps ?h (release i ?h)"
        by (rule steps_release) (use that in \<open>simp add: active_at_def ended_def\<close>)
      moreover have "release i ?h = ?k g" using that accepted(2) by (simp add: release_def)
      ultimately have "steps g (?k g)" using steps_trans by simp
      then show ?thesis using steps_trans steps_trans [OF steps_tally steps_compact] by blast
    qed
    ultimately show ?thesis
      using Some None steps_settle [OF assms Some, of ?a]
      by (simp add: record_effect_def find_attempt_locked_def Let_def ended_def)
  next
    case (Some r)
    then show ?thesis using \<open>map_of (fb_attempts f) i = Some b\<close> steps_tally
      by (cases r) (simp add: record_effect_def find_attempt_locked_def)
  qed
qed (simp add: record_effect_def find_attempt_locked_def)

lemma steps_refuse_attempt:
  assumes "map_of (fb_attempts f) (ar_id a) = Some a" "ar_state a = AttemptState_claimed"
  shows "steps f (snd (refuse_attempt a d decision f))"
  unfolding refuse_attempt_def
proof (intro steps_then_return steps_lineage)
  let ?a = "ended AttemptState_refused (pd_reason decision) f a"
  have id: "ar_id ?a = ar_id a" by (simp add: ended_def)
  show "steps f (snd (persist_attempt_locked ?a False f))"
  proof (rule persist_known_cases [of f ?a a False])
    fix g assume g: "calm f g" "persist_attempt_locked ?a False f =
      (ok_status, store_attempt (ar_id ?a) ?a g)"
    have "micro g (store_attempt (ar_id a) ?a g)"
      by (rule finish [of g _ a]) (use g(1) assms in \<open>auto simp: calm_defs ended_def\<close>)
    then show ?thesis
      using steps_trans [OF calm_steps [OF g(1)] steps_micro] g(2) id by simp
  qed (use assms id in \<open>auto intro: calm_steps\<close>)
  fix g show "steps g (snd (compact_if_needed_locked (if is_indeterminate (pd_outcome decision)
      then tally fs_promotions_indeterminate_update g else tally fs_promotions_refused_update g)))"
    using steps_trans [OF steps_tally steps_compact] by simp
qed simp

lemma moves_issue_grant:
  assumes "map_of (fb_attempts f) (ar_id a) = Some a" "ar_state a = AttemptState_claimed"
    "valid (ar_id a)" "fb_active_attempt f = absent"
  shows "moves f (snd (issue_grant a decision f))"
proof -
  let ?a = "a\<lparr>ar_state := AttemptState_authorized\<rparr>" and ?i = "ar_id a"
  let ?p = "persist_attempt_locked ?a False f"
  show ?thesis
  proof (rule persist_known_cases [of f ?a a False])
    fix g assume g: "calm f g" "persist_attempt_locked ?a False f =
      (ok_status, store_attempt (ar_id ?a) ?a g)"
    let ?s = "store_attempt ?i ?a g"
    define r where "r = \<lparr>gr_id = ar_id a, gr_attempt = ar_id a, gr_path = pd_selected decision,
      gr_basis = ds_authority (fb_state ?s), gr_kind = AuthorityKind_grant\<rparr>"
    define h where "h = ?s\<lparr>fb_active_attempt := ?i, fb_grants := map_assign ?i r (fb_grants ?s)\<rparr>"
    have "move g (g\<lparr>fb_attempts := map_assign ?i ?a (fb_attempts g), fb_active_attempt := ?i,
        fb_grants := map_assign ?i r (fb_grants g)\<rparr>)"
      by (rule move.grant) (use g(1) assms in \<open>auto simp: calm_defs\<close>)
    then have "moves f h"
      using rtranclp.rtrancl_into_rtrancl [OF steps_moves [OF calm_steps [OF g(1)]]]
      by (simp add: h_def store_attempt_def)
    then have "moves f (snd (compact_if_needed_locked (tally fs_promotions_authorized_update h)))"
      using moves_trans [OF _ steps_moves [OF steps_trans [OF steps_tally steps_compact]]] by blast
    then show ?thesis
      unfolding issue_grant_def g(2) by (simp add: then_return_def split_beta Let_def flip: r_def h_def)
  qed (use assms in \<open>auto intro: steps_moves [OF calm_steps]
      simp: issue_grant_def then_return_def split_beta\<close>)
qed

lemma moves_then_return:
  "moves f (snd r) \<Longrightarrow> (st_ok (fst r) \<Longrightarrow> moves (snd r) (snd (k (snd r)))) \<Longrightarrow>
   moves f (snd (then_return r k))"
  by (cases r) (auto simp: then_return_def intro: moves_trans)

lemma moves_claim_transition:
  assumes "keyed f" "ds_attempt_sequence (fb_state f) \<noteq> - 1" "fb_active_attempt f = absent"
  shows "moves f (snd (claim_transition incumbent c set_id f))"
proof -
  let ?i = "ds_attempt_sequence (fb_state f) + 1"
  let ?f = "with_state (\<lambda>s. s\<lparr>ds_decision_sequence := ds_decision_sequence s + 1\<rparr>) f"
  let ?n = "with_state (\<lambda>s. s\<lparr>ds_attempt_sequence := ds_attempt_sequence s + 1\<rparr>)"
  have f: "steps f ?f" by (rule calm_steps [OF calm_decision])
  have "moves ?f (snd (then_return (persist_attempt_locked a True ?f) (\<lambda>g.
      if q then refuse_attempt a d decision (?n g) else issue_grant a decision (?n g))))"
    if a: "a = claimed_attempt ?i incumbent set_id decision ?f" for a d decision q
  proof -
    have id: "ar_id a = ?i" "ar_state a = AttemptState_claimed"
      by (simp_all add: a claimed_attempt_def)
    let ?p = "persist_attempt_locked a True ?f"
    have p: "steps ?f (snd ?p) \<and> (st_ok (fst ?p) \<longrightarrow>
        map_of (fb_attempts (snd ?p)) (ar_id a) = Some a \<and>
        (\<exists>m. calm (?f\<lparr>fb_attempts := m\<rparr>) (snd ?p)))"
      by (rule persist_claim [OF steps_keyed [OF f assms(1)]])
        (use assms(2,3) id in \<open>auto simp: with_state_def admissible_def\<close>)
    have "valid (ar_id a)" using assms(2) id by (simp add: valid_def eq_neg_iff_add_eq_0)
    moreover have "map_of (fb_attempts (?n (snd ?p))) (ar_id a) = Some a"
      "fb_active_attempt (?n (snd ?p)) = absent" if "st_ok (fst ?p)"
      using p that assms(3) by (auto simp: with_state_def calm_defs)
    ultimately have "moves (?n (snd ?p)) (snd (if q then refuse_attempt a d decision (?n (snd ?p))
        else issue_grant a decision (?n (snd ?p))))" if "st_ok (fst ?p)"
      using that id(2) by (simp add: steps_moves [OF steps_refuse_attempt] moves_issue_grant)
    note next1 = moves_trans [OF steps_moves [OF steps_next_attempt] this]
    show ?thesis by (rule moves_then_return) (use p next1 in \<open>simp_all add: steps_moves\<close>)
  qed
  note go = moves_trans [OF steps_moves [OF f] this [OF refl]]
  show ?thesis
    using go steps_moves [OF steps_trans [OF f steps_tally]]
    unfolding claim_transition_def Let_def by (simp split: sum.split)
qed

lemma moves_begin_promotion:
  assumes "keyed f"
  shows "moves f (snd (begin_promotion incumbent c set_id f))"
proof (cases "owner_active f")
  case False
  let ?f = "f\<lparr>fb_active_attempt := absent\<rparr>"
  have f: "steps f ?f" by (rule steps_micro [OF leave [OF False]])
  have "moves f (snd (claim_transition incumbent c set_id ?f))"
    if "ds_attempt_sequence (fb_state f) \<noteq> - 1"
    using that
    by (intro moves_trans [OF steps_moves [OF f] moves_claim_transition] steps_keyed [OF f assms]) auto
  then show ?thesis using steps_moves [OF f] False
    unfolding begin_promotion_def Let_def by (simp add: UINT64_MAX_def)
qed (simp add: begin_promotion_def steps_moves [OF steps_tally])

lemma steps_revert:
  assumes "keyed f"
  shows "steps f (snd (revert i target f))"
proof (cases "map_of (fb_attempts f) i")
  case (Some b)
  let ?reason = "snd (validate_target_locked target f)"
  have "steps f (snd (apply_reversion b target ?reason f))"
    if "ds_attempt_sequence (fb_state f) \<noteq> - 1" "st_ok (fst (validate_target_locked target f))"
      "\<not> valid (fb_active_attempt f)"
  proof -
    let ?f = "tally fs_revalidations_update f" and ?i = "ds_attempt_sequence (fb_state f) + 1"
    let ?a = "reverting_attempt ?i b target ?reason ?f"
    have "admissible ?a f"
      using that(2) by (auto simp: admissible_def reverting_attempt_def)
    then have "admissible ?a ?f"
      by (rule admissible_view) (simp add: same_target_view_def tally_def)
    then have p: "steps ?f (snd (persist_attempt_locked ?a True ?f))"
      using persist_claim [OF steps_keyed [OF steps_tally assms], of _ ?a] that(1,3)
      by (simp add: tally_def reverting_attempt_def valid_def absent_def)
    have next1: "steps g (with_state (\<lambda>s. s\<lparr>ds_attempt_sequence := ds_attempt_sequence s + 1,
        ds_decision_sequence := ds_decision_sequence s + 1\<rparr>) g)" for g
      using steps_trans [OF steps_next_attempt calm_steps [OF calm_decision]]
      by (simp add: with_state_def)
    have last: "steps g (snd (then_return (persist_lineage_locked e g) (\<lambda>g.
        then_return (compact_if_needed_locked (tally fs_reversions_update g)) (\<lambda>g. (Inr d, g)))))"
      for e g and d :: PromotionDecision
      by (intro steps_then_return steps_lineage steps_trans [OF steps_tally steps_compact]) simp
    show ?thesis
      unfolding apply_reversion_def Let_def
      by (rule steps_trans [OF steps_tally], rule steps_then_return, rule p,
          rule steps_trans [OF next1 last])
  qed
  then show ?thesis using Some
    unfolding revert_def by (auto simp: split_beta UINT64_MAX_def)
qed (simp add: revert_def)

section \<open>Executions\<close>

text \<open>
  The operations that change the coordinator. Queries return a part of the state and change
  nothing.
\<close>

datatype Call =
    Apply_policy FailoverPolicy
  | Apply_obligations ServiceObligations
  | Apply_alternate_set AlternateSet
  | Apply_evidence PathEvidence
  | Set_authority AuthorityVector
  | Fence_path PathId Reason
  | Fence_all Reason
  | Evaluate PathId IncumbentCondition AlternateSetId
  | Begin_promotion PathId IncumbentCondition AlternateSetId
  | Record_effect AttemptId EffectEvidence
  | Abandon_attempt AttemptId Reason
  | Rollback AttemptId PathEvidence
  | Revert AttemptId PathEvidence

fun perform :: "Call \<Rightarrow> Fabric \<Rightarrow> Fabric" where
  "perform (Apply_policy p) f = snd (fabric_apply_policy p f)"
| "perform (Apply_obligations ob) f = snd (fabric_apply_obligations ob f)"
| "perform (Apply_alternate_set st) f = snd (fabric_apply_alternate_set st f)"
| "perform (Apply_evidence e) f = snd (fabric_apply_evidence e f)"
| "perform (Set_authority a) f = snd (fabric_set_authority a f)"
| "perform (Fence_path path reason) f = snd (fabric_fence_path path reason f)"
| "perform (Fence_all reason) f = snd (fabric_fence_all reason f)"
| "perform (Evaluate incumbent condition set_id) f =
     snd (fabric_evaluate incumbent condition set_id f)"
| "perform (Begin_promotion incumbent condition set_id) f =
     snd (begin_promotion incumbent condition set_id f)"
| "perform (Record_effect i effect) f = snd (record_effect i effect f)"
| "perform (Abandon_attempt i reason) f = snd (abandon_attempt i reason f)"
| "perform (Rollback i e) f = snd (rollback i e f)"
| "perform (Revert i target) f = snd (revert i target f)"

definition run :: "Call list \<Rightarrow> Fabric \<Rightarrow> Fabric" where
  "run calls f = fold perform calls f"

lemma run_simps [simp]: "run [] f = f" "run (c # cs) f = run cs (perform c f)"
  "run (cs @ ds) f = run ds (run cs f)"
  by (simp_all add: run_def)

text \<open>The operations that cannot take ownership of the transition.\<close>

fun begins :: "Call \<Rightarrow> bool" where
  "begins (Begin_promotion _ _ _) \<longleftrightarrow> True"
| "begins _ \<longleftrightarrow> False"

lemma perform_steps: "keyed f \<Longrightarrow> \<not> begins c \<Longrightarrow> steps f (perform c f)"
  by (cases c) (simp_all add: steps_apply_policy steps_apply_obligations steps_apply_alternate_set
      steps_apply_evidence steps_set_authority steps_fence_path steps_fence_all steps_evaluate
      steps_record_effect steps_abandon steps_rollback steps_revert)

lemma perform_moves: "keyed f \<Longrightarrow> moves f (perform c f)"
proof (cases "begins c")
  case True
  then show "keyed f \<Longrightarrow> moves f (perform c f)" by (cases c) (auto intro: moves_begin_promotion)
qed (simp add: steps_moves [OF perform_steps])

lemma perform_keyed: "keyed f \<Longrightarrow> keyed (perform c f)"
  using moves_keyed perform_moves by blast

lemma run_moves: "keyed f \<Longrightarrow> moves f (run cs f)"
  by (induction cs arbitrary: f) (auto intro: moves_trans perform_moves perform_keyed)

lemma run_keyed: "keyed f \<Longrightarrow> keyed (run cs f)"
  using moves_keyed run_moves by blast

end
