(* ===== verification/PFF_Start.thy ===== *)
theory PFF_Start
  imports PFF_Operations
begin

text \<open>
  The start of the coordinator: what \<open>Fabric::open\<close> makes of the recovered state, and the states
  an opened coordinator can reach.
\<close>

section \<open>The recovered tables\<close>

lemma ordered_fold_emplace:
  "ordered m \<Longrightarrow> ordered (foldl (\<lambda>m x. map_emplace (key x) (val x) m) m xs)"
  by (induction xs arbitrary: m) (simp_all add: ordered_emplace)

lemma find_emplace:
  "map_of (map_emplace k v m) j = (if j = k \<and> map_of m k = None then Some v else map_of m j)"
  by (auto simp: map_emplace_def split: option.split)

lemma keyed_fold_emplace:
  assumes "\<forall>i v. map_of m i = Some v \<longrightarrow> key v = i"
  shows "map_of (foldl (\<lambda>m x. map_emplace (key x) x m) m xs) i = Some v \<Longrightarrow> key v = i"
  using assms by (induction xs arbitrary: m) (auto simp: find_emplace split: if_splits)

lemma fold_emplace_mem:
  "map_of (foldl (\<lambda>m x. map_emplace (key x) x m) m xs) i = Some v \<Longrightarrow>
   map_of m i = Some v \<or> v \<in> set xs"
  by (induction xs arbitrary: m) (fastforce simp: find_emplace split: if_splits)+

lemma length_emplace: "ordered m \<Longrightarrow> length (map_emplace k v m) \<le> Suc (length m)"
  by (simp add: map_emplace_def length_assign split: option.split)

lemma length_fold_emplace:
  "ordered m \<Longrightarrow>
   length (foldl (\<lambda>m x. map_emplace (key x) (val x) m) m xs) \<le> length m + length xs"
proof (induction xs arbitrary: m)
  case (Cons x xs)
  show ?case
    using Cons.IH [OF ordered_emplace [OF Cons.prems], of "key x" "val x"]
      length_emplace [OF Cons.prems, of "key x" "val x"] by simp
qed simp

lemma ordered_Nil [simp]: "ordered []"
  by (simp add: ordered_def)

lemma keyed_loaded: "keyed (loaded_fabric options store state)"
proof -
  have "ordered (fb_attempts (loaded_fabric options store state))"
    unfolding loaded_fabric_def by (simp add: ordered_fold_emplace)
  moreover have "ar_id a = i" if "map_of (fb_attempts (loaded_fabric options store state)) i = Some a"
    for i a
    using that keyed_fold_emplace [of "[]" "ar_id :: AttemptRecord \<Rightarrow> _" "ds_attempts state" i a]
    unfolding loaded_fabric_def by simp
  ultimately show ?thesis unfolding keyed_def by blast
qed

lemma keyed_advance_epoch: "keyed (advance_epoch info f) \<longleftrightarrow> keyed f"
  by (simp add: keyed_def advance_epoch_def Let_def)

section \<open>Restart\<close>

text \<open>Everything in flight is ended; ownership and grants are dropped.\<close>

definition settled :: "Fabric \<Rightarrow> Fabric" where
  "settled f = sync_attempts_locked (f\<lparr>fb_active_attempt := absent, fb_grants := []\<rparr>)"

lemma restart_cases:
  assumes "restart info f = (status, g)" "st_ok status" "keyed f"
  obtains h where "steps (advance_epoch info f) h" "same_but_attempts (advance_epoch info f) h"
    "\<forall>j. \<not> active_at h j" "calm (settled h) g" "keyed h"
    "av_epoch (ds_authority (fb_state f)) \<noteq> - 1"
    "\<forall>j b. map_of (fb_attempts f) j = Some b \<longrightarrow> is_terminal_state (ar_state b) \<longrightarrow>
       map_of (fb_attempts h) j = Some b"
    "\<forall>j. active_at f j \<longrightarrow> ended_at Reason_restart_fenced AttemptState_interrupted h j"
proof -
  let ?e = "advance_epoch info f"
  let ?a = "append_locked RecordType_epoch_advance (epoch_payload (fb_state ?e)) ?e"
  let ?i = "active_ids (snd ?a)"
  let ?r = "fence_each Reason_restart_fenced AttemptState_interrupted ?i (snd ?a)"
  have e: "keyed ?e" using assms(3) by (simp add: keyed_advance_epoch)
  have a: "keyed (snd ?a)" using steps_keyed [OF steps_append e] .
  have act: "\<forall>i \<in> set ?i. active_at (snd ?a) i" using active_ids_iff [OF a] by blast
  note r = fence_each_steps [OF a distinct_active_ids [OF a] act ends_simps(2),
      of Reason_restart_fenced]
  have epoch: "av_epoch (ds_authority (fb_state f)) \<noteq> - 1"
    using assms(1,2) by (auto simp: restart_def UINT64_MAX_def)
  have ok: "st_ok (fst ?a)" "st_ok (fst ?r)" "compact_if_needed_locked (settled (snd ?r)) = (status, g)"
    using assms(1,2) epoch
    by (auto simp: restart_def UINT64_MAX_def Let_def settled_def dest!: then_do_ok)
  have "steps ?e (snd ?r)" using steps_trans [OF steps_append] r by blast
  moreover have "same_but_attempts ?e (snd ?r)"
    using same_but_attempts_trans [OF same_but_attempts_intros(1) [OF calm_append]] r by blast
  moreover have ended: "ended_at Reason_restart_fenced AttemptState_interrupted (snd ?r) j"
    if "active_at (snd ?a) j" for j using r ok(2) that active_ids_iff [OF a] by blast
  moreover have "active_at (snd ?a) j = active_at f j" for j
    using calm_append [of ?e] by (simp add: active_at_def calm_def advance_epoch_def Let_def)
  moreover have "\<not> active_at (snd ?r) j" for j
  proof (cases "j \<in> set ?i")
    case True
    then show ?thesis using ended ended_not_active active_ids_iff [OF a] ends_simps(2) by blast
  next
    case False
    then show ?thesis using r active_ids_iff [OF a] by (simp add: active_at_def)
  qed
  moreover have "calm (settled (snd ?r)) g" using calm_compact [of "settled (snd ?r)"] ok(3) by simp
  moreover have "map_of (fb_attempts (snd ?r)) j = Some b"
    if "map_of (fb_attempts f) j = Some b" "is_terminal_state (ar_state b)" for j b
  proof -
    have "fb_attempts (snd ?a) = fb_attempts f"
      using calm_append [of ?e] by (simp add: calm_def advance_epoch_def Let_def)
    then have "map_of (fb_attempts (snd ?a)) j = Some b" "j \<notin> set ?i"
      using that active_ids_iff [OF a, of j] by (auto simp: active_at_def is_active_state_def)
    then show ?thesis using r by metis
  qed
  ultimately show thesis
    using that steps_keyed [OF _ e] epoch by blast
qed

lemma open_cases:
  assumes "fabric_open options opened info = Inr f"
  obtains store store1 state status where
    "opened = Inr store" "load store = Inr (state, store1)"
    "restart info (loaded_fabric options store1 state) = (status, f)" "st_ok status"
    "unat (fo_max_retained_attempts options) \<le> max_attempts" "fo_max_retained_attempts options \<noteq> 0"
  using assms unfolding fabric_open_def
  by (auto split: if_splits sum.splits prod.splits)

section \<open>Reachable states\<close>

text \<open>
  \<open>opened\<close> is any store, so a crash and a new start from whatever the files then hold is again an
  opened coordinator.
\<close>

inductive reachable :: "Fabric \<Rightarrow> bool" where
  started: "fabric_open options opened info = Inr f \<Longrightarrow> reachable f"
| called: "reachable f \<Longrightarrow> reachable (perform c f)"

lemma opened_keyed:
  assumes "fabric_open options opened info = Inr f"
  shows "keyed f"
  using assms
proof (cases rule: open_cases)
  case (1 store store1 state status)
  show ?thesis
  proof (rule restart_cases [OF 1(3,4) keyed_loaded])
    fix h assume "keyed h" "calm (settled h) f"
    then show "keyed f"
      by (auto simp: keyed_def settled_def calm_def sync_attempts_locked_def with_state_def)
  qed
qed

lemma reachable_keyed: "reachable f \<Longrightarrow> keyed f"
  by (induction rule: reachable.induct) (auto intro: opened_keyed perform_keyed)

lemma reachable_run: "reachable f \<Longrightarrow> reachable (run cs f)"
  by (induction cs arbitrary: f) (auto intro: called)

section \<open>A first start\<close>

text \<open>A store that accepts \<open>n\<close> more records.\<close>

definition ready :: "nat \<Rightarrow> Store \<Rightarrow> bool" where
  "ready n s \<longleftrightarrow> sr_journal_open s \<and> \<not> sr_closed s \<and> \<not> sr_inspection_only s \<and>
     sr_append_io s = [] \<and>
     sr_journal_bytes s + n * (max_record_payload + 28) \<le> max_journal_bytes \<and>
     unat (sr_last_sequence s) + n < 2 ^ 64"

lemma ready_append:
  assumes "ready (Suc n) s" "length p \<le> max_record_payload"
  shows "fst (append_record t p s) = ok_status" "ready n (snd (append_record t p s))"
    "sr_journal_bytes (snd (append_record t p s)) = sr_journal_bytes s + (28 + length p)"
proof -
  let ?q = "sr_last_sequence s + 1"
  have "unat (sr_last_sequence s) \<noteq> unat (- 1 :: u64)"
    using assms(1) by (simp add: ready_def unsigned_minus_1_eq_mask mask_eq_exp_minus_1)
  then have seq1: "sr_last_sequence s \<noteq> - 1" by auto
  note seq = seq1 unat_plus1_64 [OF seq1]
  then have "frameable ?q p" using assms(2) by (simp add: frameable_def eq_neg_iff_add_eq_0)
  then have "append_record t p s = (ok_status, s\<lparr>sr_append_io := tl (sr_append_io s),
      sr_journal := Some ((case sr_journal s of None \<Rightarrow> [] | Some b \<Rightarrow> b) @ frame t ?q p),
      sr_journal_bytes := sr_journal_bytes s + length (frame t ?q p), sr_last_sequence := ?q\<rparr>)"
    using assms seq(1)
    by (simp add: append_record_def write_frame_def next_append_io_def encode_journal_record_eq
        UINT64_MAX_def journal_header_bytes_def journal_trailer_bytes_def ready_def Let_def)
  then show "fst (append_record t p s) = ok_status" "ready n (snd (append_record t p s))"
    "sr_journal_bytes (snd (append_record t p s)) = sr_journal_bytes s + (28 + length p)"
    using assms seq(2) by (simp_all add: ready_def)
qed

lemma ready_append_locked:
  assumes "ready (Suc n) (fb_store f)" "length p \<le> max_record_payload"
  shows "fst (append_locked t p f) = ok_status" "ready n (fb_store (snd (append_locked t p f)))"
    "sr_journal_bytes (fb_store (snd (append_locked t p f))) =
       sr_journal_bytes (fb_store f) + (28 + length p)"
  using ready_append [OF assms, of t]
  by (simp_all add: append_locked_def split_beta Let_def tally_def with_state_def)

text \<open>An empty directory, and a start on it.\<close>

definition first_process :: ProcessInfo where
  "first_process = \<lparr>pi_boot = 1, pi_incarnation = 1, pi_process_id = 1, pi_unix_micros = 1\<rparr>"

definition first_fabric :: Fabric where
  "first_fabric = settled (snd (append_locked RecordType_epoch_advance
     (epoch_payload (fb_state (advance_epoch first_process
        (loaded_fabric default_fabric_options (fresh_store [] []) empty_state))))
     (advance_epoch first_process
        (loaded_fabric default_fabric_options (fresh_store [] []) empty_state))))"

lemma first_load: "load (fresh_store [] []) = Inr (empty_state, fresh_store [] [])"
  by (simp add: load_def load_snapshot_def replay_journal_def fresh_store_def empty_report_def
      empty_state_def)

lemma first_start:
  "fabric_open default_fabric_options (Inr (fresh_store [] [])) first_process = Inr first_fabric"
proof -
  let ?l = "loaded_fabric default_fabric_options (fresh_store [] []) empty_state"
  let ?e = "advance_epoch first_process ?l"
  let ?a = "append_locked RecordType_epoch_advance (epoch_payload (fb_state ?e)) ?e"
  have ready: "ready 1 (fb_store ?e)"
    by (simp add: ready_def fresh_store_def loaded_fabric_def advance_epoch_def Let_def
        max_record_payload_def max_journal_bytes_def)
  have len: "length (epoch_payload s) \<le> max_record_payload" for s
    using payload_lengths by (simp add: epoch_payload_def max_record_payload_def)
  have a: "fst ?a = ok_status" using ready_append_locked(1) [OF _ len] ready by simp
  have none: "fb_attempts (snd ?a) = []"
    using calm_append [of ?e] by (simp add: calm_def loaded_fabric_def advance_epoch_def Let_def
        empty_state_def)
  have "sr_journal_bytes (fb_store ?e) = 0"
    by (simp add: fresh_store_def loaded_fabric_def advance_epoch_def Let_def)
  moreover have "length (epoch_payload s) = 80" for s
    using payload_lengths(2) by (simp add: epoch_payload_def)
  ultimately have "sr_journal_bytes (fb_store (snd ?a)) = 108"
    using ready_append_locked(3) [OF ready [unfolded One_nat_def] len] by simp
  then have small: "compact_if_needed_locked (settled (snd ?a)) = (ok_status, settled (snd ?a))"
    using calm_append [of ?e RecordType_epoch_advance "epoch_payload (fb_state ?e)"]
    by (simp add: compact_if_needed_locked_def settled_def sync_attempts_locked_def with_state_def
        calm_def loaded_fabric_def advance_epoch_def Let_def default_fabric_options_def
        max_journal_bytes_def)
  have "av_epoch (ds_authority (fb_state ?l)) \<noteq> UINT64_MAX"
    by (simp add: loaded_fabric_def empty_state_def av_absent_def absent_def UINT64_MAX_def)
  then have "restart first_process ?l = (ok_status, first_fabric)"
    using a none small
    by (simp add: restart_def then_do_def split_beta Let_def active_ids_def first_fabric_def
        settled_def)
  then show ?thesis
    by (simp add: first_load fabric_open_def default_fabric_options_def max_attempts_def)
qed

lemma first_reachable: "reachable (run cs first_fabric)"
  by (rule reachable_run [OF started [OF first_start]])

end
