(* ===== verification/PFF_Invariants.thy ===== *)
theory PFF_Invariants
  imports PFF_Start "HOL-Library.Sublist"
begin

text \<open>
  Invariants and monotone orders of the coordinator, by rule induction on its elementary changes.
  A locale carries each of them from one change to every execution; its interpretations discharge
  the changes.
\<close>

section \<open>From one change to every execution\<close>

locale fabric_invariant =
  fixes inv :: "Fabric \<Rightarrow> bool"
  assumes kept: "move f g \<Longrightarrow> keyed f \<Longrightarrow> inv f \<Longrightarrow> inv g"
begin

lemma moved: "moves f g \<Longrightarrow> keyed f \<Longrightarrow> inv f \<Longrightarrow> inv g"
proof (induction rule: rtranclp_induct)
  case (step g h)
  then show ?case using kept moves_keyed by blast
qed

lemma performed: "keyed f \<Longrightarrow> inv f \<Longrightarrow> inv (perform c f)"
  by (rule moved [OF perform_moves])

lemma ran: "keyed f \<Longrightarrow> inv f \<Longrightarrow> inv (run cs f)"
  by (rule moved [OF run_moves])

end

text \<open>The invariant also holds for a coordinator that was just opened.\<close>

locale opened_invariant = fabric_invariant +
  assumes opened: "fabric_open options store info = Inr f \<Longrightarrow> inv f"
begin

lemma always: "reachable f \<Longrightarrow> inv f"
  by (induction rule: reachable.induct) (auto intro: opened performed reachable_keyed)

end

text \<open>A relation between the states before and after.\<close>

locale fabric_order =
  fixes before :: "Fabric \<Rightarrow> Fabric \<Rightarrow> bool"
  assumes same: "before f f"
    and chain: "before f g \<Longrightarrow> before g h \<Longrightarrow> before f h"
    and change: "move f g \<Longrightarrow> keyed f \<Longrightarrow> before f g"
begin

lemma since: "keyed f \<Longrightarrow> before f (run cs f)"
proof -
  have "before f g" if "moves f g" "keyed f" for g
    using that
  proof (induction rule: rtranclp_induct)
    case (step g h)
    then show ?case using chain change moves_keyed by blast
  qed (rule same)
  then show "keyed f \<Longrightarrow> before f (run cs f)" using run_moves by blast
qed

end

text \<open>The first state of an execution bounds every later one.\<close>

sublocale fabric_order \<subseteq> from_start: fabric_invariant "before f" for f
  by unfold_locales (blast intro: chain change)

section \<open>One owner\<close>

text \<open>An attempt that holds a grant is the one that owns the transition.\<close>

definition single_owner :: "Fabric \<Rightarrow> bool" where
  "single_owner f \<longleftrightarrow>
     (\<forall>i a. map_of (fb_attempts f) i = Some a \<longrightarrow> is_grant_state (ar_state a) \<longrightarrow>
        i = fb_active_attempt f \<and> valid i)"

lemma terminal_no_grant: "is_terminal_state s \<Longrightarrow> \<not> is_grant_state s"
  by (cases s) (simp_all add: is_grant_state_def)

lemma grant_states [simp]: "\<not> is_grant_state AttemptState_claimed"
  "\<not> is_grant_state AttemptState_committed"
  by (simp_all add: is_grant_state_def)

lemma makes_room_find: "makes_room m f \<Longrightarrow> map_of m i = Some a \<Longrightarrow> map_of (fb_attempts f) i = Some a"
  by (auto simp: makes_room_def split: if_splits)

lemma micro_single_owner: "micro f g \<Longrightarrow> single_owner f \<Longrightarrow> single_owner g"
proof (induction rule: micro.induct)
  case (claim f a m)
  have "\<not> is_grant_state (ar_state a)" using claim(3) by auto
  then show ?case
    using claim(7) makes_room_find [OF claim(5)]
    by (auto simp: single_owner_def with_state_def split: if_splits)
next
  case (leave f)
  then show ?case
    using grant_active by (fastforce simp: single_owner_def owner_active_def)
next
  case (finish f i b a)
  then show ?case
    by (auto simp: single_owner_def store_attempt_def terminal_no_grant split: if_splits)
qed (auto simp: single_owner_def calm_defs with_state_def store_attempt_def ended_def
      split: if_splits)

lemma move_single_owner: "move f g \<Longrightarrow> single_owner f \<Longrightarrow> single_owner g"
proof (induction rule: move.induct)
  case (grant f i b g)
  then show ?case by (auto simp: single_owner_def valid_def absent_def split: if_splits)
qed (rule micro_single_owner)

lemma settled_at: "calm (settled h) f \<Longrightarrow> fb_attempts f = fb_attempts h"
  "calm (settled h) f \<Longrightarrow> fb_active_attempt f = absent"
  "calm (settled h) f \<Longrightarrow> fb_grants f = []"
  by (simp_all add: settled_def calm_def sync_attempts_locked_def with_state_def)

text \<open>Nothing is in flight after a start.\<close>

lemma opened_idle:
  assumes "fabric_open options opened info = Inr f"
  shows "\<not> active_at f j" "fb_active_attempt f = absent" "fb_grants f = []"
proof -
  obtain h where "\<forall>j. \<not> active_at h j" "calm (settled h) f"
    using assms restart_cases keyed_loaded by (metis open_cases)
  then show "\<not> active_at f j" "fb_active_attempt f = absent" "fb_grants f = []"
    using settled_at by (auto simp: active_at_def)
qed

lemma idle_single_owner: "(\<And>j. \<not> active_at f j) \<Longrightarrow> single_owner f"
  unfolding single_owner_def active_at_def using grant_active by (metis option.simps(5))

interpretation owner: opened_invariant single_owner
  by unfold_locales (erule (1) move_single_owner, rule idle_single_owner, erule opened_idle(1))

section \<open>Bounds\<close>

text \<open>Every table but the evidence is within its limit, and every installed set is valid.\<close>

definition within_bounds :: "Fabric \<Rightarrow> bool" where
  "within_bounds f \<longleftrightarrow>
     length (fb_attempts f) \<le> max_attempts \<and>
     unat (fo_max_retained_attempts (fb_options f)) \<le> max_attempts \<and>
     length (fb_sets f) \<le> max_alternate_sets \<and> ordered (fb_sets f) \<and>
     (\<forall>i st. map_of (fb_sets f) i = Some st \<longrightarrow> as_id st = i \<and> st_ok (validate_set st)) \<and>
     length (ds_fences (fb_state f)) \<le> max_fences \<and>
     length (ds_lineage (fb_state f)) \<le> max_lineage"

lemmas within_bounds_simps = within_bounds_def with_state_def store_attempt_def

lemma micro_within_bounds: "micro f g \<Longrightarrow> keyed f \<Longrightarrow> within_bounds f \<Longrightarrow> within_bounds g"
proof (induction rule: micro.induct)
  case (finish f i b a)
  then show ?case by (simp add: within_bounds_simps length_assign keyedD(1))
next
  case (commit f i b e)
  then show ?case by (simp add: within_bounds_simps length_assign keyedD(1))
next
  case (put_set st f l)
  then show ?case
    by (auto simp: within_bounds_simps length_assign ordered_assign split: option.splits if_splits)
qed (auto simp: within_bounds_simps calm_defs)

lemma move_within_bounds: "move f g \<Longrightarrow> keyed f \<Longrightarrow> within_bounds f \<Longrightarrow> within_bounds g"
proof (induction rule: move.induct)
  case (grant f i b g)
  then show ?case by (simp add: within_bounds_simps length_assign keyedD(1))
qed (rule micro_within_bounds)

lemma loaded_within_bounds:
  assumes "load store = Inr (state, store1)" "unat (fo_max_retained_attempts options) \<le> max_attempts"
  shows "within_bounds (advance_epoch info (loaded_fabric options store1 state))"
proof -
  let ?L = "loaded_fabric options store1 state"
  let ?sets = "foldl (\<lambda>m s. map_emplace (as_id s) s m) [] (ds_sets state)"
  let ?attempts = "foldl (\<lambda>m a. map_emplace (ar_id a) a m) [] (ds_attempts state)"
  have parts: "fb_sets ?L = ?sets" "fb_attempts ?L = ?attempts" "fb_options ?L = options"
    "fb_state ?L = state" by (simp_all add: loaded_fabric_def)
  have b: "bounded_state state" using assms(1) by (rule bounded.loaded)
  then have lens: "length (ds_fences state) \<le> max_fences" "length (ds_lineage state) \<le> max_lineage"
    "length (ds_sets state) \<le> max_alternate_sets" "length (ds_attempts state) \<le> max_attempts"
    by (simp_all add: bounded_state_def)
  have "as_id st = i \<and> st_ok (validate_set st)" if st: "map_of ?sets i = Some st" for i st
  proof -
    have "st \<in> set (ds_sets state)" using fold_emplace_mem [OF st] by simp
    then show ?thesis
      using b keyed_fold_emplace [OF _ st] unfolding bounded_state_def by simp
  qed
  then have all: "\<forall>i st. map_of ?sets i = Some st \<longrightarrow> as_id st = i \<and> st_ok (validate_set st)"
    by blast
  have "length ?sets \<le> max_alternate_sets" "length ?attempts \<le> max_attempts"
    using length_fold_emplace [of "[]" as_id "\<lambda>s. s" "ds_sets state"]
      length_fold_emplace [of "[]" ar_id "\<lambda>a. a" "ds_attempts state"] lens by simp_all
  moreover have "ordered ?sets" by (simp add: ordered_fold_emplace)
  ultimately have "within_bounds ?L"
    unfolding within_bounds_def parts using assms(2) lens(1,2) all by (intro conjI)
  then show ?thesis by (simp add: within_bounds_def advance_epoch_def Let_def)
qed

interpretation tables: opened_invariant within_bounds
proof
  fix f g show "move f g \<Longrightarrow> keyed f \<Longrightarrow> within_bounds f \<Longrightarrow> within_bounds g"
    by (rule move_within_bounds)
next
  fix options store info f assume "fabric_open options store info = Inr f"
  then show "within_bounds f"
  proof (cases rule: open_cases)
    case (1 store store1 state status)
    show ?thesis
    proof (rule restart_cases [OF 1(3,4) keyed_loaded])
      fix h assume h: "steps (advance_epoch info (loaded_fabric options store1 state)) h"
        "calm (settled h) f"
      have "within_bounds h"
        using h(1) keyed_loaded loaded_within_bounds [OF 1(2,5), of info]
      proof (induction rule: rtranclp_induct)
        case (step g h)
        then show ?case
          using micro_within_bounds steps_keyed keyed_advance_epoch by blast
      qed
      then show "within_bounds f"
        using h(2) by (simp add: within_bounds_def calm_defs settled_def sync_attempts_locked_def
            with_state_def)
    qed
  qed
qed

section \<open>Fences\<close>

text \<open>The fenced paths are exactly the paths of the durable fence records.\<close>

definition fences_recorded :: "Fabric \<Rightarrow> bool" where
  "fences_recorded f \<longleftrightarrow>
     (\<forall>p. map_of (fb_path_fences f) p \<noteq> None \<longleftrightarrow>
        valid p \<and> p \<in> fr_path ` set (ds_fences (fb_state f)))"

lemma move_fences_recorded: "move f g \<Longrightarrow> fences_recorded f \<Longrightarrow> fences_recorded g"
proof (induction rule: move.induct)
  case (inner f g)
  then show ?case
  proof (induction rule: micro.induct)
    case (path_fence f r reason)
    then show ?case by (auto simp: fences_recorded_def with_state_def find_emplace)
  next
    case (fence f r)
    then show ?case by (auto simp: fences_recorded_def with_state_def)
  qed (auto simp: fences_recorded_def with_state_def store_attempt_def calm_defs)
qed (simp add: fences_recorded_def)

lemma fold_fences:
  fixes rs :: "FenceRecord list"
  shows "map_of (foldl (\<lambda>m r. if valid (fr_path r) then map_emplace (fr_path r) (fr_reason r) m else m)
     m rs) p \<noteq> None \<longleftrightarrow> map_of m p \<noteq> None \<or> valid p \<and> p \<in> fr_path ` set rs"
  by (induction rs arbitrary: m) (auto simp: find_emplace)

lemma loaded_fences_recorded: "fences_recorded (loaded_fabric options store state)"
  unfolding fences_recorded_def using fold_fences [of "[]"] by (simp add: loaded_fabric_def)

lemma settled_fences_recorded:
  "fences_recorded h \<Longrightarrow> calm (settled h) f \<Longrightarrow> fences_recorded f"
  by (simp add: fences_recorded_def calm_defs settled_def sync_attempts_locked_def with_state_def)

interpretation fences: opened_invariant fences_recorded
proof
  fix f g show "move f g \<Longrightarrow> keyed f \<Longrightarrow> fences_recorded f \<Longrightarrow> fences_recorded g"
    by (rule move_fences_recorded)
next
  fix options store info f assume "fabric_open options store info = Inr f"
  then show "fences_recorded f"
  proof (cases rule: open_cases)
    case (1 store store1 state status)
    let ?a = "advance_epoch info (loaded_fabric options store1 state)"
    have a: "fences_recorded ?a"
      using loaded_fences_recorded by (simp add: fences_recorded_def advance_epoch_def Let_def)
    show ?thesis
    proof (rule restart_cases [OF 1(3,4) keyed_loaded])
      fix h assume h: "steps ?a h" "calm (settled h) f"
      have "fences_recorded h"
        using h(1) a by (induction rule: rtranclp_induct) (auto intro: move_fences_recorded inner)
      then show "fences_recorded f" using h(2) by (rule settled_fences_recorded)
    qed
  qed
qed

definition fences_kept :: "Fabric \<Rightarrow> Fabric \<Rightarrow> bool" where
  "fences_kept f g \<longleftrightarrow> prefix (ds_fences (fb_state f)) (ds_fences (fb_state g)) \<and>
     map_of (fb_path_fences f) \<subseteq>\<^sub>m map_of (fb_path_fences g)"

lemma emplace_le: "map_of m \<subseteq>\<^sub>m map_of (map_emplace k v m)"
  by (auto simp: map_le_def find_emplace)

lemma move_fences_kept: "move f g \<Longrightarrow> fences_kept f g"
proof (induction rule: move.induct)
  case (inner f g)
  then show ?case
    by (induction rule: micro.induct)
      (simp_all add: fences_kept_def with_state_def store_attempt_def calm_defs emplace_le)
qed (simp add: fences_kept_def)

interpretation fence_order: fabric_order fences_kept
  by unfold_locales
    (auto simp: fences_kept_def intro: move_fences_kept [unfolded fences_kept_def, THEN conjunct1]
      move_fences_kept [unfolded fences_kept_def, THEN conjunct2] map_le_trans)

section \<open>Authority\<close>

text \<open>
  Within one incarnation the identity is fixed, generations only grow, and a generation names one
  content.
\<close>

definition authority_kept :: "Fabric \<Rightarrow> Fabric \<Rightarrow> bool" where
  "authority_kept f g \<longleftrightarrow>
     fb_identity g = fb_identity f \<and>
     av_epoch (ds_authority (fb_state g)) = av_epoch (ds_authority (fb_state f)) \<and>
     av_boot (ds_authority (fb_state g)) = av_boot (ds_authority (fb_state f)) \<and>
     av_topology (ds_authority (fb_state f)) \<le> av_topology (ds_authority (fb_state g)) \<and>
     av_path_authority (ds_authority (fb_state f)) \<le> av_path_authority (ds_authority (fb_state g))"

definition newer :: "('a \<Rightarrow> u64) \<Rightarrow> 'a \<Rightarrow> 'a \<Rightarrow> bool" where
  "newer generation x y \<longleftrightarrow> y = x \<or> generation x < generation y"

lemma newer_refl [simp]: "newer generation x x"
  by (simp add: newer_def)

lemma newer_trans: "newer generation x y \<Longrightarrow> newer generation y z \<Longrightarrow> newer generation x z"
  by (auto simp: newer_def)

definition contents_kept :: "Fabric \<Rightarrow> Fabric \<Rightarrow> bool" where
  "contents_kept f g \<longleftrightarrow>
     (ds_has_policy (fb_state f) \<longrightarrow> ds_has_policy (fb_state g) \<and>
        newer fp_generation (ds_policy (fb_state f)) (ds_policy (fb_state g))) \<and>
     (ds_has_obligations (fb_state f) \<longrightarrow> ds_has_obligations (fb_state g) \<and>
        newer so_generation (ds_obligations (fb_state f)) (ds_obligations (fb_state g))) \<and>
     (\<forall>i st. map_of (fb_sets f) i = Some st \<longrightarrow>
        (\<exists>st'. map_of (fb_sets g) i = Some st' \<and> newer as_generation st st'))"

lemma move_authority_kept: "move f g \<Longrightarrow> authority_kept f g"
proof (induction rule: move.induct)
  case (inner f g)
  then show ?case
    by (induction rule: micro.induct)
      (simp_all add: authority_kept_def with_state_def store_attempt_def calm_defs)
qed (simp add: authority_kept_def)

lemma move_contents_kept: "move f g \<Longrightarrow> contents_kept f g"
proof (induction rule: move.induct)
  case (inner f g)
  then show ?case
  proof (induction rule: micro.induct)
    case (put_set st f l)
    then show ?case
      by (auto simp: contents_kept_def with_state_def newer_def split: option.splits)
  next
    case (policy p f)
    then show ?case by (simp add: contents_kept_def with_state_def newer_def)
  next
    case (obligations ob f)
    then show ?case by (simp add: contents_kept_def with_state_def newer_def)
  qed (simp_all add: contents_kept_def with_state_def store_attempt_def calm_defs)
qed (simp add: contents_kept_def)

lemma contents_kept_trans: "contents_kept f g \<Longrightarrow> contents_kept g h \<Longrightarrow> contents_kept f h"
  unfolding contents_kept_def by (fast intro: newer_trans)

interpretation authority_order: fabric_order authority_kept
  by unfold_locales (auto simp: authority_kept_def dest!: move_authority_kept)

lemma contents_kept_refl: "contents_kept f f"
  by (simp add: contents_kept_def)

interpretation contents: fabric_order contents_kept
  by unfold_locales
    (rule contents_kept_refl, erule (1) contents_kept_trans, erule move_contents_kept)

end
