(* ===== verification/PFF_Coordinator.thy ===== *)
theory PFF_Coordinator
  imports PFF_Invariants
begin

text \<open>
  What the coordinator promises to its clients: exclusive ownership of the transition, refinement of
  a lock, finality of attempts, bounds, permanence of fences and monotone authority, for every
  sequence of calls and every outcome of the journal writes.
\<close>

section \<open>Ownership as a lock\<close>

text \<open>The abstract state: the attempt that owns the transition, if one does.\<close>

definition lock :: "Fabric \<Rightarrow> AttemptId option" where
  "lock f = (if owner_active f then Some (fb_active_attempt f) else None)"

text \<open>
  The contract. Only a new promotion takes a free lock; nothing takes a held one. The holder is
  released by its own completion, abandonment or rollback, or by fencing and authority changes.
\<close>

fun lock_spec :: "Call \<Rightarrow> AttemptId option \<Rightarrow> AttemptId option \<Rightarrow> bool" where
  "lock_spec (Begin_promotion _ _ _) l l' \<longleftrightarrow>
     (case l of Some i \<Rightarrow> l' = Some i | None \<Rightarrow> l' \<noteq> Some absent)"
| "lock_spec (Record_effect j _) l l' \<longleftrightarrow> l' = l \<or> l = Some j \<and> l' = None"
| "lock_spec (Abandon_attempt j _) l l' \<longleftrightarrow> l' = l \<or> l = Some j \<and> l' = None"
| "lock_spec (Rollback j _) l l' \<longleftrightarrow> l' = l \<or> l = Some j \<and> l' = None"
| "lock_spec (Apply_alternate_set _) l l' \<longleftrightarrow> l' = l"
| "lock_spec (Apply_evidence _) l l' \<longleftrightarrow> l' = l"
| "lock_spec (Evaluate _ _ _) l l' \<longleftrightarrow> l' = l"
| "lock_spec (Revert _ _) l l' \<longleftrightarrow> l' = l"
| "lock_spec _ l l' \<longleftrightarrow> l' = l \<or> l' = None"

lemma lock_cong:
  "fb_attempts g = fb_attempts f \<Longrightarrow> fb_active_attempt g = fb_active_attempt f \<Longrightarrow> lock g = lock f"
  by (simp add: lock_def owner_active_def)

lemma lock_calm: "calm f g \<Longrightarrow> lock g = lock f"
  by (rule lock_cong) (simp_all add: calm_def)

lemma lock_Some: "lock f = Some i \<longleftrightarrow> owner_active f \<and> fb_active_attempt f = i"
  by (auto simp: lock_def)

lemma lock_store_inactive:
  "\<not> is_active_state (ar_state a) \<Longrightarrow> lock (store_attempt i a f) = lock f \<or> lock (store_attempt i a f) = None"
  by (auto simp: lock_def owner_active_def store_attempt_def)

lemma micro_lock: "micro f g \<Longrightarrow> lock g = lock f \<or> lock g = None"
proof (induction rule: micro.induct)
  case (quiet f g)
  then show ?case by (simp add: lock_calm)
next
  case (claim f a m)
  then show ?case by (simp add: lock_def owner_active_def with_state_def valid_def absent_def)
next
  case (finish f i b a)
  then show ?case by (simp add: lock_store_inactive is_active_state_def)
next
  case (commit f i b e)
  then show ?case by (simp add: lock_store_inactive ended_def)
next
  case (leave f)
  then show ?case by (simp add: lock_def owner_active_def valid_def absent_def)
qed (auto intro!: disjI1 lock_cong simp: with_state_def)

lemma steps_lock: "steps f g \<Longrightarrow> lock g = lock f \<or> lock g = None"
  by (induction rule: rtranclp_induct) (auto dest: micro_lock)

lemma lock_compact: "lock (snd (compact_if_needed_locked f)) = lock f"
  by (rule lock_calm [OF calm_compact])

lemma lock_tally [simp]: "lock (tally u f) = lock f"
  by (rule lock_calm [OF calm_tally])

lemma evidence_lock: "lock (snd (fabric_apply_evidence e f)) = lock f"
  by (auto intro: lock_cong simp: fabric_apply_evidence_def Let_def tally_def split: option.split)

lemma put_set_lock: "lock (snd (put_set_locked st f)) = lock f"
proof -
  let ?a = "append_locked RecordType_alternate_set_put (encode_set_record st) f"
  have "lock (with_state u ((snd ?a)\<lparr>fb_sets := m\<rparr>)) = lock f" for u m
    using calm_append [of f RecordType_alternate_set_put "encode_set_record st"]
    by (intro lock_cong) (simp_all add: with_state_def calm_def)
  then show ?thesis
    using lock_calm [OF calm_append]
    by (simp add: put_set_locked_def then_do_def split_beta Let_def lock_compact)
qed

lemma alternate_set_lock: "lock (snd (fabric_apply_alternate_set st f)) = lock f"
  by (simp add: fabric_apply_alternate_set_def Let_def put_set_lock split: option.split)

lemma evaluate_lock: "lock (snd (fabric_evaluate incumbent c s f)) = lock f"
  by (auto intro!: lock_calm calm_decision simp: fabric_evaluate_def split: sum.split)

lemma revert_held: "lock f = Some i \<Longrightarrow> snd (revert j target f) = f"
  by (auto simp: lock_Some owner_active_def revert_def split: option.split prod.split)

lemma effect_by_other: "lock f = Some i \<Longrightarrow> j \<noteq> i \<Longrightarrow> lock (snd (record_effect j e f)) = lock f"
  using effect_accepted(2) [of j e _ f]
  by (auto simp: lock_Some record_effect_def find_attempt_locked_def split: option.split)

lemma rollback_by_other: "lock f = Some i \<Longrightarrow> j \<noteq> i \<Longrightarrow> lock (snd (rollback j e f)) = lock f"
  by (auto simp: lock_Some rollback_def find_attempt_locked_def split: option.split)

lemma lock_release: "fb_active_attempt f \<noteq> j \<Longrightarrow> lock (release j f) = lock f"
  by (rule lock_cong) (simp_all add: release_def)

lemma abandon_by_other:
  assumes "keyed f" "lock f = Some i" "j \<noteq> i"
  shows "lock (snd (abandon_attempt j reason f)) = lock f"
proof (cases "map_of (fb_attempts f) j")
  case (Some b)
  let ?a = "ended AttemptState_abandoned reason f b"
  let ?s = "store_attempt j ?a f"
  let ?p = "snd (persist_attempt_locked ?a False ?s)"
  have owner: "fb_active_attempt f = i" using assms(2) by (simp add: lock_Some)
  have calm: "calm ?s ?p" by (rule store_then_persist(1) [OF assms(1) Some]) (simp add: ended_def)
  have s: "lock ?s = lock f"
    using owner assms(3) by (simp add: lock_def owner_active_def store_attempt_def)
  have p: "lock ?p = lock f" "fb_active_attempt ?p = i"
    using s lock_calm [OF calm] calm owner by (simp_all add: calm_def store_attempt_def)
  have l: "lock (snd (persist_lineage_locked e ?p)) = lock f"
    "fb_active_attempt (snd (persist_lineage_locked e ?p)) = i" for e
    using p lock_cong [OF lineage_keeps, of e ?p] by (simp_all add: lineage_keeps)
  have r: "lock (release j (snd (persist_lineage_locked e ?p))) = lock f" for e
    using l [of e] lock_release [of "snd (persist_lineage_locked e ?p)" j] assms(3) by simp
  show ?thesis
    using Some p l r
    by (simp add: abandon_attempt_def find_attempt_locked_def then_do_def split_beta Let_def
        lock_compact)
qed (simp add: abandon_attempt_def find_attempt_locked_def)

lemma begin_held: "lock f = Some i \<Longrightarrow> lock (snd (begin_promotion incumbent c s f)) = Some i"
  by (simp add: begin_promotion_def lock_Some [THEN iffD1])

lemma lock_valid: "lock f \<noteq> Some absent"
  by (simp add: lock_def owner_active_def valid_def absent_def)

lemma perform_lock:
  assumes "keyed f"
  shows "lock_spec c (lock f) (lock (perform c f))"
proof -
  have steps: "lock (perform c f) = lock f \<or> lock (perform c f) = None" if "\<not> begins c"
    by (rule steps_lock [OF perform_steps [OF assms that]])
  have own: "l' = l \<or> l = Some j \<and> l' = None"
    if "l' = l \<or> l' = None" "\<And>i. l = Some i \<Longrightarrow> j \<noteq> i \<Longrightarrow> l' = l" for l l' and j :: AttemptId
    using that by (cases l) auto
  show ?thesis
  proof (cases c)
    case (Record_effect j e)
    then show ?thesis using steps effect_by_other by (simp, intro own) auto
  next
    case (Abandon_attempt j reason)
    then show ?thesis using steps abandon_by_other [OF assms] by (simp, intro own) auto
  next
    case (Rollback j e)
    then show ?thesis using steps rollback_by_other by (simp, intro own) auto
  next
    case (Revert j e)
    then show ?thesis using steps revert_held by (cases "lock f") auto
  next
    case (Begin_promotion incumbent condition s)
    then show ?thesis using begin_held lock_valid by (cases "lock f") auto
  qed (use steps in \<open>auto simp: evidence_lock alternate_set_lock evaluate_lock\<close>)
qed

section \<open>Finality\<close>

text \<open>
  A known identity of a finished or dropped attempt: later states hold the same record or none,
  unless the attempt counter reached its last value on the way.
\<close>

definition over :: "AttemptId \<Rightarrow> Fabric \<Rightarrow> bool" where
  "over i f \<longleftrightarrow>
     (case map_of (fb_attempts f) i of Some a \<Rightarrow> is_terminal_state (ar_state a) | None \<Rightarrow> True)"

definition counter :: "Fabric \<Rightarrow> u64" where
  "counter f = ds_attempt_sequence (fb_state f)"

definition final :: "Fabric \<Rightarrow> Fabric \<Rightarrow> bool" where
  "final f g \<longleftrightarrow> counter f \<le> counter g \<and>
     (\<forall>i. i \<le> counter f \<longrightarrow> over i f \<longrightarrow>
        map_of (fb_attempts g) i = map_of (fb_attempts f) i \<or> map_of (fb_attempts g) i = None)"

definition exhausted_between :: "Fabric \<Rightarrow> Fabric \<Rightarrow> bool" where
  "exhausted_between f g \<longleftrightarrow> (\<exists>h. moves f h \<and> moves h g \<and> counter h = UINT64_MAX)"

lemma final_over: "final f g \<Longrightarrow> i \<le> counter f \<Longrightarrow> over i f \<Longrightarrow> over i g"
  unfolding final_def over_def by (metis option.simps(4))

lemma final_trans:
  assumes "final f g" "final g h"
  shows "final f h"
proof -
  have c: "counter f \<le> counter g" "counter g \<le> counter h" using assms by (auto simp: final_def)
  have "map_of (fb_attempts h) i = map_of (fb_attempts f) i \<or> map_of (fb_attempts h) i = None"
    if i: "i \<le> counter f" "over i f" for i
    using assms final_over [OF assms(1) i] i order_trans [OF i(1) c(1)] unfolding final_def by metis
  then show ?thesis using c unfolding final_def by simp
qed

lemma final_store:
  assumes "map_of (fb_attempts f) i = Some b" "is_active_state (ar_state b)"
  shows "final f (f\<lparr>fb_attempts := map_assign i a (fb_attempts f), fb_active_attempt := x, fb_grants := y\<rparr>)"
    and "final f (store_attempt i a f)"
  using assms by (auto simp: final_def counter_def over_def is_active_state_def store_attempt_def)

lemma micro_final: "micro f g \<Longrightarrow> counter f \<noteq> UINT64_MAX \<Longrightarrow> final f g"
proof (induction rule: micro.induct)
  case (claim f a m)
  have "map_of m i = map_of (fb_attempts f) i \<or> map_of m i = None" if "over i f" for i
    using claim(5) by (cases "map_of m i") (auto dest: makes_room_find)
  moreover have "\<not> ar_id a \<le> ds_attempt_sequence (fb_state f)"
    using word_succ_gt [OF claim(1)] claim(2) by simp
  ultimately show ?case
    by (auto simp: final_def counter_def with_state_def)
next
  case (wrap f)
  then show ?case by (simp add: counter_def UINT64_MAX_def)
qed (simp_all add: final_store(2), simp_all add: final_def counter_def with_state_def calm_defs)

lemma move_final:
  assumes "move f g" "counter f \<noteq> UINT64_MAX"
  shows "final f g"
  using assms
proof (induction rule: move.induct)
  case (grant f i b g)
  then show ?case by (intro final_store(1)) auto
qed (rule micro_final)

lemma moves_final:
  assumes "moves f g"
  shows "final f g \<or> exhausted_between f g"
  using assms
proof (induction rule: rtranclp_induct)
  case base
  then show ?case by (simp add: final_def)
next
  case (step g h)
  consider "exhausted_between f g" | "final f g" "counter g = UINT64_MAX"
    | "final f g" "counter g \<noteq> UINT64_MAX" using step.IH by blast
  then show ?case
  proof cases
    case 1
    then show ?thesis
      unfolding exhausted_between_def using step.hyps(2) by (meson rtranclp.rtrancl_into_rtrancl)
  next
    case 2
    then show ?thesis
      unfolding exhausted_between_def using step.hyps by blast
  next
    case 3
    then show ?thesis using final_trans move_final step.hyps(2) by blast
  qed
qed

end
