(* ===== verification/PFF_Promotion.thy ===== *)
theory PFF_Promotion
  imports PFF_Coordinator
begin

text \<open>
  The life of one promotion: what a granted, a committed and a fenced transition mean for the state,
  branch by branch, and that nothing but the journal can keep a due grant from being issued.
\<close>

section \<open>Grants\<close>

lemma then_return_ok:
  assumes "then_return r k = (Inr x, g)"
  shows "st_ok (fst r)" "k (snd r) = (Inr x, g)"
  using assms by (cases r; auto simp: then_return_def split: if_splits)+

lemma select_authorized:
  assumes "select_locked incumbent c set_id n i kind f = Inr d"
    and "pd_outcome d = PromotionOutcome_authorized"
  obtains st out where "map_of (fb_sets f) set_id = Some st" "ds_has_policy (fb_state f)"
    "ds_has_obligations (fb_state f)" "evaluate (selection_input incumbent st n i f) = Inr out"
    "pd_outcome out = PromotionOutcome_authorized" "pd_selected out = pd_selected d"
  using assms
  by (auto simp: select_locked_def Let_def refused_decision_def
      split: option.splits if_splits sum.splits)

lemma refuse_attempt_result:
  "refuse_attempt a n d f = (Inr auth, g) \<Longrightarrow> auth = refusal d"
  unfolding refuse_attempt_def by (auto dest!: then_return_ok(2))

definition grant_for :: "AttemptRecord \<Rightarrow> PromotionDecision \<Rightarrow> Fabric \<Rightarrow> Grant" where
  "grant_for a d f = \<lparr>gr_id = ar_id a, gr_attempt = ar_id a, gr_path = pd_selected d,
     gr_basis = ds_authority (fb_state f), gr_kind = AuthorityKind_grant\<rparr>"

definition granted :: "AttemptRecord \<Rightarrow> Grant \<Rightarrow> Fabric \<Rightarrow> Fabric" where
  "granted a r f = f\<lparr>fb_attempts := map_assign (ar_id a) (a\<lparr>ar_state := AttemptState_authorized\<rparr>)
       (fb_attempts f), fb_active_attempt := ar_id a,
     fb_grants := map_assign (ar_id a) r (fb_grants f)\<rparr>"

lemma issue_grant_result:
  assumes "issue_grant a d f = (Inr auth, g)" "map_of (fb_attempts f) (ar_id a) = Some a"
  shows "auth = \<lparr>pa_decision = d, pa_grant = grant_for a d f\<rparr> \<and>
    (\<exists>k. calm f k \<and> calm (granted a (grant_for a d f) k) g)"
proof -
  let ?a = "a\<lparr>ar_state := AttemptState_authorized\<rparr>"
  let ?p = "persist_attempt_locked ?a False f"
  note p = then_return_ok [OF assms(1) [unfolded issue_grant_def]]
  show ?thesis
  proof (rule persist_known_cases [of f ?a a False])
    fix k assume k: "calm f k" "?p = (ok_status, store_attempt (ar_id ?a) ?a k)"
    have r: "\<lparr>gr_id = ar_id a, gr_attempt = ar_id a, gr_path = pd_selected d,
        gr_basis = ds_authority (fb_state (snd ?p)), gr_kind = AuthorityKind_grant\<rparr> = grant_for a d f"
      using k by (simp add: grant_for_def calm_defs store_attempt_def)
    let ?h = "tally fs_promotions_authorized_update (granted a (grant_for a d f) k)"
    have h: "tally fs_promotions_authorized_update ((snd ?p)\<lparr>fb_active_attempt := ar_id a,
        fb_grants := map_assign (ar_id a) (grant_for a d f) (fb_grants (snd ?p))\<rparr>) = ?h"
      using k(2) by (simp add: granted_def store_attempt_def)
    note c = then_return_ok(2) [OF p(2) [unfolded Let_def r h]]
    have "calm (granted a (grant_for a d f) k) (snd (compact_if_needed_locked ?h))"
      by (rule calm_trans [OF calm_tally calm_compact])
    then show ?thesis using c k(1) by auto
  qed (use p(1) assms(2) in auto)
qed

lemma issue_grant_owner:
  assumes "issue_grant a d f = (Inr auth, g)" "map_of (fb_attempts f) (ar_id a) = Some a"
    and "valid (ar_id a)"
  shows "lock g = Some (ar_id a)" "ds_authority (fb_state g) = ds_authority (fb_state f)"
    "map_of (fb_attempts g) (ar_id a) = Some (a\<lparr>ar_state := AttemptState_authorized\<rparr>)"
    "map_of (fb_grants g) (ar_id a) = Some (grant_for a d f)"
    "pa_decision auth = d" "pa_grant auth = grant_for a d f"
proof -
  obtain k where k: "calm f k" "calm (granted a (grant_for a d f) k) g"
    "auth = \<lparr>pa_decision = d, pa_grant = grant_for a d f\<rparr>"
    using issue_grant_result [OF assms(1,2)] by blast
  show "lock g = Some (ar_id a)"
    using lock_calm [OF k(2)] assms(3) by (simp add: lock_def owner_active_def granted_def)
  show "ds_authority (fb_state g) = ds_authority (fb_state f)"
    "map_of (fb_attempts g) (ar_id a) = Some (a\<lparr>ar_state := AttemptState_authorized\<rparr>)"
    "map_of (fb_grants g) (ar_id a) = Some (grant_for a d f)"
    "pa_decision auth = d" "pa_grant auth = grant_for a d f"
    using k by (simp_all add: calm_defs granted_def)
qed

lemma claimed_result:
  assumes "keyed f" "ds_attempt_sequence (fb_state f) \<noteq> - 1" "fb_active_attempt f = absent"
    and "claim_transition incumbent c set_id f = (Inr auth, g)" "authorized auth"
  obtains d a h where
    "select_locked incumbent c set_id (ds_decision_sequence (fb_state f) + 1)
       (ds_attempt_sequence (fb_state f) + 1) AuthorityKind_grant f = Inr d"
    "pd_outcome d = PromotionOutcome_authorized"
    "ar_id a = ds_attempt_sequence (fb_state f) + 1" "ar_selected a = pd_selected d"
    "ar_basis a = ds_authority (fb_state f)" "valid (ar_id a)"
    "ds_authority (fb_state h) = ds_authority (fb_state f)"
    "map_of (fb_attempts h) (ar_id a) = Some a" "issue_grant a d h = (Inr auth, g)"
proof -
  let ?i = "ds_attempt_sequence (fb_state f) + 1" and ?n = "ds_decision_sequence (fb_state f) + 1"
  let ?f = "with_state (\<lambda>s. s\<lparr>ds_decision_sequence := ds_decision_sequence s + 1\<rparr>) f"
  let ?inc = "with_state (\<lambda>s. s\<lparr>ds_attempt_sequence := ds_attempt_sequence s + 1\<rparr>)"
  obtain d where d: "select_locked incumbent c set_id ?n ?i AuthorityKind_grant f = Inr d"
    using assms(4) by (auto simp: claim_transition_def Let_def split: sum.splits)
  define a where "a = claimed_attempt ?i incumbent set_id d ?f"
  have id: "ar_id a = ?i" "ar_selected a = pd_selected d" "ar_basis a = ds_authority (fb_state f)"
    "ar_state a = AttemptState_claimed"
    by (simp_all add: a_def claimed_attempt_def with_state_def)
  let ?p = "persist_attempt_locked a True ?f"
  have usual: "\<not> structural_refusal (pd_outcome d)"
    using assms(4,5) d by (auto simp: claim_transition_def Let_def authorized_def refusal_def
        structural_refusal_def split: if_splits)
  have body: "then_return ?p (\<lambda>f. if pd_outcome d \<noteq> PromotionOutcome_authorized \<or> \<not> valid (pd_selected d)
        then refuse_attempt a ?n d (?inc f) else issue_grant a d (?inc f)) = (Inr auth, g)"
    using assms(4) d usual unfolding a_def by (simp add: claim_transition_def Let_def)
  note r = then_return_ok [OF body]
  have out: "pd_outcome d = PromotionOutcome_authorized \<and> valid (pd_selected d)"
    using r(2) assms(5) by (auto simp: authorized_def refusal_def dest!: refuse_attempt_result
        split: if_splits)
  have "steps ?f (snd ?p) \<and> (st_ok (fst ?p) \<longrightarrow> map_of (fb_attempts (snd ?p)) (ar_id a) = Some a \<and>
      (\<exists>m. calm (?f\<lparr>fb_attempts := m\<rparr>) (snd ?p)))"
    by (rule persist_claim [OF steps_keyed [OF calm_steps [OF calm_decision] assms(1)]])
      (use assms(2,3) id in \<open>auto simp: with_state_def admissible_def\<close>)
  then have p: "map_of (fb_attempts (snd ?p)) (ar_id a) = Some a"
    "\<exists>m. calm (?f\<lparr>fb_attempts := m\<rparr>) (snd ?p)" using r(1) by blast+
  show thesis
  proof (rule that [OF d _ id(1-3)])
    show "valid (ar_id a)" using assms(2) id(1) by (simp add: valid_def eq_neg_iff_add_eq_0)
    show "ds_authority (fb_state (?inc (snd ?p))) = ds_authority (fb_state f)"
      using p(2) by (auto simp: calm_defs with_state_def)
    show "map_of (fb_attempts (?inc (snd ?p))) (ar_id a) = Some a"
      using p(1) by (simp add: with_state_def)
    show "issue_grant a d (?inc (snd ?p)) = (Inr auth, g)" using r(2) out by simp
  qed (use out in simp)
qed

lemma begin_result:
  assumes "begin_promotion incumbent c set_id f = (Inr auth, g)" "authorized auth"
  shows "lock f = None" "valid incumbent" "ds_attempt_sequence (fb_state f) \<noteq> - 1"
    "claim_transition incumbent c set_id (f\<lparr>fb_active_attempt := absent\<rparr>) = (Inr auth, g)"
  using assms
  by (auto simp: begin_promotion_def Let_def lock_def contention_def refusal_def authorized_def
      UINT64_MAX_def split: if_splits)

text \<open>The selected path of a grant, as a member of the installed set.\<close>

lemma grant_member:
  assumes "select_locked incumbent c set_id n i kind f = Inr d"
    and "pd_outcome d = PromotionOutcome_authorized"
  obtains st m where "map_of (fb_sets f) set_id = Some st" "m \<in> set (as_candidates st)"
    "pd_selected d = ca_path m" "st_ok (validate_candidate m)"
    "legal_alternate (selection_input incumbent st n i f) (ds_policy (fb_state f))
       (ds_obligations (fb_state f)) m"
    "map_of (fb_path_fences f) (ca_path m) = None"
proof -
  obtain st out where st: "map_of (fb_sets f) set_id = Some st"
    "evaluate (selection_input incumbent st n i f) = Inr out"
    "pd_outcome out = PromotionOutcome_authorized" "pd_selected out = pd_selected d"
    using select_authorized [OF assms] by metis
  have fields: "si_set (selection_input incumbent st n i f) = Some st"
    "si_policy (selection_input incumbent st n i f) = Some (ds_policy (fb_state f))"
    "si_obligations (selection_input incumbent st n i f) = Some (ds_obligations (fb_state f))"
    by (simp_all add: selection_input_def)
  obtain m where m: "m \<in> set (as_candidates st)" "pd_selected out = ca_path m"
    "guards_pass (selection_input incumbent st n i f) st (ds_policy (fb_state f))
       (ds_obligations (fb_state f))"
    "legal_alternate (selection_input incumbent st n i f) (ds_policy (fb_state f))
       (ds_obligations (fb_state f)) m"
    using authorized_winner [OF st(2,3)] fields by (metis option.inject)
  have "ca_path m \<notin> set (map fst (fb_path_fences f))"
    using m(4) by (simp add: legal_alternate_def may_serve_def selection_input_def
        fenced_path_ids_locked_def)
  then have "map_of (fb_path_fences f) (ca_path m) = None" by (simp add: map_of_eq_None_iff)
  moreover have "st_ok (validate_candidate m)"
    using guards_passD(3) [OF m(3)] m(1) by (simp add: validate_set_ok)
  ultimately show thesis using that st m by metis
qed

section \<open>Completion\<close>

lemma persist_lineage_ok:
  assumes "st_ok (fst (persist_lineage_locked e f))"
  shows "\<exists>l. ds_lineage (fb_state (snd (persist_lineage_locked e f))) = l @ [e]"
  using assms by (auto simp: persist_lineage_locked_def then_do_def with_state_def Let_def
      split: prod.splits if_splits)

lemma lineage_grants: "fb_grants (snd (persist_lineage_locked e f)) = fb_grants f"
  "fb_identity (snd (persist_lineage_locked e f)) = fb_identity f"
  using calm_append [of f RecordType_lineage_entry "encode_lineage_record e"]
  by (auto simp: persist_lineage_locked_def then_do_def with_state_def calm_defs Let_def
      split: prod.split)

definition promotion_entered :: "AttemptId \<Rightarrow> AttemptRecord \<Rightarrow> Fabric \<Rightarrow> bool" where
  "promotion_entered i b g \<longleftrightarrow>
     (\<exists>l e. ds_lineage (fb_state g) = l @ [e] \<and> li_attempt e = i \<and>
        li_outcome e = PromotionOutcome_promoted \<and> li_incumbent e = ar_incumbent b \<and>
        li_selected e = ar_selected b \<and> li_set e = ar_set b)"

lemma effect_refusal_fails: "effect_refusal i e b f = Some (s, x) \<Longrightarrow> \<not> st_ok s"
  by (auto simp: effect_refusal_def split: if_splits option.splits)

lemma record_effect_result:
  assumes "keyed f" "record_effect i e f = (status, g)" "st_ok status"
  obtains b where "map_of (fb_attempts f) i = Some b" "effect_refusal i e b f = None"
    "map_of (fb_attempts g) i = Some (ended AttemptState_committed Reason_none f b)"
    "fb_active_attempt g = absent" "map_of (fb_grants g) i = None"
    "map_of (fb_evidence g) (ee_path e) = Some (verified_evidence e)" "promotion_entered i b g"
proof -
  obtain b where b: "map_of (fb_attempts f) i = Some b" "effect_refusal i e b f = None"
    using assms(2,3) effect_refusal_fails
    by (auto simp: record_effect_def find_attempt_locked_def unknown_attempt_def
        split: option.splits prod.splits)
  let ?a = "ended AttemptState_committed Reason_none f b"
  let ?s = "store_attempt i ?a f"
  let ?p = "persist_attempt_locked ?a False ?s"
  let ?e = "\<lambda>f. lineage_entry (ds_decision_sequence (fb_state f)) i PromotionOutcome_promoted
    (ar_incumbent ?a) (ar_selected ?a) (ar_set ?a) Reason_selected f"
  let ?l = "persist_lineage_locked (?e (snd ?p)) (snd ?p)"
  let ?d = "\<lambda>f. tally fs_promotions_committed_update
    (f\<lparr>fb_evidence := map_assign (ee_path e) (verified_evidence e) (fb_evidence f),
       fb_active_attempt := absent, fb_grants := map_erase i (fb_grants f)\<rparr>)"
  have "then_do ?p (\<lambda>f. then_do (persist_lineage_locked (?e f) f)
      (\<lambda>f. compact_if_needed_locked (?d f))) = (status, g)"
    using assms(2) b by (simp add: record_effect_def find_attempt_locked_def Let_def)
  note r = then_do_ok [OF this assms(3)]
  have l: "st_ok (fst ?l)" "compact_if_needed_locked (?d (snd ?l)) = (status, g)"
    using then_do_ok [OF conjunct2 [OF r] assms(3)] by simp_all
  have g: "calm (?d (snd ?l)) g" using calm_compact [of "?d (snd ?l)"] l(2) by simp
  have "calm ?s (snd ?p)" by (rule store_then_persist(1) [OF assms(1) b(1)]) (simp add: ended_def)
  then have "map_of (fb_attempts (snd ?l)) i = Some ?a"
    by (simp add: lineage_keeps calm_def store_attempt_def)
  moreover have "promotion_entered i b g"
    using persist_lineage_ok [OF l(1)] g
    by (auto simp: promotion_entered_def calm_defs tally_def lineage_entry_def ended_def)
  ultimately show thesis
    using that [OF b] g by (simp add: calm_def tally_def)
qed

section \<open>Authority changes\<close>

lemma active_count_zero: "keyed f \<Longrightarrow> active_attempt_count f = 0 \<longleftrightarrow> (\<forall>j. \<not> active_at f j)"
proof -
  have "active_attempt_count f = length (active_ids f)"
    by (simp add: active_attempt_count_def active_ids_def)
  then show "keyed f \<Longrightarrow> ?thesis" using active_ids_iff [of f] by fastforce
qed

lemma idle_lock: "(\<And>j. \<not> active_at f j) \<Longrightarrow> lock f = None"
  by (simp add: lock_def owner_active_iff)

lemma fenced_idle:
  assumes "keyed k" "then_do (fence_attempts_locked reason AttemptState_fenced k) compact_if_needed_locked =
    (status, g)" "st_ok status"
  shows "active_attempt_count g = 0 \<and> lock g = None"
proof -
  let ?r = "fence_attempts_locked reason AttemptState_fenced k"
  note r = then_do_ok [OF assms(2,3)]
  have calm: "calm (snd ?r) g" using r calm_compact [of "snd ?r"] by simp
  have "\<not> active_at (snd ?r) j" for j
    using fence_attempts_steps [OF assms(1) ends_simps(1)] r by blast
  then have idle: "\<not> active_at g j" for j using calm by (simp add: active_at_def calm_def)
  have "keyed g"
    by (rule steps_keyed [OF steps_trans [OF steps_fence_attempts [OF assms(1) ends_simps(1)]
          calm_steps [OF calm]] assms(1)])
  then show ?thesis using idle idle_lock by (simp add: active_count_zero)
qed

lemma authority_change_idle:
  assumes "keyed f" "\<And>g. calm f g \<Longrightarrow> micro g (h g)"
    and "then_do (append_locked t p f) (\<lambda>f. then_do (fence_attempts_locked reason
      AttemptState_fenced (h f)) compact_if_needed_locked) = (status, g)" "st_ok status"
  shows "active_attempt_count g = 0 \<and> lock g = None"
proof -
  let ?a = "snd (append_locked t p f)"
  have "keyed (h ?a)"
    by (rule steps_keyed [OF steps_trans [OF steps_append steps_micro [OF assms(2) [OF calm_append]]]
        assms(1)])
  then show ?thesis
    using fenced_idle [OF _ conjunct2 [OF then_do_ok [OF assms(3,4)]] assms(4)] by blast
qed

lemma policy_change_idle:
  assumes "keyed f" "fabric_apply_policy p f = (status, g)" "st_ok status" "g \<noteq> f"
  shows "active_attempt_count g = 0 \<and> lock g = None"
proof -
  have guards: "st_ok (validate_policy p)"
    "ds_has_policy (fb_state f) \<longrightarrow> fp_generation (ds_policy (fb_state f)) < fp_generation p"
    using assms(2-4) by (auto simp: fabric_apply_policy_def Let_def split: if_splits)
  show ?thesis
  proof (rule authority_change_idle [OF assms(1) _ _ assms(3)])
    show "then_do (append_locked RecordType_policy_set (encode_policy_record p) f) (\<lambda>f.
        then_do (fence_attempts_locked Reason_authority_fenced AttemptState_fenced
          (with_state (\<lambda>s. s\<lparr>ds_policy := p, ds_has_policy := True,
             ds_authority := (ds_authority s)\<lparr>av_policy := fp_generation p\<rparr>\<rparr>) f))
          compact_if_needed_locked) = (status, g)"
      using assms(2) guards by (auto simp: fabric_apply_policy_def Let_def split: if_splits)
  qed (rule micro.policy, use guards in \<open>auto simp: calm_defs\<close>)
qed

lemma obligations_change_idle:
  assumes "keyed f" "fabric_apply_obligations ob f = (status, g)" "st_ok status" "g \<noteq> f"
  shows "active_attempt_count g = 0 \<and> lock g = None"
proof -
  have guards: "st_ok (validate_obligations ob)" "ds_has_obligations (fb_state f) \<longrightarrow>
      so_generation (ds_obligations (fb_state f)) < so_generation ob"
    using assms(2-4) by (auto simp: fabric_apply_obligations_def Let_def split: if_splits)
  show ?thesis
  proof (rule authority_change_idle [OF assms(1) _ _ assms(3)])
    show "then_do (append_locked RecordType_obligations_set (encode_obligations_record ob) f) (\<lambda>f.
        then_do (fence_attempts_locked Reason_authority_fenced AttemptState_fenced
          (with_state (\<lambda>s. s\<lparr>ds_obligations := ob, ds_has_obligations := True,
             ds_authority := (ds_authority s)\<lparr>av_obligations := so_generation ob\<rparr>\<rparr>) f))
          compact_if_needed_locked) = (status, g)"
      using assms(2) guards by (auto simp: fabric_apply_obligations_def Let_def split: if_splits)
  qed (rule micro.obligations, use guards in \<open>auto simp: calm_defs\<close>)
qed

lemma topology_change_idle:
  assumes "keyed f" "fabric_set_authority a f = (status, g)" "st_ok status" "g \<noteq> f"
  shows "active_attempt_count g = 0 \<and> lock g = None"
proof -
  let ?h = "with_state (\<lambda>s. s\<lparr>ds_authority := (ds_authority s)\<lparr>av_topology := av_topology a,
    av_path_authority := av_path_authority a\<rparr>\<rparr>) f"
  have "then_do (append_locked RecordType_epoch_advance (epoch_payload (fb_state ?h)) ?h) (\<lambda>f.
      then_do (fence_attempts_locked Reason_authority_fenced AttemptState_fenced f)
        compact_if_needed_locked) = (status, g)"
    using assms(2-4) by (auto simp: fabric_set_authority_def Let_def split: if_splits)
  moreover have "keyed ?h" using assms(1) by (simp add: keyed_def with_state_def)
  ultimately show ?thesis
    using authority_change_idle [of ?h "\<lambda>f. f"] assms(3) quiet [OF calm_refl] by blast
qed

end
