(* ===== verification/PFF_Progress.thy ===== *)
theory PFF_Progress
  imports PFF_Promotion
begin

text \<open>
  Progress of the coordinator on a journal that accepts the records, what a fenced path and a
  reversion mean for the state, and the sample coordinators of the witnesses.
\<close>

section \<open>Progress\<close>

text \<open>The attempt table can take the record.\<close>

definition has_room :: "AttemptId \<Rightarrow> Fabric \<Rightarrow> bool" where
  "has_room i f \<longleftrightarrow> map_of (fb_attempts f) i \<noteq> None \<or>
     length (fb_attempts f) < unat (fo_max_retained_attempts (fb_options f)) \<or>
     list_ex (\<lambda>e. is_terminal_state (ar_state (snd e))) (fb_attempts f)"

text \<open>No compaction falls due within the next \<open>n\<close> bytes.\<close>

definition spare :: "nat \<Rightarrow> Fabric \<Rightarrow> bool" where
  "spare n f \<longleftrightarrow> (fo_enable_compaction (fb_options f) \<longrightarrow>
     sr_journal_bytes (fb_store f) + n < unat (fo_compaction_journal_bytes (fb_options f)))"

lemma spare_compact: "spare 0 f \<Longrightarrow> compact_if_needed_locked f = (ok_status, f)"
  by (simp add: spare_def compact_if_needed_locked_def)

lemma retain_room:
  assumes "has_room (ar_id a) f"
  shows "fst (retain_attempt_locked a f) = ok_status"
    "fb_store (snd (retain_attempt_locked a f)) = fb_store f"
    "fb_options (snd (retain_attempt_locked a f)) = fb_options f"
proof -
  have "List.find (\<lambda>e. is_terminal_state (ar_state (snd e))) (fb_attempts f) \<noteq> None"
    if "map_of (fb_attempts f) (ar_id a) = None"
      "\<not> length (fb_attempts f) < unat (fo_max_retained_attempts (fb_options f))"
    using assms that unfolding has_room_def find_None_iff list_ex_iff by blast
  then show "fst (retain_attempt_locked a f) = ok_status"
    "fb_store (snd (retain_attempt_locked a f)) = fb_store f"
    "fb_options (snd (retain_attempt_locked a f)) = fb_options f"
    by (auto simp: retain_attempt_locked_def store_attempt_def tally_def with_state_def
        split: option.splits)
qed

lemma ready_persist:
  assumes "ready (Suc n) (fb_store f)" "has_room (ar_id a) f" "spare (155 + k) f"
  shows "fst (persist_attempt_locked a w f) = ok_status"
    "ready n (fb_store (snd (persist_attempt_locked a w f)))"
    "spare k (snd (persist_attempt_locked a w f))"
proof -
  define t where "t = (if w then RecordType_attempt_begin else RecordType_attempt_state)"
  let ?a = "append_locked t (encode_attempt_record a) f"
  let ?g = "with_attempt_id (ar_id a) (snd ?a)"
  have len: "length (encode_attempt_record a) = 127" by (simp add: payload_lengths)
  note r = ready_append_locked [OF assms(1), of "encode_attempt_record a" t]
  have ok: "fst ?a = ok_status" "ready n (fb_store (snd ?a))"
    "sr_journal_bytes (fb_store (snd ?a)) = sr_journal_bytes (fb_store f) + 155"
    using r by (simp_all add: len max_record_payload_def)
  have same: "fb_store ?g = fb_store (snd ?a)" "fb_options ?g = fb_options f"
    "fb_attempts ?g = fb_attempts f"
    using calm_append [of f t "encode_attempt_record a"]
    by (simp_all add: with_attempt_id_def with_state_def calm_def)
  then have room: "has_room (ar_id a) ?g" using assms(2) by (simp add: has_room_def)
  have "persist_attempt_locked a w f = retain_attempt_locked a ?g"
    using ok(1) by (simp add: persist_attempt_locked_def then_do_def split_beta with_attempt_id_def
        flip: t_def)
  then show "fst (persist_attempt_locked a w f) = ok_status"
    "ready n (fb_store (snd (persist_attempt_locked a w f)))"
    "spare k (snd (persist_attempt_locked a w f))"
    using retain_room [OF room] ok assms(3) by (simp_all add: same spare_def add.assoc)
qed

lemma ready_lineage:
  assumes "ready (Suc n) (fb_store f)" "spare (143 + k) f"
  shows "fst (persist_lineage_locked e f) = ok_status"
    "spare k (snd (persist_lineage_locked e f))"
proof -
  let ?a = "append_locked RecordType_lineage_entry (encode_lineage_record e) f"
  note r = ready_append_locked [OF assms(1), of "encode_lineage_record e" RecordType_lineage_entry]
  have ok: "fst ?a = ok_status"
    "sr_journal_bytes (fb_store (snd ?a)) = sr_journal_bytes (fb_store f) + 143"
    using r by (simp_all add: payload_lengths max_record_payload_def)
  moreover have "fb_options (snd ?a) = fb_options f" using calm_append by (simp add: calm_def)
  ultimately show "fst (persist_lineage_locked e f) = ok_status"
    "spare k (snd (persist_lineage_locked e f))"
    using assms(2)
    by (simp_all add: persist_lineage_locked_def then_do_def split_beta spare_def with_state_def
        Let_def add.assoc)
qed

lemma ready_issue_grant:
  assumes "ready (Suc n) (fb_store f)" "map_of (fb_attempts f) (ar_id a) = Some a" "spare 155 f"
  shows "\<exists>auth g. issue_grant a d f = (Inr auth, g) \<and> pa_decision auth = d"
proof -
  let ?a = "a\<lparr>ar_state := AttemptState_authorized\<rparr>"
  have "has_room (ar_id ?a) f" using assms(2) by (simp add: has_room_def)
  note p = ready_persist [OF assms(1) this, of 0 False]
  have "fst (persist_attempt_locked ?a False f) = ok_status"
    "spare 0 (snd (persist_attempt_locked ?a False f))" using p assms(3) by simp_all
  then show ?thesis
    by (simp add: issue_grant_def then_return_def split_beta Let_def spare_compact spare_def
        tally_def)
qed

lemma ready_claim:
  assumes "keyed f" "ds_attempt_sequence (fb_state f) \<noteq> - 1" "fb_active_attempt f = absent"
    and "select_locked incumbent c set_id (ds_decision_sequence (fb_state f) + 1)
       (ds_attempt_sequence (fb_state f) + 1) AuthorityKind_grant f = Inr d"
    and "pd_outcome d = PromotionOutcome_authorized" "valid (pd_selected d)"
    and "ready 2 (fb_store f)" "has_room (ds_attempt_sequence (fb_state f) + 1) f" "spare 310 f"
  shows "\<exists>auth g. claim_transition incumbent c set_id f = (Inr auth, g) \<and> authorized auth"
proof -
  let ?i = "ds_attempt_sequence (fb_state f) + 1" and ?n = "ds_decision_sequence (fb_state f) + 1"
  let ?f = "with_state (\<lambda>s. s\<lparr>ds_decision_sequence := ds_decision_sequence s + 1\<rparr>) f"
  let ?inc = "with_state (\<lambda>s. s\<lparr>ds_attempt_sequence := ds_attempt_sequence s + 1\<rparr>)"
  let ?a = "claimed_attempt ?i incumbent set_id d ?f"
  let ?p = "persist_attempt_locked ?a True ?f"
  have id: "ar_id ?a = ?i" "ar_state ?a = AttemptState_claimed" by (simp_all add: claimed_attempt_def)
  have p: "fst ?p = ok_status" "ready 1 (fb_store (snd ?p))" "spare 155 (snd ?p)"
    using ready_persist [of 1 ?f ?a 155 True] assms(7-9) id
    by (simp_all add: with_state_def has_room_def spare_def numeral_2_eq_2)
  have "steps ?f (snd ?p) \<and> (st_ok (fst ?p) \<longrightarrow> map_of (fb_attempts (snd ?p)) (ar_id ?a) = Some ?a \<and>
      (\<exists>m. calm (?f\<lparr>fb_attempts := m\<rparr>) (snd ?p)))"
    by (rule persist_claim [OF steps_keyed [OF calm_steps [OF calm_decision] assms(1)]])
      (use assms(2,3) id in \<open>auto simp: with_state_def admissible_def\<close>)
  then have "map_of (fb_attempts (?inc (snd ?p))) (ar_id ?a) = Some ?a"
    using p(1) by (simp add: with_state_def)
  then obtain auth g where g: "issue_grant ?a d (?inc (snd ?p)) = (Inr auth, g)"
      "pa_decision auth = d"
    using ready_issue_grant [of 0 "?inc (snd ?p)" ?a d] p(2,3) by (auto simp: with_state_def spare_def)
  have "claim_transition incumbent c set_id f = (Inr auth, g)"
    using assms(4-6) p(1) g(1)
    by (simp add: claim_transition_def structural_refusal_def then_return_def split_beta)
  then show ?thesis using g(2) assms(5,6) by (simp add: authorized_def)
qed

lemma due_grant:
  assumes "keyed f" "lock f = None" "valid incumbent" "valid set_id"
    and "ds_attempt_sequence (fb_state f) \<noteq> UINT64_MAX" "ds_decision_sequence (fb_state f) \<noteq> UINT64_MAX"
    and "map_of (fb_sets f) set_id = Some st" "ds_has_policy (fb_state f)"
    and "ds_has_obligations (fb_state f)"
    and "evaluate (selection_input incumbent st (ds_decision_sequence (fb_state f) + 1)
      (ds_attempt_sequence (fb_state f) + 1) f) = Inr out"
    and "pd_outcome out = PromotionOutcome_authorized"
    and "ready 2 (fb_store f)" "has_room (ds_attempt_sequence (fb_state f) + 1) f" "spare 310 f"
  shows "\<exists>auth g. begin_promotion incumbent c set_id f = (Inr auth, g) \<and> authorized auth"
proof -
  let ?f = "f\<lparr>fb_active_attempt := absent\<rparr>"
  let ?d = "out\<lparr>pd_authority_kind := AuthorityKind_grant\<rparr>"
  have k: "keyed ?f" using assms(1) by (simp add: keyed_def)
  have same: "selection_input incumbent st n i ?f = selection_input incumbent st n i f" for n i
    by (simp add: selection_input_def fenced_path_ids_locked_def)
  have sel: "select_locked incumbent c set_id (ds_decision_sequence (fb_state ?f) + 1)
      (ds_attempt_sequence (fb_state ?f) + 1) AuthorityKind_grant ?f = Inr ?d"
    using assms(7-10) by (simp add: select_locked_def same)
  obtain m where "pd_selected ?d = ca_path m" "st_ok (validate_candidate m)"
    using grant_member [OF sel] assms(11) by auto
  then have "valid (pd_selected ?d)" by (simp add: validation)
  then have "\<exists>auth g. claim_transition incumbent c set_id ?f = (Inr auth, g) \<and> authorized auth"
    using assms(5,11-14)
    by (intro ready_claim [OF k _ _ sel]) (simp_all add: UINT64_MAX_def has_room_def spare_def)
  then show ?thesis
    using assms(2-6) by (simp add: begin_promotion_def lock_def split: if_splits)
qed

section \<open>Recovered attempts\<close>

lemma fold_emplace_other:
  "key v \<notin> key ` set xs \<Longrightarrow>
   map_of (foldl (\<lambda>m x. map_emplace (key x) x m) m xs) (key v) = map_of m (key v)"
  by (induction xs arbitrary: m) (auto simp: find_emplace)

lemma fold_emplace_find:
  "distinct (map key xs) \<Longrightarrow> v \<in> set xs \<Longrightarrow> map_of m (key v) = None \<Longrightarrow>
   map_of (foldl (\<lambda>m x. map_emplace (key x) x m) m xs) (key v) = Some v"
proof (induction xs arbitrary: m)
  case (Cons x xs)
  show ?case
  proof (cases "v = x")
    case True
    then show ?thesis using Cons.prems fold_emplace_other [of key v xs] by (simp add: find_emplace)
  next
    case False
    then have "v \<in> set xs" using Cons.prems by auto
    moreover have "key x \<notin> key ` set xs" using Cons.prems(1) by simp
    ultimately have "v \<in> set xs" "key v \<noteq> key x" by (auto, metis imageI)
    then show ?thesis using Cons by (simp add: find_emplace)
  qed
qed simp

lemma loaded_attempt:
  assumes "load store = Inr (state, store')" "a \<in> set (ds_attempts state)"
  shows "map_of (fb_attempts (loaded_fabric options s state)) (ar_id a) = Some a"
proof -
  have "distinct (map ar_id (ds_attempts state))"
    using bounded.loaded [OF assms(1)] by (simp add: bounded_state_def)
  then show ?thesis
    using fold_emplace_find [of ar_id "ds_attempts state" a "[]"] assms(2)
    by (simp add: loaded_fabric_def)
qed

section \<open>A sample coordinator\<close>

text \<open>The sample set, policy and obligations of the selector, installed on an empty store.\<close>

definition sample_state :: DurableState where
  "sample_state = empty_state\<lparr>ds_authority := sample_vector, ds_has_policy := True,
     ds_policy := sample_policy, ds_has_obligations := True, ds_obligations := sample_obligations,
     ds_sets := [sample_set (filter (\<lambda>c. ca_path c \<in> {1, 2}) sample_members)],
     ds_decision_sequence := 10\<rparr>"

definition sample_fabric :: Fabric where
  "sample_fabric = (loaded_fabric default_fabric_options (fresh_store [] []) sample_state)
     \<lparr>fb_path_fences := [(4, Reason_none)]\<rparr>"

definition promoting_input :: SelectionInput where
  "promoting_input = settled_input\<lparr>si_attempt := 1\<rparr>"

lemma promoting_run:
  "pd_outcome (decided promoting_input) = PromotionOutcome_authorized"
  "pd_selected (decided promoting_input) = 2"
  by (simp_all add: promoting_input_def run_defs sample_defs score_defs classify_defs limit_defs
      validation)

lemma sample_selection:
  "selection_input 9 (sample_set (filter (\<lambda>c. ca_path c \<in> {1, 2}) sample_members)) 11 1 sample_fabric =
   promoting_input"
  by (simp add: promoting_input_def settled_input_def sample_input_def selection_input_def
      sample_fabric_def loaded_fabric_def sample_state_def fenced_path_ids_locked_def sample_set_def
      default_fabric_options_def)

lemma sample_keyed: "keyed sample_fabric"
  using keyed_loaded [of default_fabric_options "fresh_store [] []" sample_state]
  by (simp add: keyed_def sample_fabric_def)

lemma sample_parts:
  "fb_attempts sample_fabric = []" "fb_active_attempt sample_fabric = absent"
  "ds_attempt_sequence (fb_state sample_fabric) = 0"
  "ds_decision_sequence (fb_state sample_fabric) = 10" "ds_has_policy (fb_state sample_fabric)"
  "ds_has_obligations (fb_state sample_fabric)" "fb_store sample_fabric = fresh_store [] []"
  "fb_options sample_fabric = default_fabric_options"
  "map_of (fb_sets sample_fabric) 1 =
     Some (sample_set (filter (\<lambda>c. ca_path c \<in> {1, 2}) sample_members))"
  by (simp_all add: sample_fabric_def loaded_fabric_def sample_state_def empty_state_def
      find_emplace sample_set_def)

lemma sample_ready: "ready 2 (fb_store sample_fabric)" "spare 310 sample_fabric"
  "has_room i sample_fabric" "lock sample_fabric = None"
  by (simp_all add: sample_parts ready_def spare_def has_room_def fresh_store_def lock_def
      owner_active_def valid_def absent_def default_fabric_options_def max_record_payload_def
      max_journal_bytes_def)

lemma sample_grant:
  "\<exists>auth g. begin_promotion 9 IncumbentCondition_failed 1 sample_fabric = (Inr auth, g) \<and>
     authorized auth"
  using due_grant [OF sample_keyed sample_ready(4), of 9 1, OF _ _ _ _ sample_parts(9,5,6)
      _ _ sample_ready(1) _ sample_ready(2), of "decided promoting_input" IncumbentCondition_failed]
    sample_ready(3) promoting_run(1) sample_selection evaluate_decided [of promoting_input]
  by (simp add: sample_parts UINT64_MAX_def valid_def)

text \<open>The sample while attempt 1 owns the transition, and an effect that completes it.\<close>

definition sample_attempt :: AttemptRecord where
  "sample_attempt = \<lparr>ar_id = 1, ar_epoch = 6, ar_boot = 7, ar_incumbent = 9, ar_selected = 2,
     ar_set = 1, ar_set_generation = 1, ar_basis = sample_vector,
     ar_state = AttemptState_authorized, ar_terminal_reason = Reason_none, ar_begin_sequence = 1,
     ar_terminal_sequence = 0, ar_revalidations = 0\<rparr>"

definition holding :: "AttemptState \<Rightarrow> Fabric" where
  "holding st = with_state (\<lambda>s. s\<lparr>ds_attempt_sequence := 1\<rparr>)
     (sample_fabric\<lparr>fb_attempts := [(1, sample_attempt\<lparr>ar_state := st\<rparr>)], fb_active_attempt := 1\<rparr>)"

definition sample_effect :: EffectEvidence where
  "sample_effect = \<lparr>ee_id = 1, ee_path = 2, ee_observation_seq = 5, ee_effect_verified = True,
     ee_observed_under = sample_vector, ee_provenance = Provenance_synthetic\<rparr>"

lemma holding_parts:
  "fb_attempts (holding st) = [(1, sample_attempt\<lparr>ar_state := st\<rparr>)]"
  "fb_active_attempt (holding st) = 1" "fb_store (holding st) = fresh_store [] []"
  "fb_options (holding st) = default_fabric_options" "fb_evidence (holding st) = []"
  "ds_authority (fb_state (holding st)) = sample_vector"
  "ds_attempt_sequence (fb_state (holding st)) = 1" "fb_path_fences (holding st) = [(4, Reason_none)]"
  by (simp_all add: holding_def with_state_def sample_fabric_def loaded_fabric_def sample_state_def)

lemma holding_keyed: "keyed (holding st)"
  by (auto simp: keyed_def holding_parts sample_attempt_def ordered_def)

lemma sample_vector_current: "cmp_overall (classify sample_vector sample_vector) = AuthorityClass_current"
  by (simp add: sample_vector_def classify_defs valid_def)

lemma holding_accepts:
  "effect_refusal 1 sample_effect (sample_attempt\<lparr>ar_state := AttemptState_authorized\<rparr>)
     (holding AttemptState_authorized) = None"
  by (simp add: effect_refusal_def holding_parts sample_attempt_def sample_effect_def
      sample_vector_current validation valid_def)

lemma due_commit:
  assumes "keyed f" "map_of (fb_attempts f) i = Some b" "effect_refusal i e b f = None"
    and "ready 2 (fb_store f)" "spare 298 f"
  shows "st_ok (fst (record_effect i e f))"
proof -
  let ?a = "ended AttemptState_committed Reason_none f b"
  let ?s = "store_attempt i ?a f"
  let ?p = "persist_attempt_locked ?a False ?s"
  have "ar_id ?a = i" using keyedD(2) [OF assms(1,2)] by (simp add: ended_def)
  then have p: "fst ?p = ok_status" "ready 1 (fb_store (snd ?p))" "spare 143 (snd ?p)"
    using ready_persist [of 1 ?s ?a 143 False] assms(4,5)
    by (simp_all add: store_attempt_def has_room_def spare_def numeral_2_eq_2)
  have l: "fst (persist_lineage_locked l (snd ?p)) = ok_status"
    "spare 0 (snd (persist_lineage_locked l (snd ?p)))" for l
    using ready_lineage [of 0 "snd ?p" 0] p by simp_all
  have "spare 0 (tally u (f\<lparr>fb_evidence := m, fb_active_attempt := x, fb_grants := y\<rparr>)) = spare 0 f"
    for f u m x y by (simp add: spare_def tally_def)
  then show ?thesis
    using assms(2,3) p(1) l
    by (simp add: record_effect_def find_attempt_locked_def then_do_def split_beta Let_def
        spare_compact)
qed

lemma holding_commits:
  "st_ok (fst (record_effect 1 sample_effect (holding AttemptState_authorized)))"
  by (rule due_commit [OF holding_keyed _ holding_accepts])
    (simp_all add: holding_parts ready_def spare_def fresh_store_def default_fabric_options_def
      max_record_payload_def max_journal_bytes_def)

lemma sample_policy_differs: "ds_policy (fb_state sample_fabric) \<noteq> sample_policy\<lparr>fp_generation := 6\<rparr>"
  by (simp add: sample_fabric_def loaded_fabric_def sample_state_def sample_policy_def
      default_policy_def)

lemma sample_policy_change:
  "st_ok (fst (fabric_apply_policy (sample_policy\<lparr>fp_generation := 6\<rparr>) sample_fabric)) \<and>
   ds_policy (fb_state (snd (fabric_apply_policy (sample_policy\<lparr>fp_generation := 6\<rparr>) sample_fabric))) =
     sample_policy\<lparr>fp_generation := 6\<rparr>"
proof -
  let ?p = "sample_policy\<lparr>fp_generation := 6\<rparr>"
  let ?a = "append_locked RecordType_policy_set (encode_policy_record ?p) sample_fabric"
  let ?g = "with_state (\<lambda>s. s\<lparr>ds_policy := ?p, ds_has_policy := True,
    ds_authority := (ds_authority s)\<lparr>av_policy := fp_generation ?p\<rparr>\<rparr>) (snd ?a)"
  have a: "fst ?a = ok_status" "sr_journal_bytes (fb_store (snd ?a)) = 90"
    using ready_append_locked [of 1 sample_fabric "encode_policy_record ?p" RecordType_policy_set]
      sample_ready(1)
    by (simp_all add: payload_lengths max_record_payload_def numeral_2_eq_2 sample_parts
        fresh_store_def)
  have same: "fb_attempts (snd ?a) = []" "fb_options (snd ?a) = default_fabric_options"
    using calm_append [of sample_fabric RecordType_policy_set "encode_policy_record ?p"]
    by (simp_all add: calm_def sample_parts)
  have valid1: "st_ok (validate_policy ?p)"
    by (simp add: validation sample_policy_def default_policy_def valid_def score_defs limit_defs)
  have "fabric_apply_policy ?p sample_fabric = (ok_status, ?g)"
    using valid1 a same
    by (simp add: fabric_apply_policy_def Let_def then_do_def split_beta fence_attempts_locked_def
        active_ids_def compact_if_needed_locked_def default_fabric_options_def max_journal_bytes_def
        with_state_def sample_fabric_def loaded_fabric_def sample_state_def sample_policy_def)
  then show ?thesis by (simp add: with_state_def)
qed

lemma first_fence: "st_ok (fst (fabric_fence_path 4 Reason_none first_fabric))"
proof -
  let ?l = "loaded_fabric default_fabric_options (fresh_store [] []) empty_state"
  let ?e = "advance_epoch first_process ?l"
  let ?a = "append_locked RecordType_epoch_advance (epoch_payload (fb_state ?e)) ?e"
  have len: "length (epoch_payload (fb_state ?e)) = 80"
    using payload_lengths(2) by (simp add: epoch_payload_def)
  have ready: "ready 2 (fb_store ?e)"
    by (simp add: ready_def fresh_store_def loaded_fabric_def advance_epoch_def Let_def
        max_record_payload_def max_journal_bytes_def)
  have a: "ready 1 (fb_store (snd ?a))" "sr_journal_bytes (fb_store (snd ?a)) = 108"
    using ready_append_locked(2,3) [of 1 ?e "epoch_payload (fb_state ?e)" RecordType_epoch_advance]
      ready len
    by (simp_all add: numeral_2_eq_2 max_record_payload_def loaded_fabric_def advance_epoch_def
        Let_def fresh_store_def)
  have calm: "calm ?e (snd ?a)" by (rule calm_append)
  have fs: "ds_fence_sequence (fb_state (snd ?a)) = 0"
    by (simp add: append_locked_def split_beta Let_def tally_def with_state_def loaded_fabric_def
        advance_epoch_def empty_state_def)
  have parts: "fb_store first_fabric = fb_store (snd ?a)" "fb_attempts first_fabric = []"
    "fb_options first_fabric = default_fabric_options" "ds_fences (fb_state first_fabric) = []"
    "ds_fence_sequence (fb_state first_fabric) = 0" "fb_path_fences first_fabric = []"
    using calm fs
    by (simp_all add: first_fabric_def settled_def sync_attempts_locked_def with_state_def calm_defs
        loaded_fabric_def advance_epoch_def Let_def empty_state_def)
  have b: "fst (append_locked RecordType_fence_recorded (encode_fence_record r) first_fabric) =
      ok_status \<and> sr_journal_bytes (fb_store (snd (append_locked RecordType_fence_recorded
        (encode_fence_record r) first_fabric))) = 234 \<and>
      fb_attempts (snd (append_locked RecordType_fence_recorded (encode_fence_record r) first_fabric)) = [] \<and>
      fb_options (snd (append_locked RecordType_fence_recorded (encode_fence_record r) first_fabric)) =
        default_fabric_options" for r
    using ready_append_locked [of 0 first_fabric "encode_fence_record r" RecordType_fence_recorded] a
      calm_append [of first_fabric RecordType_fence_recorded "encode_fence_record r"]
    by (simp add: payload_lengths max_record_payload_def parts calm_def)
  show ?thesis
    using b by (simp add: fabric_fence_path_def record_fence_locked_def persist_fence_locked_def parts
        then_do_def split_beta Let_def UINT64_MAX_def max_fences_def valid_def with_state_def tally_def
        compact_if_needed_locked_def default_fabric_options_def max_journal_bytes_def)
qed

section \<open>Fenced paths\<close>

lemma granted_member:
  assumes "keyed f" "begin_promotion incumbent c set_id f = (Inr auth, g)" "authorized auth"
  shows "lock f = None \<and> lock g = Some (gr_attempt (pa_grant auth)) \<and>
    gr_attempt (pa_grant auth) = ds_attempt_sequence (fb_state f) + 1 \<and>
    gr_basis (pa_grant auth) = fabric_authority f \<and> fabric_authority g = fabric_authority f \<and>
    (\<exists>st m. query_alternate_set set_id f = Inr st \<and> m \<in> set (as_candidates st) \<and>
      gr_path (pa_grant auth) = ca_path m \<and> map_of (fb_path_fences f) (ca_path m) = None \<and>
      legal_alternate (selection_input incumbent st (ds_decision_sequence (fb_state f) + 1)
        (ds_attempt_sequence (fb_state f) + 1) f) (ds_policy (fb_state f))
        (ds_obligations (fb_state f)) m \<and>
      (\<exists>a. query_attempt (gr_attempt (pa_grant auth)) g = Inr a \<and>
        ar_state a = AttemptState_authorized \<and> ar_selected a = ca_path m))"
proof -
  let ?f = "f\<lparr>fb_active_attempt := absent\<rparr>"
  note b = begin_result [OF assms(2,3)]
  have k: "keyed ?f" "ds_attempt_sequence (fb_state ?f) \<noteq> - 1" "fb_active_attempt ?f = absent"
    using assms(1) b(3) by (simp_all add: keyed_def)
  obtain d a h where r: "select_locked incumbent c set_id (ds_decision_sequence (fb_state ?f) + 1)
       (ds_attempt_sequence (fb_state ?f) + 1) AuthorityKind_grant ?f = Inr d"
    "pd_outcome d = PromotionOutcome_authorized" "ar_selected a = pd_selected d"
    "valid (ar_id a)" "ds_authority (fb_state h) = ds_authority (fb_state ?f)"
    "map_of (fb_attempts h) (ar_id a) = Some a" "issue_grant a d h = (Inr auth, g)"
    "ar_id a = ds_attempt_sequence (fb_state ?f) + 1"
    using claimed_result [OF k b(4) assms(3)] by metis
  obtain st m where m: "map_of (fb_sets ?f) set_id = Some st" "m \<in> set (as_candidates st)"
    "pd_selected d = ca_path m" "map_of (fb_path_fences ?f) (ca_path m) = None"
    "legal_alternate (selection_input incumbent st (ds_decision_sequence (fb_state ?f) + 1)
       (ds_attempt_sequence (fb_state ?f) + 1) ?f) (ds_policy (fb_state ?f))
       (ds_obligations (fb_state ?f)) m"
    using grant_member [OF r(1,2)] by metis
  have same: "selection_input incumbent st n i ?f = selection_input incumbent st n i f" for n i
    by (simp add: selection_input_def fenced_path_ids_locked_def)
  note g = issue_grant_owner [OF r(7,6,4)]
  have "gr_attempt (pa_grant auth) = ar_id a" "gr_path (pa_grant auth) = pd_selected d"
    "gr_basis (pa_grant auth) = ds_authority (fb_state f)"
    using g(6) r(5) by (simp_all add: grant_for_def)
  moreover have "query_alternate_set set_id f = Inr st" using m(1) by (simp add: query_alternate_set_def)
  ultimately show ?thesis
    using b(1) g(1-3) m r(3,5,8) by (auto simp: fabric_authority_def same query_attempt_def)
qed

lemma granted_not_fenced:
  assumes "keyed f" "begin_promotion incumbent c set_id f = (Inr auth, g)" "authorized auth"
  shows "map_of (fb_path_fences f) (gr_path (pa_grant auth)) = None"
  using granted_member [OF assms] by auto

lemma fenced_not_valid: "map_of (fb_path_fences f) (pe_path e) \<noteq> None \<Longrightarrow>
  \<not> st_ok (fst (validate_target_locked e f))"
  by (simp add: validate_target_locked_def Let_def refuse_target_def)

lemma fenced_not_reverted:
  "map_of (fb_path_fences f) (pe_path e) \<noteq> None \<Longrightarrow> \<exists>s. fst (revert i e f) = Inl s"
  using fenced_not_valid [of f e] by (auto simp: revert_def split: option.split prod.split)

lemma fence_path_fences:
  assumes "keyed f" "fabric_fence_path path reason f = (status, g)" "st_ok status"
  shows "map_of (fb_path_fences g) path \<noteq> None"
proof (cases "map_of (fb_path_fences f) path")
  case None
  let ?r = "record_fence_locked absent path reason f"
  let ?e = "tally fs_fences_recorded_update ((snd ?r)\<lparr>fb_path_fences :=
    map_emplace path reason (fb_path_fences (snd ?r))\<rparr>)"
  have v: "valid path" using assms(2,3) by (auto simp: fabric_fence_path_def split: if_splits)
  have "then_do ?r (\<lambda>f. (let f = tally fs_fences_recorded_update
        (f\<lparr>fb_path_fences := map_emplace path reason (fb_path_fences f)\<rparr>)
      in then_do (fence_targeting path (map fst (fb_attempts f)) f) compact_if_needed_locked)) =
      (status, g)"
    using assms(2) None v by (simp add: fabric_fence_path_def)
  note ok = then_do_ok [OF this assms(3)]
  have ke: "keyed ?e"
    using steps_keyed [OF steps_trans [OF steps_record_path_fence [OF v] steps_tally] assms(1)] ok
    by blast
  have "steps ?e (snd (then_do (fence_targeting path is ?e) compact_if_needed_locked))" for "is"
    by (intro steps_then_do fence_targeting_steps [OF ke] steps_compact)
  then have "steps ?e g" using conjunct2 [OF ok, unfolded Let_def] by (metis snd_conv)
  then have "fences_kept ?e g"
    using fence_order.from_start.moved [OF steps_moves ke] fence_order.same by blast
  moreover have "map_of (fb_path_fences ?e) path \<noteq> None" by (simp add: tally_def find_emplace)
  ultimately show ?thesis by (auto simp: fences_kept_def map_le_def dom_def)
next
  case (Some r)
  then have "g = f" using assms(2) by (auto simp: fabric_fence_path_def split: if_splits)
  then show ?thesis using Some by simp
qed

section \<open>Reversion\<close>

lemma target_checks:
  assumes "st_ok (fst (validate_target_locked e f))"
  shows "st_ok (validate_evidence e) \<and>
    cmp_overall (classify (pe_observed_under e) (ds_authority (fb_state f))) = AuthorityClass_current \<and>
    pe_freshness e = Freshness_fresh \<and> pe_eligibility e = Eligibility_eligible \<and>
    map_of (fb_path_fences f) (pe_path e) = None"
  using assms unfolding validate_target_locked_def Let_def refuse_target_def
  by (simp only: split: if_splits) simp_all

lemma reversion_result:
  assumes "keyed f" "st_ok (fst (validate_target_locked e f))" "\<not> valid (fb_active_attempt f)"
    "ds_attempt_sequence (fb_state f) \<noteq> - 1" "apply_reversion b e reason f = (Inr d, g)"
  shows "pd_outcome d = PromotionOutcome_reverted \<and> pd_selected d = pe_path e \<and>
    (\<exists>a. map_of (fb_attempts g) (pd_attempt d) = Some a \<and> ar_state a = AttemptState_committed \<and>
      ar_incumbent a = ar_selected b \<and> ar_selected a = pe_path e)"
proof -
  let ?i = "ds_attempt_sequence (fb_state f) + 1"
  let ?f = "tally fs_revalidations_update f"
  define a where "a = reverting_attempt ?i b e reason ?f"
  have id: "ar_id a = ?i" "ar_state a = AttemptState_committed" "ar_selected a = pe_path e"
    "ar_incumbent a = ar_selected b" by (simp_all add: a_def reverting_attempt_def)
  let ?p = "persist_attempt_locked a True ?f"
  let ?next = "with_state (\<lambda>s. s\<lparr>ds_attempt_sequence := ds_attempt_sequence s + 1,
    ds_decision_sequence := ds_decision_sequence s + 1\<rparr>)"
  note r1 = then_return_ok [OF assms(5) [unfolded apply_reversion_def Let_def, folded a_def]]
  note r2 = then_return_ok [OF r1(2)]
  note r3 = then_return_ok [OF r2(2)]
  have "admissible a ?f"
    using admissible_view [of a f ?f] assms(2) id
    by (auto simp: admissible_def same_target_view_def tally_def)
  then have "map_of (fb_attempts (snd ?p)) (ar_id a) = Some a"
    using persist_claim [OF steps_keyed [OF steps_tally assms(1)], of _ a True] assms(3,4) id(1) r1(1)
    by (simp add: tally_def valid_def absent_def)
  moreover have "fb_attempts g = fb_attempts (snd ?p)"
    using r3(2) calm_compact by (auto simp: calm_def tally_def lineage_keeps with_state_def)
  moreover have "d = reverting_decision (ds_decision_sequence (fb_state f) + 1) ?i b e reason ?f"
    using r3(2) by simp
  ultimately show ?thesis using id by (simp add: reverting_decision_def)
qed

lemma due_reversion:
  assumes "ready 2 (fb_store f)" "has_room (ds_attempt_sequence (fb_state f) + 1) f" "spare 298 f"
  shows "\<exists>d g. apply_reversion b e reason f = (Inr d, g)"
proof -
  let ?f = "tally fs_revalidations_update f"
  define a where "a = reverting_attempt (ds_attempt_sequence (fb_state f) + 1) b e reason ?f"
  let ?p = "persist_attempt_locked a True ?f"
  let ?next = "with_state (\<lambda>s. s\<lparr>ds_attempt_sequence := ds_attempt_sequence s + 1,
    ds_decision_sequence := ds_decision_sequence s + 1\<rparr>)"
  have "ar_id a = ds_attempt_sequence (fb_state f) + 1" by (simp add: a_def reverting_attempt_def)
  then have p: "fst ?p = ok_status" "ready 1 (fb_store (snd ?p))" "spare 143 (snd ?p)"
    using ready_persist [of 1 ?f a 143 True] assms
    by (simp_all add: tally_def has_room_def spare_def numeral_2_eq_2)
  have l: "fst (persist_lineage_locked l (?next (snd ?p))) = ok_status"
    "spare 0 (snd (persist_lineage_locked l (?next (snd ?p))))" for l
    using ready_lineage [of 0 "?next (snd ?p)" 0] p(2,3) by (simp_all add: with_state_def spare_def)
  have "spare 0 (tally u f) = spare 0 f" for f u by (simp add: spare_def tally_def)
  then show ?thesis
    unfolding apply_reversion_def Let_def a_def [symmetric]
    using p(1) l by (simp add: then_return_def split_beta spare_compact)
qed

text \<open>The sample after attempt 1 was committed and released.\<close>

definition promoted :: Fabric where
  "promoted = (holding AttemptState_committed)\<lparr>fb_active_attempt := absent\<rparr>"

lemma promoted_parts:
  "fb_attempts promoted = [(1, sample_attempt\<lparr>ar_state := AttemptState_committed\<rparr>)]"
  "fb_active_attempt promoted = absent" "fb_store promoted = fresh_store [] []"
  "fb_options promoted = default_fabric_options"
  "ds_attempt_sequence (fb_state promoted) = 1" "ds_decision_sequence (fb_state promoted) = 10"
  "ds_policy (fb_state promoted) = sample_policy"
  by (simp_all add: promoted_def holding_parts)
    (simp_all add: holding_def sample_fabric_def loaded_fabric_def sample_state_def with_state_def)

lemma promoted_keyed: "keyed promoted"
  by (auto simp: keyed_def promoted_parts sample_attempt_def ordered_def)

lemma promoted_target:
  "st_ok (fst (validate_target_locked (sample_evidence 1 Eligibility_eligible 500000) promoted))"
  by (simp add: validate_target_locked_def promoted_def holding_def sample_fabric_def
      loaded_fabric_def sample_state_def with_state_def sample_evidence_def sample_vector_current
      validation valid_def sample_obligations_def default_obligations_def score_defs limit_defs)

lemma promoted_reverts:
  "\<exists>d g. revert 1 (sample_evidence 1 Eligibility_eligible 500000) promoted = (Inr d, g)"
proof -
  let ?e = "sample_evidence 1 Eligibility_eligible 500000"
  have "\<exists>d g. apply_reversion b ?e reason promoted = (Inr d, g)" for b reason
    by (rule due_reversion) (simp_all add: promoted_parts ready_def has_room_def spare_def
        fresh_store_def default_fabric_options_def max_record_payload_def max_journal_bytes_def)
  then show ?thesis
    using promoted_target
    by (simp add: revert_def promoted_parts split_beta revalidation_exhausted_def sample_attempt_def
        sample_policy_def default_policy_def UINT64_MAX_def valid_def absent_def)
qed

definition closed_holding :: Fabric where
  "closed_holding = (holding AttemptState_authorized)
     \<lparr>fb_store := (fresh_store [] [])\<lparr>sr_closed := True\<rparr>\<rparr>"

definition behind :: Fabric where
  "behind = sample_fabric\<lparr>fb_attempts := [(1, sample_attempt\<lparr>ar_state := AttemptState_committed\<rparr>)]\<rparr>"

end
