(* ===== verification/PFF_Guarantees.thy ===== *)
theory PFF_Guarantees
  imports PFF_Progress
begin

text \<open>
  The guarantees of the coordinator. Safety properties hold for every reachable state and every
  answer of the journal; progress is stated for a journal that accepts the records.
\<close>

lemma grants_exclusive:
  assumes "reachable f"
  shows "length (filter (\<lambda>a. is_grant_state (ar_state a)) (query_attempts f)) \<le> 1"
    "query_attempt i f = Inr a \<Longrightarrow> is_grant_state (ar_state a) \<Longrightarrow> lock f = Some i"
proof -
  let ?P = "\<lambda>e. is_grant_state (ar_state (snd e))"
  have k: "keyed f" and o: "single_owner f"
    using assms reachable_keyed owner.always by blast+
  have "fst e = fb_active_attempt f" if "e \<in> set (filter ?P (fb_attempts f))" for e
    using that o smap.entry_find [OF keyedD(1) [OF k], of "fst e" "snd e"]
    by (auto simp: single_owner_def)
  moreover have "distinct (map fst (filter ?P (fb_attempts f)))"
    using smap.distinct_entries [OF keyedD(1) [OF k]] by (rule distinct_map_filter)
  ultimately have "length (map fst (filter ?P (fb_attempts f))) \<le> card {fb_active_attempt f}"
    using distinct_card [of "map fst (filter ?P (fb_attempts f))"]
      card_mono [of "{fb_active_attempt f}" "set (map fst (filter ?P (fb_attempts f)))"]
    by fastforce
  moreover have "length (filter (\<lambda>a. is_grant_state (ar_state a)) (query_attempts f)) =
      length (filter ?P (fb_attempts f))"
    by (simp add: query_attempts_def filter_map comp_def)
  moreover have "lock f = Some i" if "query_attempt i f = Inr a" "is_grant_state (ar_state a)" for i a
    using that o grant_active
    by (auto simp: query_attempt_def single_owner_def lock_def owner_active_def split: option.splits)
  ultimately show "length (filter (\<lambda>a. is_grant_state (ar_state a)) (query_attempts f)) \<le> 1"
    "query_attempt i f = Inr a \<Longrightarrow> is_grant_state (ar_state a) \<Longrightarrow> lock f = Some i"
    by simp_all
qed

section \<open>Guarantees\<close>

text \<open>
  C1: Exclusive ownership. In every state a coordinator can reach, whatever the journal writes
  answered, at most one attempt holds a grant, and it is the attempt that owns the transition.
\<close>

theorem one_grant:
  assumes "reachable f"
  shows "length (filter (\<lambda>a. is_grant_state (ar_state a)) (query_attempts f)) \<le> 1 \<and>
    (\<forall>i a. query_attempt i f = Inr a \<and> is_grant_state (ar_state a) \<longrightarrow> lock f = Some i)"
  using grants_exclusive [OF assms] by blast

theorem one_grant_witness:
  "length (filter (\<lambda>a. is_grant_state (ar_state a)) (query_attempts (run
     [Begin_promotion 9 IncumbentCondition_failed 1, Fence_all Reason_authority_fenced] first_fabric))) \<le> 1"
  using one_grant [OF first_reachable] by blast

text \<open>
  C9: Ownership refines a lock. For every call in every reachable state the owner before and after
  satisfies the contract of the lock: a promotion takes only a free lock, a held one is neither
  stolen nor released by calls for another attempt, and it is given up only through the holder's own
  completion, abandonment or rollback or through fencing and authority changes.
\<close>

theorem ownership_refines_lock:
  assumes "reachable f"
  shows "lock_spec c (lock f) (lock (perform c f))"
  by (rule perform_lock [OF reachable_keyed [OF assms]])

theorem ownership_refines_lock_witness:
  "lock_spec (Abandon_attempt 1 Reason_none) (lock first_fabric)
     (lock (perform (Abandon_attempt 1 Reason_none) first_fabric))"
  using ownership_refines_lock [OF first_reachable [of "[]"], of "Abandon_attempt 1 Reason_none"]
  unfolding run_simps .

text \<open>
  C7: A grant is sound. Whenever \<open>begin_promotion\<close> returns an authorization, nothing owned the
  transition before; the granted path is a member of the installed set, legal under the installed
  policy, obligations and current authority vector, and not fenced; the grant is bound to that
  vector, and its attempt now owns the transition.
\<close>

theorem grant_sound:
  assumes "keyed f" "begin_promotion incumbent c set_id f = (Inr auth, g)" "authorized auth"
  shows "lock f = None \<and> lock g = Some (gr_attempt (pa_grant auth)) \<and>
    gr_attempt (pa_grant auth) = ds_attempt_sequence (fb_state f) + 1 \<and>
    gr_basis (pa_grant auth) = fabric_authority f \<and> fabric_authority g = fabric_authority f \<and>
    (\<exists>st m. query_alternate_set set_id f = Inr st \<and> m \<in> set (as_candidates st) \<and>
      gr_path (pa_grant auth) = ca_path m \<and> map_of (fb_path_fences f) (ca_path m) = None \<and>
      legal_alternate (selection_input incumbent st (ds_decision_sequence (fb_state f) + 1)
        (ds_attempt_sequence (fb_state f) + 1) f) (ds_policy (fb_state f))
        (ds_obligations (fb_state f)) m \<and>
      (\<exists>a. query_attempt (gr_attempt (pa_grant auth)) g = Inr a \<and>
        ar_state a = AttemptState_authorized \<and> ar_selected a = ca_path m))"
  by (rule granted_member [OF assms])

theorem grant_sound_witness:
  "\<exists>auth g. begin_promotion 9 IncumbentCondition_failed 1 sample_fabric = (Inr auth, g) \<and>
     lock g = Some (gr_attempt (pa_grant auth)) \<and>
     gr_basis (pa_grant auth) = fabric_authority sample_fabric"
  using sample_grant grant_sound [OF sample_keyed] by metis



text \<open>
  C3: Only a verified effect commits. When \<open>record_effect\<close> reports success, the attempt was active
  and owned the transition, and the effect was valid, named the selected path, was observed under
  exactly the current authority and is newer than every stored observation of the path. Afterwards
  the attempt is committed, ownership and grant are gone, the observation is stored, and the
  promotion is the newest entry of the lineage.
\<close>

theorem commit_verified:
  assumes "keyed f" "record_effect i e f = (status, g)" "st_ok status"
  shows "\<exists>b. query_attempt i f = Inr b \<and> is_active_state (ar_state b) \<and> fb_active_attempt f = i \<and>
    verified_for e b f \<and>
    query_attempt i g = Inr (ended AttemptState_committed Reason_none f b) \<and>
    lock g = None \<and> map_of (fb_grants g) i = None \<and>
    query_evidence (ee_path e) g = Inr (verified_evidence e) \<and> promotion_entered i b g"
proof (rule record_effect_result [OF assms])
  fix b assume b: "map_of (fb_attempts f) i = Some b" "effect_refusal i e b f = None"
    "map_of (fb_attempts g) i = Some (ended AttemptState_committed Reason_none f b)"
    "fb_active_attempt g = absent" "map_of (fb_grants g) i = None"
    "map_of (fb_evidence g) (ee_path e) = Some (verified_evidence e)" "promotion_entered i b g"
  moreover have "lock g = None" using b(4) by (simp add: lock_def owner_active_def valid_def absent_def)
  ultimately show ?thesis
    using effect_accepted [OF b(2)] by (simp add: query_attempt_def query_evidence_def)
qed

theorem commit_verified_witness:
  "query_attempt 1 (snd (record_effect 1 sample_effect (holding AttemptState_authorized))) =
     Inr (ended AttemptState_committed Reason_none (holding AttemptState_authorized) sample_attempt) \<and>
   lock (snd (record_effect 1 sample_effect (holding AttemptState_authorized))) = None"
  using commit_verified [OF holding_keyed prod.collapse [symmetric] holding_commits]
  by (auto simp: query_attempt_def holding_parts sample_attempt_def)

text \<open>
  C36: A completion that is not due changes nothing. When \<open>record_effect\<close> is called for an unknown
  or finished attempt, for one that does not own the transition, or with an effect that is not
  verified for it, it reports an error and leaves the coordinator as it was, except that stale
  completions are counted.
\<close>

theorem undue_effect_changes_nothing:
  assumes "\<forall>b. query_attempt i f = Inr b \<longrightarrow>
    \<not> (is_active_state (ar_state b) \<and> fb_active_attempt f = i \<and> verified_for e b f)"
  shows "\<not> st_ok (fst (record_effect i e f)) \<and>
    snd (record_effect i e f) \<in> {f, tally fs_stale_completions_rejected_update f}"
proof (cases "map_of (fb_attempts f) i")
  case None
  then show ?thesis by (simp add: record_effect_def find_attempt_locked_def unknown_attempt_def)
next
  case (Some b)
  have "query_attempt i f = Inr b" using Some by (simp add: query_attempt_def)
  then have "effect_refusal i e b f \<noteq> None" using effect_accepted assms by blast
  then obtain s x where r: "effect_refusal i e b f = Some (s, x)" by auto
  then show ?thesis
    using Some effect_refusal_fails [OF r] by (simp add: record_effect_def find_attempt_locked_def)
qed

theorem undue_effect_changes_nothing_witness:
  "\<not> st_ok (fst (record_effect 1 sample_effect (holding AttemptState_fenced)))"
  using undue_effect_changes_nothing [of 1 "holding AttemptState_fenced" sample_effect]
  by (simp add: query_attempt_def holding_parts sample_attempt_def)

text \<open>
  C31: Bounds. In every reachable state the attempt table, the alternate sets, the fence records and
  the lineage are within their limits, and a lineage query returns at most what was asked for.
\<close>

theorem tables_bounded:
  assumes "reachable f"
  shows "length (query_attempts f) \<le> max_attempts \<and> alternate_set_count f \<le> max_alternate_sets \<and>
    length (query_fences f) \<le> max_fences \<and>
    length (query_lineage limit f) \<le> min limit max_lineage"
  using tables.always [OF assms]
  by (simp add: within_bounds_def query_attempts_def alternate_set_count_def query_fences_def
      query_lineage_def Let_def min_le_iff_disj)

theorem tables_bounded_witness:
  "length (query_attempts (run [Begin_promotion 9 IncumbentCondition_failed 1] first_fabric)) \<le>
     max_attempts"
  using tables_bounded [OF first_reachable] by blast





text \<open>
  C18: No attempt survives a change of authority. Whenever a new policy, new obligations or a new
  topology is accepted, no attempt is in flight and nothing owns the transition afterwards; an
  accepted call that changes nothing is a repetition of the installed content.
\<close>

theorem authority_change_fences:
  assumes "keyed f"
    and "(status, g) \<in> {fabric_apply_policy p f, fabric_apply_obligations ob f,
      fabric_set_authority a f}" "st_ok status" "g \<noteq> f"
  shows "active_attempt_count g = 0 \<and> lock g = None"
proof -
  consider "fabric_apply_policy p f = (status, g)" | "fabric_apply_obligations ob f = (status, g)"
    | "fabric_set_authority a f = (status, g)" using assms(2) by fastforce
  then show ?thesis
    using policy_change_idle obligations_change_idle topology_change_idle assms(1,3,4)
    by cases blast+
qed

text \<open>
  C17: A start interrupts everything. After a successful \<open>Fabric::open\<close> the epoch is greater than the
  recovered one and the boot is that of the new process; every recovered attempt that was in flight
  is interrupted, every terminal one is as it was, and nothing owns the transition.
\<close>

theorem start_interrupts:
  assumes "fabric_open options (Inr store) info = Inr f" "load store = Inr (state, store')"
  shows "av_epoch (ds_authority state) < av_epoch (fabric_authority f) \<and>
    av_boot (fabric_authority f) = pi_boot info \<and>
    active_attempt_count f = 0 \<and> lock f = None \<and> fb_grants f = [] \<and>
    (\<forall>a \<in> set (ds_attempts state). \<exists>b. query_attempt (ar_id a) f = Inr b \<and>
      (if is_active_state (ar_state a) then ar_state b = AttemptState_interrupted else b = a))"
proof -
  obtain status where r: "restart info (loaded_fabric options store' state) = (status, f)" "st_ok status"
    using open_cases [OF assms(1)] assms(2) by (metis Pair_inject sum.inject(2))
  let ?l = "loaded_fabric options store' state"
  have idle: "active_attempt_count f = 0 \<and> lock f = None \<and> fb_grants f = []"
    using opened_idle [OF assms(1)] idle_lock active_count_zero [OF opened_keyed [OF assms(1)]] by blast
  show ?thesis
  proof (rule restart_cases [OF r keyed_loaded])
    fix h assume h: "same_but_attempts (advance_epoch info ?l) h" "calm (settled h) f"
      "av_epoch (ds_authority (fb_state ?l)) \<noteq> - 1"
      "\<forall>j b. map_of (fb_attempts ?l) j = Some b \<longrightarrow> is_terminal_state (ar_state b) \<longrightarrow>
         map_of (fb_attempts h) j = Some b"
      "\<forall>j. active_at ?l j \<longrightarrow> ended_at Reason_restart_fenced AttemptState_interrupted h j"
    have "ds_authority (fb_state f) = ds_authority (fb_state (advance_epoch info ?l))"
      using h(1,2) by (auto simp: same_but_attempts_def calm_defs with_state_def settled_def
          sync_attempts_locked_def)
    then have epoch: "av_epoch (fabric_authority f) = av_epoch (ds_authority state) + 1"
      "av_boot (fabric_authority f) = pi_boot info"
      by (simp_all add: fabric_authority_def advance_epoch_def Let_def loaded_fabric_def)
    have "av_epoch (ds_authority state) \<noteq> - 1" using h(3) by (simp add: loaded_fabric_def)
    then have less: "av_epoch (ds_authority state) < av_epoch (fabric_authority f)"
      unfolding epoch using word_succ_gt by (simp add: not_le)
    have "\<exists>b. query_attempt (ar_id a) f = Inr b \<and>
        (if is_active_state (ar_state a) then ar_state b = AttemptState_interrupted else b = a)"
      if a: "a \<in> set (ds_attempts state)" for a
    proof -
      have "map_of (fb_attempts ?l) (ar_id a) = Some a"
        using loaded_attempt [OF assms(2) a] by simp
      moreover have "active_at ?l (ar_id a) = is_active_state (ar_state a)"
        using calculation by (simp add: active_at_def)
      ultimately show ?thesis
        using h(4,5) settled_at(1) [OF h(2)]
        by (cases "is_active_state (ar_state a)")
          (auto simp: query_attempt_def ended_at_def is_active_state_def)
    qed
    then show ?thesis using idle less epoch(2) by blast
  qed
qed

theorem start_interrupts_witness:
  "av_epoch (ds_authority empty_state) < av_epoch (fabric_authority first_fabric) \<and>
   lock first_fabric = None"
  using start_interrupts [OF first_start, of empty_state "fresh_store [] []"] first_load by blast

theorem authority_change_fences_witness:
  "\<exists>status g. fabric_apply_policy (sample_policy\<lparr>fp_generation := 6\<rparr>) sample_fabric = (status, g) \<and>
     st_ok status \<and> active_attempt_count g = 0 \<and> lock g = None"
proof -
  obtain status g where g: "fabric_apply_policy (sample_policy\<lparr>fp_generation := 6\<rparr>) sample_fabric =
      (status, g)" by fastforce
  have ok: "st_ok status \<and> ds_policy (fb_state g) = sample_policy\<lparr>fp_generation := 6\<rparr>"
    using sample_policy_change g by simp
  then have "g \<noteq> sample_fabric" using sample_policy_differs by auto
  then show ?thesis
    using authority_change_fences [OF sample_keyed, of status g
        "sample_policy\<lparr>fp_generation := 6\<rparr>"] g ok by auto
qed





text \<open>
  A failed commit is visible. \<open>record_effect\<close> changes the attempt before the journal has taken
  the record: whenever it reports an error for an effect that passed every check, the attempt is
  already committed in memory.
\<close>

theorem failed_commit_visible:
  assumes "keyed f" "query_attempt i f = Inr b" "effect_refusal i e b f = None"
    and "\<not> st_ok (fst (record_effect i e f))"
  shows "query_attempt i (snd (record_effect i e f)) =
    Inr (ended AttemptState_committed Reason_none f b)"
proof -
  have b: "map_of (fb_attempts f) i = Some b"
    using assms(2) by (simp add: query_attempt_def split: option.splits)
  let ?a = "ended AttemptState_committed Reason_none f b"
  let ?s = "store_attempt i ?a f"
  let ?p = "persist_attempt_locked ?a False ?s"
  have "calm ?s (snd ?p)" by (rule store_then_persist(1) [OF assms(1) b]) (simp add: ended_def)
  then have p: "map_of (fb_attempts (snd ?p)) i = Some ?a" by (simp add: calm_def store_attempt_def)
  have "map_of (fb_attempts (snd (compact_if_needed_locked k))) i = map_of (fb_attempts k) i" for k
    using calm_compact [of k] by (simp add: calm_def)
  then show ?thesis
    using b assms(3) p
    by (simp add: record_effect_def find_attempt_locked_def then_do_def split_beta Let_def
        query_attempt_def lineage_keeps tally_def)
qed

theorem failed_commit_visible_witness:
  "\<not> st_ok (fst (record_effect 1 sample_effect closed_holding)) \<and>
   query_attempt 1 (snd (record_effect 1 sample_effect closed_holding)) =
     Inr (ended AttemptState_committed Reason_none closed_holding sample_attempt)"
proof -
  have a: "sample_attempt\<lparr>ar_state := AttemptState_authorized\<rparr> = sample_attempt"
    by (simp add: sample_attempt_def)
  have keyed: "keyed closed_holding"
    by (auto simp: keyed_def closed_holding_def holding_parts sample_attempt_def ordered_def)
  have "query_attempt 1 closed_holding = Inr sample_attempt"
    by (simp add: closed_holding_def query_attempt_def holding_parts a)
  moreover have "effect_refusal 1 sample_effect sample_attempt closed_holding = None"
    by (simp add: effect_refusal_def closed_holding_def holding_parts sample_attempt_def
        sample_effect_def sample_vector_current validation valid_def)
  ultimately have k: "keyed closed_holding" "query_attempt 1 closed_holding = Inr sample_attempt"
    "effect_refusal 1 sample_effect sample_attempt closed_holding = None" using keyed by simp_all
  have "\<not> st_ok (fst (record_effect 1 sample_effect closed_holding))"
    using k(2,3)
    by (simp add: record_effect_def find_attempt_locked_def query_attempt_def then_do_def split_beta
        Let_def persist_attempt_locked_def append_locked_def append_record_def closed_holding_def
        store_attempt_def holding_parts)
  then show ?thesis using failed_commit_visible [OF k] by blast
qed



end
