(* ===== verification/PFF_Service.thy ===== *)
theory PFF_Service
  imports PFF_Server PFF_Guarantees
begin

text \<open>
  What the service does to the coordinator. \<open>requested\<close> is the call a request body asks for;
  \<open>dispatch\<close> performs it when the session header holds and changes nothing otherwise. The sessions
  run as threads: \<open>service_step\<close> interleaves their receives and frames, the accept loop, direct calls
  of the process that owns the coordinator and \<open>request_stop\<close>, and \<open>serve_session\<close> is shown to be a
  sequence of such steps.
\<close>

section \<open>Requests\<close>

definition body_of :: "'a Result reader \<Rightarrow> ByteReader \<Rightarrow> 'a option" where
  "body_of decode reader =
     (case run_state decode reader of
        (Inl status, r) \<Rightarrow> None
      | (Inr value, r) \<Rightarrow> if at_end r then Some value else None)"

definition requested :: "MsgType \<Rightarrow> ByteReader \<Rightarrow> Call option" where
  "requested type reader =
     (case type of
        MsgType_set_policy_req \<Rightarrow> map_option Apply_policy (body_of get_policy reader)
      | MsgType_set_obligations_req \<Rightarrow> map_option Apply_obligations (body_of get_obligations reader)
      | MsgType_put_set_req \<Rightarrow> map_option Apply_alternate_set (body_of get_set reader)
      | MsgType_put_evidence_req \<Rightarrow> map_option Apply_evidence (body_of get_evidence reader)
      | MsgType_set_authority_req \<Rightarrow> map_option Set_authority (body_of get_authority reader)
      | MsgType_evaluate_req \<Rightarrow>
          map_option (\<lambda>q. Evaluate (pr_incumbent q) (pr_condition q) (pr_set q))
            (body_of decode_request_body reader)
      | MsgType_promote_req \<Rightarrow>
          map_option (\<lambda>q. Begin_promotion (pr_incumbent q) (pr_condition q) (pr_set q))
            (body_of decode_request_body reader)
      | MsgType_effect_req \<Rightarrow>
          map_option (\<lambda>b. Record_effect (fst b) (snd b)) (body_of decode_effect_body reader)
      | MsgType_abandon_req \<Rightarrow>
          map_option (\<lambda>b. Abandon_attempt (fst b) (snd b)) (body_of decode_abandon_body reader)
      | MsgType_rollback_req \<Rightarrow>
          map_option (\<lambda>b. Rollback (fst b) (snd b)) (body_of decode_rollback_body reader)
      | MsgType_revert_req \<Rightarrow>
          map_option (\<lambda>b. Revert (fst b) (snd b)) (body_of decode_rollback_body reader)
      | MsgType_fence_req \<Rightarrow>
          map_option (\<lambda>b. Fence_path (fst b) (snd b)) (body_of decode_fence_body reader)
      | _ \<Rightarrow> None)"

context codec
begin

lemma body_at: "wf v \<Longrightarrow> body_of get (reader_at pre (enc v)) = Some v"
  using get_at [of v pre "[]"] by (simp add: body_of_def)

end

definition perform_option :: "Call option \<Rightarrow> Fabric \<Rightarrow> Fabric" where
  "perform_option c f = (case c of None \<Rightarrow> f | Some c \<Rightarrow> perform c f)"

lemma with_body_eq:
  "with_body decode detail k reader f =
     (case body_of decode reader of
        None \<Rightarrow> (error_response Code_invalid Reason_invalid_payload detail, f)
      | Some value \<Rightarrow> k value f)"
  by (simp add: with_body_def body_of_def split: prod.split sum.split)

lemma operation_fabric:
  "snd (acknowledge r) = snd r"
  "snd (do_evaluate q f) = perform (Evaluate (pr_incumbent q) (pr_condition q) (pr_set q)) f"
  "snd (do_promote q f) = perform (Begin_promotion (pr_incumbent q) (pr_condition q) (pr_set q)) f"
  "snd (do_revert i e f) = perform (Revert i e) f"
  "snd (do_attempt i f) = f" "snd (do_lineage n f) = f"
  by (simp_all add: acknowledge_def do_evaluate_def do_promote_def do_revert_def do_attempt_def
      do_lineage_def Let_def split: prod.split sum.split)

text \<open>The switch performs the requested call and no other.\<close>

lemma operate_performs: "snd (operate type reader v) = perform_option (requested type reader) (sv_fabric v)"
  by (cases type)
    (simp_all add: operate_def requested_def perform_option_def with_body_eq operation_fabric Let_def
      split: option.split)

definition accepted_header :: "Frame \<Rightarrow> Session \<Rightarrow> Server \<Rightarrow> (SessionHeader \<times> ByteReader) option" where
  "accepted_header fr session v =
     (case run_state decode_session_header (byte_reader (fm_payload fr)) of
        (Inl status, reader) \<Rightarrow> None
      | (Inr header, reader) \<Rightarrow>
          if header_refusal header session v = None then Some (header, reader) else None)"

lemma header_refusal_None:
  "header_refusal h session v = None \<longleftrightarrow>
     sh_session h = ss_id session \<and> sh_epoch h = ss_epoch session \<and> sh_boot h = ss_boot session \<and>
     ss_last_request_sequence session < sh_request_sequence h \<and>
     sh_request_sequence h \<le> vo_max_requests_per_session (sv_options v)"
  by (auto simp: header_refusal_def not_le word_neq_0_conv)

lemma dispatch_accepted:
  assumes "accepted_header fr session v = Some (h, reader)"
  shows "dispatch fr session v =
    (fst (operate (fm_type fr) reader v), session\<lparr>ss_last_request_sequence := sh_request_sequence h\<rparr>,
     v\<lparr>sv_fabric := perform_option (requested (fm_type fr) reader) (sv_fabric v)\<rparr>)"
  using assms
  by (auto simp: accepted_header_def dispatch_def split_beta simp flip: operate_performs
      split: prod.splits sum.splits if_splits)

lemma dispatch_refused:
  assumes "accepted_header fr session v = None"
  obtains code reason detail where
    "dispatch fr session v = (closing (error_response code reason detail), session, v)"
  using assms
  by (auto simp: accepted_header_def dispatch_def header_refusal_def
      split: prod.splits sum.splits if_splits)

section \<open>What serving a frame leaves alone\<close>

text \<open>The parts of a server the threads share beyond the coordinator and the counters.\<close>

definition same_shell :: "Server \<Rightarrow> Server \<Rightarrow> bool" where
  "same_shell v v' \<longleftrightarrow> sv_options v' = sv_options v \<and> sv_sessions v' = sv_sessions v \<and>
     sv_active_threads v' = sv_active_threads v"

definition same_identity :: "Session \<Rightarrow> Session \<Rightarrow> bool" where
  "same_identity s s' \<longleftrightarrow> ss_socket s' = ss_socket s \<and> ss_id s' = ss_id s \<and>
     ss_epoch s' = ss_epoch s \<and> ss_boot s' = ss_boot s \<and>
     ss_handshake_done s' = ss_handshake_done s \<and> ss_decoder s' = ss_decoder s"

lemma send_frame_effect:
  assumes "send_frame answer type q p session v = (status, session', v')"
  shows "same_shell v v' \<and> same_identity session session' \<and> sv_fabric v' = sv_fabric v \<and>
    sv_session_sequence v' = sv_session_sequence v \<and> sv_stop v' = sv_stop v \<and>
    ss_last_request_sequence session' = ss_last_request_sequence session"
  using send_frame_session [OF assms] by (auto simp: same_shell_def same_identity_def)

lemma refuse_frame_effect:
  assumes "refuse_frame answer fr code reason detail session v = (session', v')"
  shows "same_shell v v' \<and> same_identity session session' \<and> sv_fabric v' = sv_fabric v \<and>
    sv_session_sequence v' = sv_session_sequence v \<and> sv_stop v' = sv_stop v \<and>
    ss_last_request_sequence session' = ss_last_request_sequence session"
  using refuse_frame_session [OF assms] by (auto simp: same_shell_def same_identity_def)

lemma tick_fields [simp]:
  "sv_options (tick c n v) = sv_options v" "sv_sessions (tick c n v) = sv_sessions v"
  "sv_active_threads (tick c n v) = sv_active_threads v" "sv_fabric (tick c n v) = sv_fabric v"
  "sv_session_sequence (tick c n v) = sv_session_sequence v" "sv_stop (tick c n v) = sv_stop v"
  by (simp_all add: tick_def)

definition accepted_call :: "Frame \<Rightarrow> Session \<Rightarrow> Server \<Rightarrow> Call option" where
  "accepted_call fr session v =
     (case accepted_header fr session v of
        None \<Rightarrow> None | Some (h, reader) \<Rightarrow> requested (fm_type fr) reader)"

text \<open>
  A request frame: the accepted call is performed, the request sequence advances with it, and the session
  goes on only when the header was accepted.
\<close>

lemma request_frame_effect:
  assumes "request_frame answer fr session v = (go, session', v')"
  shows "same_shell v v' \<and> same_identity session session' \<and>
    sv_session_sequence v' = sv_session_sequence v \<and>
    sv_fabric v' = perform_option
      (if is_request_type (fm_type fr) then accepted_call fr session v else None) (sv_fabric v) \<and>
    (if is_request_type (fm_type fr) \<and> accepted_header fr session v \<noteq> None
     then ss_last_request_sequence session' =
            sh_request_sequence (fst (the (accepted_header fr session v)))
     else \<not> go \<and> ss_last_request_sequence session' = ss_last_request_sequence session)"
proof (cases "is_request_type (fm_type fr)")
  case False
  then show ?thesis
    using assms refuse_frame_effect by (simp add: request_frame_def perform_option_def) blast
next
  case True
  obtain r s1 v1 where d: "dispatch fr session v = (r, s1, v1)" by (metis prod_cases3)
  define s2 where "s2 = s1\<lparr>ss_requests_handled := ss_requests_handled s1 + 1\<rparr>"
  define v2 where "v2 = (let v = tick vs_requests_handled_update 1 v1 in
    if dr_response_type r = MsgType_error_rsp then tick vs_frames_rejected_update 1 v else v)"
  obtain st s3 v3 where sent: "send_frame answer (dr_response_type r) (fm_sequence fr) (dr_payload r)
      s2 v2 = (st, s3, v3)" by (metis prod_cases3)
  note e = send_frame_effect [OF sent]
  have res: "go = (st_ok st \<and> \<not> dr_close_session r \<and> \<not> dr_stop_server r)" "session' = s3"
    "v' = (if dr_stop_server r then request_stop v3 else v3)"
    using assms True sent by (simp_all add: request_frame_def d Let_def s2_def v2_def)
  have v2: "same_shell v1 v2" "sv_fabric v2 = sv_fabric v1" "sv_session_sequence v2 = sv_session_sequence v1"
    by (simp_all add: v2_def same_shell_def Let_def)
  have v': "same_shell v1 v'" "sv_fabric v' = sv_fabric v1"
    "sv_session_sequence v' = sv_session_sequence v1"
    using e v2 by (auto simp: res same_shell_def request_stop_def)
  have s': "same_identity s1 session'" "ss_last_request_sequence session' = ss_last_request_sequence s1"
    using e by (simp_all add: res same_identity_def s2_def)
  show ?thesis
  proof (cases "accepted_header fr session v")
    case None
    obtain code reason detail where "dispatch fr session v =
        (closing (error_response code reason detail), session, v)"
      using dispatch_refused [OF None] .
    then have "s1 = session" "v1 = v" "dr_close_session r" using d by (simp_all add: closing_def)
    then show ?thesis using v' s' res(1) None by (simp add: accepted_call_def perform_option_def)
  next
    case (Some hr)
    obtain h reader where hr: "hr = (h, reader)" by (cases hr)
    note a = dispatch_accepted [OF Some [unfolded hr], unfolded d]
    show ?thesis
      using v' s' a True Some hr
      by (simp add: accepted_call_def same_shell_def same_identity_def)
  qed
qed

lemma greet_effect:
  assumes "greet answer fr session v = (go, session', v')"
  shows "same_shell v v' \<and> sv_fabric v' = sv_fabric v \<and> sv_stop v' = sv_stop v \<and>
    ss_socket session' = ss_socket session \<and> ss_decoder session' = ss_decoder session \<and>
    ss_last_request_sequence session' = ss_last_request_sequence session \<and>
    sv_session_sequence v' = sv_session_sequence v + 1 \<and> ss_id session' = sv_session_sequence v + 1 \<and>
    ss_epoch session' = fi_epoch (fabric_identity (sv_fabric v)) \<and>
    ss_boot session' = fi_boot (fabric_identity (sv_fabric v)) \<and>
    (go \<longrightarrow> ss_handshake_done session')"
proof -
  define v1 where "v1 = tick vs_handshakes_completed_update 1
    (v\<lparr>sv_session_sequence := sv_session_sequence v + 1\<rparr>)"
  define s1 where "s1 = session\<lparr>ss_id := sv_session_sequence v1,
    ss_epoch := fi_epoch (fabric_identity (sv_fabric v)),
    ss_boot := fi_boot (fabric_identity (sv_fabric v))\<rparr>"
  let ?ack = "encode_hello_response (hello_response (ss_id s1) v1)"
  obtain st s2 v2 where sent: "send_frame answer MsgType_hello_ack (fm_sequence fr) ?ack s1 v1 =
      (st, s2, v2)" by (metis prod_cases3)
  have res: "(go, session', v') = (if ?ack = [] then (False, s1, v1)
      else if \<not> st_ok st then (False, s2, v2) else (True, s2\<lparr>ss_handshake_done := True\<rparr>, v2))"
    unfolding assms [symmetric] greet_def Let_def v1_def [symmetric] s1_def [symmetric]
    using sent by simp
  have v1: "same_shell v v1" "sv_fabric v1 = sv_fabric v" "sv_stop v1 = sv_stop v"
    "sv_session_sequence v1 = sv_session_sequence v + 1" by (simp_all add: v1_def same_shell_def)
  show ?thesis
    using res v1 send_frame_effect [OF sent]
    by (auto simp: s1_def same_shell_def same_identity_def split: if_splits)
qed

section \<open>Interleaving\<close>

text \<open>One iteration of the inner loop a session thread is in.\<close>

definition serve_one :: "Status \<Rightarrow> Session \<Rightarrow> Server \<Rightarrow> bool \<times> Session \<times> Server" where
  "serve_one answer session v =
     (if ss_handshake_done session then
        (case pop (ss_decoder session) of
           (Inl status, decoder) \<Rightarrow> (True, session\<lparr>ss_decoder := decoder\<rparr>, v)
         | (Inr fr, decoder) \<Rightarrow> request_frame answer fr (session\<lparr>ss_decoder := decoder\<rparr>) v)
      else serve_handshake (\<lambda>_. answer) session v)"

text \<open>The table holds references, so a thread's changes to its session show in the table.\<close>

definition put_back :: "Session \<Rightarrow> Server \<Rightarrow> Server" where
  "put_back s v =
     v\<lparr>sv_sessions := map (\<lambda>t. if ss_socket t = ss_socket s then s else t) (sv_sessions v)\<rparr>"

inductive service_step :: "Server \<Rightarrow> Server \<Rightarrow> bool" where
  connect: "(\<And>k. accepted = Inr k \<Longrightarrow> k \<notin> ss_socket ` set (sv_sessions v)) \<Longrightarrow>
    service_step v (snd (accept_turn accepted spawned v))"
| receive: "s \<in> set (sv_sessions v) \<Longrightarrow> receive_chunk chunk s v = (s', v') \<Longrightarrow>
    service_step v (put_back s' v')"
| serve: "s \<in> set (sv_sessions v) \<Longrightarrow> serve_one answer s v = (go, s', v') \<Longrightarrow>
    service_step v (if go then put_back s' v' else end_session s' v')"
| leave: "s \<in> set (sv_sessions v) \<Longrightarrow> service_step v (end_session s v)"
| host: "service_step v (v\<lparr>sv_fabric := perform c (sv_fabric v)\<rparr>)"
| stop: "service_step v (request_stop v)"

inductive in_service :: "Server \<Rightarrow> bool" where
  begun: "reachable f \<Longrightarrow> server_start options initialized listener f = Inr v \<Longrightarrow> in_service v"
| stepped: "in_service v \<Longrightarrow> service_step v v' \<Longrightarrow> in_service v'"

lemma receive_chunk_effect:
  assumes "receive_chunk chunk s v = (s', v')"
  shows "same_shell v v' \<and> sv_fabric v' = sv_fabric v \<and> sv_session_sequence v' = sv_session_sequence v \<and>
    ss_socket s' = ss_socket s \<and> ss_id s' = ss_id s \<and>
    ss_last_request_sequence s' = ss_last_request_sequence s \<and>
    (sane (ss_decoder s) \<longrightarrow> sane (ss_decoder s'))"
proof -
  obtain fed d where f: "feed chunk (ss_decoder s) = (fed, d)" by (cases "feed chunk (ss_decoder s)")
  then have "sane (ss_decoder s) \<longrightarrow> sane d" using feed_sane [of "ss_decoder s" chunk] by simp
  then show ?thesis
    using assms f by (auto simp: receive_chunk_def Let_def same_shell_def split: if_splits)
qed

lemma handshake_frame_effect:
  assumes "handshake_frame answer fr s v = (go, s', v')"
  shows "same_shell v v' \<and> sv_fabric v' = sv_fabric v \<and> ss_socket s' = ss_socket s \<and>
    ss_decoder s' = ss_decoder s \<and> ss_last_request_sequence s' = ss_last_request_sequence s \<and>
    (sv_session_sequence v' = sv_session_sequence v \<and> ss_id s' = ss_id s \<or>
     sv_session_sequence v' = sv_session_sequence v + 1 \<and> ss_id s' = sv_session_sequence v + 1)"
proof -
  have refused: ?thesis
    if "refuse_frame answer fr code reason detail s v = (s1, v1)" "s' = s1"
      "v' = v1 \<or> v' = tick vs_frames_rejected_update 1 v1" for code reason detail s1 v1
    using refuse_frame_effect [OF that(1)] that(2,3) by (auto simp: same_shell_def same_identity_def)
  consider (type) "fm_type fr \<noteq> MsgType_hello"
    | (bad) status where "fm_type fr = MsgType_hello" "decode_hello_request (fm_payload fr) = Inl status"
    | (version) hello where "fm_type fr = MsgType_hello"
        "decode_hello_request (fm_payload fr) = Inr hello" "hq_protocol hello \<noteq> protocol_version"
    | (greeted) hello where "fm_type fr = MsgType_hello"
        "decode_hello_request (fm_payload fr) = Inr hello" "hq_protocol hello = protocol_version"
    by (cases "decode_hello_request (fm_payload fr)") blast+
  then show ?thesis
  proof cases
    case type
    obtain s1 v1 where r: "refuse_frame answer fr Code_refused Reason_message_unsupported
        ''handshake required'' s v = (s1, v1)" by (metis surj_pair)
    show ?thesis using assms type by (intro refused [OF r]) (simp_all add: handshake_frame_def r)
  next
    case bad
    then show ?thesis using assms by (simp add: handshake_frame_def same_shell_def)
  next
    case version
    obtain s1 v1 where r: "refuse_frame answer fr Code_version_unsupported
        Reason_protocol_version_mismatch ''protocol version mismatch'' s v = (s1, v1)" by (metis surj_pair)
    show ?thesis using assms version by (intro refused [OF r]) (simp_all add: handshake_frame_def r)
  next
    case greeted
    then have "greet answer fr s v = (go, s', v')" using assms by (simp add: handshake_frame_def)
    then show ?thesis using greet_effect by blast
  qed
qed

text \<open>The effect of an iteration on what the invariants of the service speak about.\<close>

lemma serve_one_effect:
  assumes "serve_one answer s v = (go, s', v')"
  shows "same_shell v v' \<and> ss_socket s' = ss_socket s \<and>
    (sv_session_sequence v' = sv_session_sequence v \<and> ss_id s' = ss_id s \<or>
     sv_session_sequence v' = sv_session_sequence v + 1 \<and> ss_id s' = sv_session_sequence v + 1) \<and>
    (sane (ss_decoder s) \<longrightarrow> sane (ss_decoder s')) \<and> (\<exists>c. sv_fabric v' = perform_option c (sv_fabric v)) \<and>
    (ss_last_request_sequence s' = ss_last_request_sequence s \<or>
     ss_last_request_sequence s < ss_last_request_sequence s' \<and>
     ss_last_request_sequence s' \<le> vo_max_requests_per_session (sv_options v))"
proof -
  obtain r d where p: "pop (ss_decoder s) = (r, d)" by (cases "pop (ss_decoder s)")
  have sd: "sane (ss_decoder s) \<longrightarrow> sane d" using pop_sane [OF _ p] by blast
  have same: "\<exists>c. f = perform_option c f" for f by (rule exI [of _ None]) (simp add: perform_option_def)
  show ?thesis
  proof (cases r)
    case (Inl status)
    then show ?thesis
      using assms sd same p
      by (auto simp: serve_one_def serve_handshake_def same_shell_def split: if_splits)
  next
    case (Inr fr)
    let ?s = "s\<lparr>ss_decoder := d\<rparr>"
    show ?thesis
    proof (cases "ss_handshake_done s")
      case True
      then have "request_frame answer fr ?s v = (go, s', v')" using assms p Inr by (simp add: serve_one_def)
      note e = request_frame_effect [OF this]
      have last: "ss_last_request_sequence s < sh_request_sequence h \<and>
          sh_request_sequence h \<le> vo_max_requests_per_session (sv_options v)"
        if "accepted_header fr ?s v = Some (h, reader)" for h reader
        using that by (auto simp: accepted_header_def header_refusal_None
            split: prod.splits sum.splits if_splits)
      show ?thesis
        using e sd last by (cases "accepted_header fr ?s v") (auto simp: same_identity_def split: if_splits)
    next
      case False
      obtain g s1 v1 where h: "handshake_frame answer fr ?s v = (g, s1, v1)" by (metis prod_cases3)
      show ?thesis
        using assms False p Inr h handshake_frame_effect [OF h] sd same
        by (auto simp: serve_one_def serve_handshake_def same_shell_def split: if_splits)
    qed
  qed
qed

section \<open>Invariants of the service\<close>

locale service_invariant =
  fixes I :: "Server \<Rightarrow> bool"
  assumes initial: "reachable f \<Longrightarrow> server_start options initialized listener f = Inr v \<Longrightarrow> I v"
    and kept: "in_service v \<Longrightarrow> I v \<Longrightarrow> service_step v v' \<Longrightarrow> I v'"
begin

lemma always: "in_service v \<Longrightarrow> I v"
  by (induction rule: in_service.induct) (blast intro: initial kept)+

end

lemma started_server:
  assumes "server_start options initialized listener f = Inr v"
  shows "sv_options v = options" "sv_fabric v = f" "sv_sessions v = []" "sv_active_threads v = 0"
    "0 < vo_max_sessions options" "vo_max_sessions options \<le> max_sessions"
    "sv_session_sequence v = 0"
  using assms by (auto simp: server_start_def split: if_splits sum.splits)

lemma end_session_fields [simp]:
  "sv_fabric (end_session s v) = sv_fabric v" "sv_options (end_session s v) = sv_options v"
  "sv_session_sequence (end_session s v) = sv_session_sequence v"
  by (simp_all add: end_session_def forget_session_def Let_def)

lemma put_back_fields [simp]:
  "sv_fabric (put_back s v) = sv_fabric v" "sv_options (put_back s v) = sv_options v"
  "sv_active_threads (put_back s v) = sv_active_threads v"
  "sv_session_sequence (put_back s v) = sv_session_sequence v"
  by (simp_all add: put_back_def)

lemma accept_turn_fields:
  "sv_fabric (snd (accept_turn accepted spawned v)) = sv_fabric v"
  "sv_options (snd (accept_turn accepted spawned v)) = sv_options v"
  "sv_session_sequence (snd (accept_turn accepted spawned v)) = sv_session_sequence v"
  by (simp_all add: accept_turn_def Let_def split: sum.split)

subsection \<open>The coordinator\<close>

lemma step_fabric: "service_step v v' \<Longrightarrow> \<exists>c. sv_fabric v' = perform_option c (sv_fabric v)"
proof (induction rule: service_step.induct)
  case (receive s v chunk s' v')
  then show ?case using receive_chunk_effect [of chunk s v s' v']
    by (intro exI [of _ None]) (simp add: perform_option_def)
next
  case (serve s v answer go s' v')
  then show ?case using serve_one_effect [of answer s v go s' v'] by auto
next
  case (host v c)
  then show ?case by (intro exI [of _ "Some c"]) (simp add: perform_option_def)
qed (rule exI [of _ None], simp add: perform_option_def accept_turn_fields request_stop_def)+

interpretation coordinator: service_invariant "\<lambda>v. reachable (sv_fabric v)"
proof
  fix v v' assume "reachable (sv_fabric v)" "service_step v v'"
  then show "reachable (sv_fabric v')"
    using step_fabric [of v v'] by (auto simp: perform_option_def intro: called split: option.splits)
qed (simp add: started_server)

subsection \<open>The session table\<close>

definition orderly_session :: "u64 \<Rightarrow> Session \<Rightarrow> bool" where
  "orderly_session budget s \<longleftrightarrow> sane (ss_decoder s) \<and> ss_last_request_sequence s \<le> budget"

definition orderly :: "Server \<Rightarrow> bool" where
  "orderly v \<longleftrightarrow> vo_max_sessions (sv_options v) \<le> max_sessions \<and>
     length (sv_sessions v) \<le> vo_max_sessions (sv_options v) \<and>
     sv_active_threads v = length (sv_sessions v) \<and> distinct (map ss_socket (sv_sessions v)) \<and>
     list_all (orderly_session (vo_max_requests_per_session (sv_options v))) (sv_sessions v)"

lemma erase_first_known:
  assumes "x \<in> set xs" "P x"
  shows "length (erase_first P xs) = length xs - 1"
  using assms
proof (induction xs)
  case (Cons a xs)
  then show ?case by (cases xs) auto
qed simp

lemma erase_first_sub: "set (erase_first P xs) \<subseteq> set xs"
  by (induction xs) auto

lemma erase_first_distinct: "distinct (map f xs) \<Longrightarrow> distinct (map f (erase_first P xs))"
  using erase_first_sub [of P] by (induction xs) fastforce+

lemma orderly_end:
  assumes "orderly v" "s \<in> set (sv_sessions v)" "same_shell v v'" "ss_socket s' = ss_socket s"
  shows "orderly (end_session s' v')"
proof -
  let ?P = "\<lambda>t. ss_socket t = ss_socket s'"
  have "\<exists>t \<in> set (sv_sessions v'). ?P t" using assms by (auto simp: same_shell_def)
  then have e: "sv_sessions (end_session s' v') = erase_first ?P (sv_sessions v)"
    "sv_active_threads (end_session s' v') = sv_active_threads v - 1"
    using assms(3) by (simp_all add: end_session_def forget_session_def same_shell_def Let_def)
  have "length (erase_first ?P (sv_sessions v)) = length (sv_sessions v) - 1"
    using assms(2,4) by (intro erase_first_known [of s]) auto
  then show ?thesis
    using assms(1,3) erase_first_sub [of ?P "sv_sessions v"] unfolding orderly_def e
    by (auto simp: same_shell_def list_all_iff erase_first_distinct)
qed

lemma orderly_put_back:
  assumes "orderly v" "s \<in> set (sv_sessions v)" "same_shell v v'" "ss_socket s' = ss_socket s"
    "orderly_session (vo_max_requests_per_session (sv_options v)) s'"
  shows "orderly (put_back s' v')"
proof -
  have sockets: "map ss_socket (sv_sessions (put_back s' v')) = map ss_socket (sv_sessions v)"
    using assms(3) by (auto simp: put_back_def same_shell_def)
  have len: "length (sv_sessions (put_back s' v')) = length (sv_sessions v)"
    using assms(3) by (simp add: put_back_def same_shell_def)
  have "list_all (orderly_session (vo_max_requests_per_session (sv_options v)))
      (sv_sessions (put_back s' v'))"
    using assms(1,3,5) by (auto simp: orderly_def same_shell_def list_all_iff put_back_def)
  then show ?thesis
    using assms(1,3) unfolding orderly_def sockets len by (simp add: same_shell_def)
qed

lemma orderly_connect:
  assumes "orderly v" "\<And>k. accepted = Inr k \<Longrightarrow> k \<notin> ss_socket ` set (sv_sessions v)"
  shows "orderly (snd (accept_turn accepted spawned v))"
proof (cases "\<not> sv_stop v \<and> (\<exists>k. accepted = Inr k) \<and> length (sv_sessions v) < vo_max_sessions (sv_options v)")
  case False
  then show ?thesis
    using assms(1) by (auto simp: accept_turn_def orderly_def not_le split: sum.split)
next
  case True
  then obtain k where k: "accepted = Inr k" "k \<notin> ss_socket ` set (sv_sessions v)" using assms(2) by blast
  define v1 where "v1 = (tick vs_connections_accepted_update 1
    (v\<lparr>sv_sessions := sv_sessions v @ [new_session k]\<rparr>))\<lparr>sv_active_threads := sv_active_threads v + 1\<rparr>"
  have v1: "orderly v1"
    using assms(1) k(2) True frame_decoder_sane
    by (auto simp: orderly_def v1_def new_session_def orderly_session_def image_iff)
  have "orderly (end_session (new_session k) v1)"
    by (rule orderly_end [OF v1, of "new_session k"]) (simp_all add: v1_def same_shell_def)
  then show ?thesis
    using v1 True k(1) by (auto simp: accept_turn_def Let_def v1_def)
qed

interpretation session_table: service_invariant orderly
proof
  fix options initialized listener f v
  assume "server_start options initialized listener f = Inr v"
  then show "orderly v" using started_server [of options initialized listener f v]
    by (simp add: orderly_def)
next
  fix v v' assume v: "orderly v" and step: "service_step v v'"
  show "orderly v'"
    using step v
  proof cases
    case (connect accepted spawned)
    then show ?thesis using orderly_connect v by blast
  next
    case (receive s chunk s' v1)
    note e = receive_chunk_effect [OF receive(3)]
    have "orderly_session (vo_max_requests_per_session (sv_options v)) s'"
      using v receive(2) e by (auto simp: orderly_def list_all_iff orderly_session_def)
    then show ?thesis using orderly_put_back [OF v receive(2)] e receive(1) by blast
  next
    case (serve s answer go s' v1)
    note e = serve_one_effect [OF serve(3)]
    have "orderly_session (vo_max_requests_per_session (sv_options v)) s'"
      using v serve(2) e by (auto simp: orderly_def list_all_iff orderly_session_def)
    then show ?thesis
      using orderly_put_back [OF v serve(2)] orderly_end [OF v serve(2)] e serve(1) by auto
  next
    case (leave s)
    then show ?thesis using orderly_end [OF v] by (simp add: same_shell_def)
  qed (use v in \<open>simp_all add: orderly_def request_stop_def\<close>)
qed

section \<open>Threads are sequences of steps\<close>

text \<open>The code that serves a frame reads the session table only for its length.\<close>

definition with_table :: "Session list \<Rightarrow> Server \<Rightarrow> Server" where
  "with_table l v = v\<lparr>sv_sessions := l\<rparr>"

lemma with_table_fields [simp]:
  "sv_options (with_table l v) = sv_options v" "sv_fabric (with_table l v) = sv_fabric v"
  "sv_stats (with_table l v) = sv_stats v" "sv_sessions (with_table l v) = l"
  "sv_session_sequence (with_table l v) = sv_session_sequence v"
  by (simp_all add: with_table_def)

lemma with_table_update [simp]:
  "tick c n (with_table l v) = with_table l (tick c n v)"
  "(with_table l v)\<lparr>sv_fabric := f\<rparr> = with_table l (v\<lparr>sv_fabric := f\<rparr>)"
  "(with_table l v)\<lparr>sv_session_sequence := q\<rparr> = with_table l (v\<lparr>sv_session_sequence := q\<rparr>)"
  "request_stop (with_table l v) = with_table l (request_stop v)"
  by (simp_all add: with_table_def tick_def request_stop_def)

lemma send_frame_table:
  "send_frame answer type q p s (with_table l v) = apsnd (apsnd (with_table l)) (send_frame answer type q p s v)"
  by (simp add: send_frame_def Let_def)

lemma refuse_frame_table:
  "refuse_frame answer fr code reason detail s (with_table l v) =
     apsnd (with_table l) (refuse_frame answer fr code reason detail s v)"
  by (simp add: refuse_frame_def send_frame_table)

lemma dispatch_table:
  assumes "length l = length (sv_sessions v)"
  shows "dispatch fr s (with_table l v) = apsnd (apsnd (with_table l)) (dispatch fr s v)"
proof -
  have "status_response (with_table l v) = status_response v"
    using assms by (simp add: status_response_def Let_def)
  then have "operate type reader (with_table l v) = operate type reader v" for type reader
    by (simp only: operate_def with_table_fields)
  moreover have "header_refusal h s (with_table l v) = header_refusal h s v" for h
    by (simp add: header_refusal_def)
  ultimately show ?thesis
    by (simp add: dispatch_def split: prod.split sum.split option.split)
qed

lemma request_frame_table:
  assumes "length l = length (sv_sessions v)"
  shows "request_frame answer fr s (with_table l v) =
    apsnd (apsnd (with_table l)) (request_frame answer fr s v)"
  by (simp add: request_frame_def refuse_frame_table dispatch_table [OF assms] Let_def send_frame_table
      split_beta)

lemma handshake_frame_table:
  "handshake_frame answer fr s (with_table l v) =
     apsnd (apsnd (with_table l)) (handshake_frame answer fr s v)"
proof -
  have "hello_response i (with_table l v) = hello_response i v" for i v by (simp add: hello_response_def)
  then have "greet answer fr s (with_table l v) = apsnd (apsnd (with_table l)) (greet answer fr s v)"
    by (simp add: greet_def Let_def send_frame_table split: prod.split)
  then show ?thesis
    by (simp add: handshake_frame_def refuse_frame_table prod_eq_iff split: sum.split)
qed

lemma serve_one_table:
  assumes "length l = length (sv_sessions v)"
  shows "serve_one answer s (with_table l v) = apsnd (apsnd (with_table l)) (serve_one answer s v)"
proof (cases "pop (ss_decoder s)")
  case (Pair r d)
  show ?thesis
  proof (cases r)
    case (Inr fr)
    obtain go s1 v1 where h: "handshake_frame answer fr (s\<lparr>ss_decoder := d\<rparr>) v = (go, s1, v1)"
      by (metis prod_cases3)
    show ?thesis
      using Pair Inr
      by (simp add: serve_one_def serve_handshake_def request_frame_table [OF assms]
          handshake_frame_table h)
  qed (simp add: serve_one_def serve_handshake_def Pair)
qed

lemma put_back_table:
  "put_back s v = with_table (map (\<lambda>t. if ss_socket t = ss_socket s then s else t) (sv_sessions v)) v"
  by (simp add: put_back_def with_table_def)

lemma put_back_twice: "ss_socket s' = ss_socket s \<Longrightarrow> put_back s' (put_back s v) = put_back s' v"
  by (simp add: put_back_def comp_def)

lemma erase_first_mapped:
  assumes "distinct (map f xs)" "f y = k"
  shows "erase_first (\<lambda>x. f x = k) (map (\<lambda>x. if f x = k then y else x) xs) = erase_first (\<lambda>x. f x = k) xs"
  using assms
proof (induction xs)
  case (Cons x xs)
  have "map (\<lambda>x. if f x = k then y else x) xs = xs" if "f x = k"
    using Cons.prems(1) that by (intro map_idI) (auto simp: image_iff)
  then show ?case using Cons by simp
qed simp

lemma end_put_back:
  assumes "distinct (map ss_socket (sv_sessions v))" "ss_socket s' = ss_socket s"
    "\<exists>t \<in> set (sv_sessions v). ss_socket t = ss_socket s"
  shows "end_session s' (put_back s v) = end_session s' v"
proof -
  have e: "erase_first (\<lambda>t. ss_socket t = ss_socket s') (sv_sessions (put_back s v)) =
      erase_first (\<lambda>t. ss_socket t = ss_socket s') (sv_sessions v)"
    using erase_first_mapped [OF assms(1), of s "ss_socket s'"] assms(2) by (simp add: put_back_def)
  have m: "(\<exists>t \<in> set (sv_sessions (put_back s v)). ss_socket t = ss_socket s') \<longleftrightarrow>
      (\<exists>t \<in> set (sv_sessions v). ss_socket t = ss_socket s')"
    using assms(2) by (auto simp: put_back_def)
  show ?thesis
    unfolding end_session_def forget_session_def m e using assms(2,3)
    by (simp add: put_back_def tick_def Let_def)
qed

lemma serve_one_step:
  assumes "\<exists>t \<in> set (sv_sessions v). ss_socket t = ss_socket s" "distinct (map ss_socket (sv_sessions v))"
    "serve_one answer s v = (go, s', v')"
  shows "service_step (put_back s v) (if go then put_back s' v' else end_session s' v')"
proof -
  define l where "l = map (\<lambda>t. if ss_socket t = ss_socket s then s else t) (sv_sessions v)"
  note e = serve_one_effect [OF assms(3)]
  have v': "with_table l v' = put_back s v'" using e by (simp add: l_def put_back_table same_shell_def)
  have "serve_one answer s (put_back s v) = (go, s', put_back s v')"
    using serve_one_table [of l v answer s] assms(3) v'
    by (simp add: put_back_table [of s v] l_def [symmetric]) (simp add: l_def)
  moreover have "s \<in> set (sv_sessions (put_back s v))"
    using assms(1) by (auto simp: put_back_def image_iff)
  ultimately have "service_step (put_back s v)
      (if go then put_back s' (put_back s v') else end_session s' (put_back s v'))"
    by (rule service_step.serve [rotated])
  moreover have "distinct (map ss_socket (sv_sessions v'))"
    "\<exists>t \<in> set (sv_sessions v'). ss_socket t = ss_socket s"
    using e assms(1,2) by (simp_all add: same_shell_def)
  ultimately show ?thesis using e by (cases go) (simp_all add: put_back_twice end_put_back)
qed

lemma serve_requests_steps:
  assumes "\<exists>t \<in> set (sv_sessions v). ss_socket t = ss_socket s" "distinct (map ss_socket (sv_sessions v))"
    "ss_handshake_done s" "serve_requests answers k s v = (go, s', v')"
  shows "service_step\<^sup>*\<^sup>* (put_back s v) (if go then put_back s' v' else end_session s' v')"
  using assms
proof (induction answers k s v rule: serve_requests.induct)
  case (1 answers k s v)
  obtain g1 s1 v1 where one: "serve_one (answers k) s v = (g1, s1, v1)" by (metis prod_cases3)
  note step = serve_one_step [OF 1(2,3) one] and e = serve_one_effect [OF one]
  obtain r d where p: "pop (ss_decoder s) = (r, d)" by (cases "pop (ss_decoder s)")
  show ?case
  proof (cases r)
    case (Inl status)
    then have "serve_requests answers k s v = serve_one (answers k) s v"
      using p 1(4) by (subst serve_requests.simps) (simp add: serve_one_def)
    then show ?thesis using step one 1(5) by auto
  next
    case (Inr fr)
    then have rf: "request_frame (answers k) fr (s\<lparr>ss_decoder := d\<rparr>) v = (g1, s1, v1)"
      using one 1(4) p by (simp add: serve_one_def)
    have unfold: "serve_requests answers k s v =
        (if g1 then serve_requests answers (Suc k) s1 v1 else (False, s1, v1))"
      using p Inr rf by (simp add: serve_requests.simps [of answers k s v])
    show ?thesis
    proof (cases g1)
      case True
      have "ss_handshake_done s1"
        using request_frame_effect [OF rf] 1(4) by (simp add: same_identity_def)
      then have "service_step\<^sup>*\<^sup>* (put_back s1 v1) (if go then put_back s' v' else end_session s' v')"
        using 1(1) [OF p [symmetric] Inr rf [symmetric] refl True] e 1(2,3,5) unfold True
        by (simp add: same_shell_def)
      then show ?thesis using step True by (simp add: converse_rtranclp_into_rtranclp)
    next
      case False
      then show ?thesis using step unfold 1(5) by auto
    qed
  qed
qed

lemma put_back_self: "s \<in> set (sv_sessions v) \<Longrightarrow> distinct (map ss_socket (sv_sessions v)) \<Longrightarrow>
    put_back s v = v"
proof -
  assume s: "s \<in> set (sv_sessions v)" "distinct (map ss_socket (sv_sessions v))"
  then have "map (\<lambda>t. if ss_socket t = ss_socket s then s else t) (sv_sessions v) = sv_sessions v"
    by (intro map_idI) (auto simp: distinct_map inj_on_def)
  then show ?thesis by (simp add: put_back_def)
qed

text \<open>One turn of a session thread, and the whole thread.\<close>

lemma serve_turn_steps:
  assumes "\<exists>t \<in> set (sv_sessions v). ss_socket t = ss_socket s"
    "distinct (map ss_socket (sv_sessions v))"
    "serve_turn stopped received answers s v = (go, s', v')"
  shows "service_step\<^sup>*\<^sup>* (put_back s v) (if go then put_back s' v' else end_session s' v')"
proof -
  have mem: "s \<in> set (sv_sessions (put_back s v))"
    using assms(1) by (auto simp: put_back_def image_iff)
  show ?thesis
  proof (cases "stopped \<or> (\<forall>chunk. received = Inr chunk \<longrightarrow> chunk = [])")
    case True
    then have "\<not> go" "s' = s" "v' = v"
      using assms(3) by (auto simp: serve_turn_def split: if_splits sum.splits)
    then show ?thesis
      using service_step.leave [OF mem] end_put_back [OF assms(2) refl assms(1)] by auto
  next
    case False
    then obtain chunk where chunk: "\<not> stopped" "received = Inr chunk" "chunk \<noteq> []" by blast
    obtain s1 v1 where r: "receive_chunk chunk s v = (s1, v1)" by (cases "receive_chunk chunk s v")
    note e = receive_chunk_effect [OF r]
    have "receive_chunk chunk s (put_back s v) = (s1, put_back s v1)"
      using r unfolding put_back_table receive_chunk_def Let_def by (auto split: prod.splits)
    then have first: "service_step (put_back s v) (put_back s1 v1)"
      using service_step.receive [OF mem] e put_back_twice [of s1 s v1] by metis
    have here: "\<exists>t \<in> set (sv_sessions v1). ss_socket t = ss_socket s1"
      "distinct (map ss_socket (sv_sessions v1))"
      using e assms(1,2) by (auto simp: same_shell_def)
    have p: "serve_pending answers s1 v1 = (go, s', v')"
      using assms(3) chunk r by (simp add: serve_turn_def)
    have "service_step\<^sup>*\<^sup>* (put_back s1 v1) (if go then put_back s' v' else end_session s' v')"
    proof (cases "ss_handshake_done s1")
      case True
      then show ?thesis using serve_requests_steps [OF here True] p by (simp add: serve_pending_def)
    next
      case False
      have "serve_handshake answers s1 v1 = serve_handshake (\<lambda>_. answers 0) s1 v1"
        by (simp add: serve_handshake_def)
      then have "serve_one (answers 0) s1 v1 = (go, s', v')"
        using p False by (simp add: serve_pending_def serve_one_def)
      then show ?thesis using serve_one_step [OF here] by blast
    qed
    then show ?thesis using first by (rule converse_rtranclp_into_rtranclp [rotated])
  qed
qed

text \<open>What a turn keeps of the table.\<close>

lemma serve_requests_shell:
  "serve_requests answers k s v = (go, s', v') \<Longrightarrow> ss_handshake_done s \<Longrightarrow>
     same_shell v v' \<and> ss_socket s' = ss_socket s"
proof (induction answers k s v rule: serve_requests.induct)
  case (1 answers k s v)
  obtain r d where p: "pop (ss_decoder s) = (r, d)" by (cases "pop (ss_decoder s)")
  show ?case
  proof (cases r)
    case (Inl status)
    then show ?thesis using 1(2) p by (auto simp: serve_requests.simps [of answers k s v] same_shell_def)
  next
    case (Inr fr)
    obtain g1 s1 v1 where rf: "request_frame (answers k) fr (s\<lparr>ss_decoder := d\<rparr>) v = (g1, s1, v1)"
      by (metis prod_cases3)
    note e = request_frame_effect [OF rf]
    have "serve_requests answers k s v =
        (if g1 then serve_requests answers (Suc k) s1 v1 else (False, s1, v1))"
      using p Inr rf by (simp add: serve_requests.simps [of answers k s v])
    then show ?thesis
      using 1(1) [OF p [symmetric] Inr rf [symmetric] refl] e 1(2,3)
      by (cases g1) (auto simp: same_shell_def same_identity_def)
  qed
qed

lemma serve_turn_shell:
  assumes "serve_turn stopped received answers s v = (go, s', v')"
  shows "same_shell v v' \<and> ss_socket s' = ss_socket s"
proof (cases "stopped \<or> (\<forall>chunk. received = Inr chunk \<longrightarrow> chunk = [])")
  case True
  then show ?thesis
    using assms by (auto simp: serve_turn_def same_shell_def split: if_splits sum.splits)
next
  case False
  then obtain chunk where chunk: "\<not> stopped" "received = Inr chunk" "chunk \<noteq> []" by blast
  obtain s1 v1 where r: "receive_chunk chunk s v = (s1, v1)" by (cases "receive_chunk chunk s v")
  note e = receive_chunk_effect [OF r]
  have p: "serve_pending answers s1 v1 = (go, s', v')"
    using assms chunk r by (simp add: serve_turn_def)
  have "same_shell v1 v' \<and> ss_socket s' = ss_socket s1"
  proof (cases "ss_handshake_done s1")
    case False
    have "serve_handshake answers s1 v1 = serve_handshake (\<lambda>_. answers 0) s1 v1"
      by (simp add: serve_handshake_def)
    then have "serve_one (answers 0) s1 v1 = (go, s', v')"
      using p False by (simp add: serve_pending_def serve_one_def)
    then show ?thesis using serve_one_effect by blast
  qed (use p serve_requests_shell in \<open>simp add: serve_pending_def\<close>)
  then show ?thesis using e by (simp add: same_shell_def)
qed

lemma serve_session_steps:
  assumes "\<exists>t \<in> set (sv_sessions v). ss_socket t = ss_socket s"
    "distinct (map ss_socket (sv_sessions v))" "serve_session turns s v = (left, v')"
  shows "service_step\<^sup>*\<^sup>* (put_back s v) (case left of None \<Rightarrow> v' | Some s' \<Rightarrow> put_back s' v')"
  using assms
proof (induction turns arbitrary: s v)
  case (Cons turn turns)
  obtain stopped received answers where turn: "turn = (stopped, received, answers)"
    by (metis prod_cases3)
  obtain go s1 v1 where t: "serve_turn stopped received answers s v = (go, s1, v1)"
    by (metis prod_cases3)
  note steps = serve_turn_steps [OF Cons.prems(1,2) t] and e = serve_turn_shell [OF t]
  show ?case
  proof (cases go)
    case True
    then have "service_step\<^sup>*\<^sup>* (put_back s1 v1) (case left of None \<Rightarrow> v' | Some s' \<Rightarrow> put_back s' v')"
      using Cons.IH [of v1 s1] Cons.prems e by (simp add: turn t same_shell_def)
    then show ?thesis using steps True by (simp add: rtranclp_trans)
  qed (use steps Cons.prems(3) in \<open>auto simp: turn t\<close>)
qed auto

lemma in_service_steps: "service_step\<^sup>*\<^sup>* v v' \<Longrightarrow> in_service v \<Longrightarrow> in_service v'"
  by (induction rule: rtranclp_induct) (auto intro: stepped)

lemma in_service_thread:
  assumes "in_service v" "s \<in> set (sv_sessions v)" "serve_session turns s v = (left, v')"
  shows "in_service (case left of None \<Rightarrow> v' | Some s' \<Rightarrow> put_back s' v')"
proof -
  have d: "distinct (map ss_socket (sv_sessions v))"
    using session_table.always [OF assms(1)] by (simp add: orderly_def)
  have "\<exists>t \<in> set (sv_sessions v). ss_socket t = ss_socket s" using assms(2) by blast
  from serve_session_steps [OF this d assms(3)] show ?thesis
    using in_service_steps assms(1) put_back_self [OF assms(2) d] by metis
qed

section \<open>A sample service\<close>

definition sample_server :: Server where
  "sample_server =
     \<lparr>sv_options = default_server_options, sv_fabric = first_fabric, sv_stop = False,
      sv_active_threads = 0, sv_sessions = [], sv_session_sequence = 0,
      sv_stats = zero_server_stats\<rparr>"

definition sample_session :: Session where
  "sample_session =
     (new_session 3)\<lparr>ss_id := 1, ss_epoch := 1, ss_boot := 2, ss_handshake_done := True\<rparr>"

definition sample_header :: SessionHeader where
  "sample_header = \<lparr>sh_session = 1, sh_epoch = 1, sh_boot = 2, sh_request_sequence = 1\<rparr>"

definition sample_request :: Frame where
  "sample_request =
     \<lparr>fm_version = protocol_version, fm_type = MsgType_fence_req, fm_flags = 0, fm_sequence = 2,
      fm_payload = encode_session_request sample_header (encode_fence_body 7 Reason_none)\<rparr>"

lemma sample_in_service: "in_service sample_server"
proof (rule begun)
  show "reachable first_fabric" using first_reachable [of "[]"] by simp
  show "server_start default_server_options True (Inr 4000) first_fabric = Inr sample_server"
    by (simp add: server_start_def default_server_options_def sample_server_def max_sessions_def)
qed

lemma sample_decoded:
  "run_state decode_session_header (byte_reader (fm_payload sample_request)) =
     (Inr sample_header, reader_at (enc_session_header sample_header) (enc_fence_body (7, Reason_none)))"
  "requested (fm_type sample_request)
     (reader_at (enc_session_header sample_header) (enc_fence_body (7, Reason_none))) =
     Some (Fence_path 7 Reason_none)"
proof -
  have "encode_fence_body 7 Reason_none = enc_fence_body (7, Reason_none)"
    unfolding encode_fence_body_def by (rule fence_body_codec.payload_eq) (simp add: max_record_payload_def)
  then show "run_state decode_session_header (byte_reader (fm_payload sample_request)) =
     (Inr sample_header, reader_at (enc_session_header sample_header) (enc_fence_body (7, Reason_none)))"
    by (simp add: sample_request_def session_request_decoded max_record_payload_def)
  show "requested (fm_type sample_request)
     (reader_at (enc_session_header sample_header) (enc_fence_body (7, Reason_none))) =
     Some (Fence_path 7 Reason_none)"
    by (simp add: requested_def sample_request_def fence_body_codec.body_at)
qed

section \<open>Guarantees\<close>

text \<open>
  C10: Requests are bound to their session. For every frame a session receives after its handshake: when it is a
  request whose header carries the session's identity, epoch and boot and a sequence above the last
  one accepted and within the budget, the coordinator performs exactly the call the body asks for
  (none, when the body does not decode to the end or the request is a query) and the sequence
  advances, so the same frame is refused the next time; in every other case the coordinator is
  untouched and the session is closed.
\<close>

theorem request_bound_to_session:
  assumes "request_frame answer fr s v = (go, s', v')"
  shows "if is_request_type (fm_type fr) \<and>
      (\<exists>h reader. run_state decode_session_header (byte_reader (fm_payload fr)) = (Inr h, reader) \<and>
        sh_session h = ss_id s \<and> sh_epoch h = ss_epoch s \<and> sh_boot h = ss_boot s \<and>
        ss_last_request_sequence s < sh_request_sequence h \<and>
        sh_request_sequence h \<le> vo_max_requests_per_session (sv_options v))
    then (\<exists>h reader. run_state decode_session_header (byte_reader (fm_payload fr)) = (Inr h, reader) \<and>
        sv_fabric v' = perform_option (requested (fm_type fr) reader) (sv_fabric v) \<and>
        ss_last_request_sequence s' = sh_request_sequence h \<and>
        fst (request_frame answer' fr s' v') = False)
    else \<not> go \<and> sv_fabric v' = sv_fabric v \<and>
      ss_last_request_sequence s' = ss_last_request_sequence s"
proof -
  obtain x reader where dec: "run_state decode_session_header (byte_reader (fm_payload fr)) = (x, reader)"
    by (cases "run_state decode_session_header (byte_reader (fm_payload fr))")
  note e = request_frame_effect [OF assms]
  show ?thesis
  proof (cases "is_request_type (fm_type fr) \<and> accepted_header fr s v \<noteq> None")
    case True
    then obtain h where h: "x = Inr h" "accepted_header fr s v = Some (h, reader)"
        "header_refusal h s v = None"
      using dec by (auto simp: accepted_header_def split: sum.splits if_splits)
    have last: "ss_last_request_sequence s' = sh_request_sequence h" using e True h(2) by simp
    then have "accepted_header fr s' v' = None"
      using dec h(1) by (auto simp: accepted_header_def header_refusal_None)
    then have "fst (request_frame answer' fr s' v') = False"
      using request_frame_effect [of answer' fr s' v'] by (metis prod.collapse)
    then show ?thesis
      using e True h dec last unfolding header_refusal_None by (simp add: accepted_call_def)
  next
    case False
    then have refused: "\<not> (is_request_type (fm_type fr) \<and> (\<exists>h reader.
        run_state decode_session_header (byte_reader (fm_payload fr)) = (Inr h, reader) \<and>
        sh_session h = ss_id s \<and> sh_epoch h = ss_epoch s \<and> sh_boot h = ss_boot s \<and>
        ss_last_request_sequence s < sh_request_sequence h \<and>
        sh_request_sequence h \<le> vo_max_requests_per_session (sv_options v)))"
      using dec by (auto simp: accepted_header_def header_refusal_None)
    have "\<not> go \<and> sv_fabric v' = sv_fabric v \<and>
        ss_last_request_sequence s' = ss_last_request_sequence s"
      using e False
      by (cases "accepted_header fr s v") (auto simp: accepted_call_def perform_option_def split: if_splits)
    then show ?thesis unfolding if_not_P [OF refused] .
  qed
qed

theorem request_bound_to_session_witness:
  "case request_frame ok_status sample_request sample_session sample_server of (go, s', v') \<Rightarrow>
     sv_fabric v' = perform (Fence_path 7 Reason_none) first_fabric \<and> ss_last_request_sequence s' = 1 \<and>
     \<not> fst (request_frame ok_status sample_request s' v')"
proof -
  obtain go s' v' where r: "request_frame ok_status sample_request sample_session sample_server = (go, s', v')"
    by (metis prod_cases3)
  have c: "is_request_type (fm_type sample_request)" by (simp add: is_request_type_def sample_request_def)
  have "sh_session sample_header = ss_id sample_session" "sh_epoch sample_header = ss_epoch sample_session"
    "sh_boot sample_header = ss_boot sample_session"
    "ss_last_request_sequence sample_session < sh_request_sequence sample_header"
    "sh_request_sequence sample_header \<le> vo_max_requests_per_session (sv_options sample_server)"
    "sh_request_sequence sample_header = 1" "sv_fabric sample_server = first_fabric"
    by (simp_all add: sample_header_def sample_session_def sample_server_def new_session_def
        default_server_options_def default_max_requests_per_session_def)
  then show ?thesis
    using request_bound_to_session [OF r, of ok_status, unfolded sample_decoded(1)] c
    by (simp add: r sample_decoded(2) perform_option_def)
qed



end
