(* ===== verification/PFF_Remote.thy ===== *)
theory PFF_Remote
  imports PFF_Client PFF_Service
begin

text \<open>
  Client and service together: what a client that has completed its handshake gets back from a
  request is what the coordinator answered, and what the coordinator did is what was asked. The
  locale \<open>remote_operation\<close> is the contract between a client method and the branch of
  \<open>dispatch\<close> that serves it; it is interpreted on every method whose answer is an acknowledgement.
\<close>

section \<open>Receiving a response\<close>

text \<open>The receive loop returns the response however the transport cuts it.\<close>

lemma await_delivers:
  assumes "\<not> failed d" "sane d" "deliverable (fd_max_payload d) fr" "fm_sequence fr = q"
    "window d @ concat chunks = sent fr" "[] \<notin> set chunks"
  shows "\<exists>d'. await (map Inr chunks) q (c\<lparr>cl_decoder := d\<rparr>) = (Some (Inr fr), c\<lparr>cl_decoder := d'\<rparr>) \<and>
    \<not> failed d' \<and> sane d' \<and> window d' = [] \<and> fd_max_payload d' = fd_max_payload d"
  using assms
proof (induction chunks arbitrary: d)
  case Nil
  then have w: "window d = sent fr @ []" by simp
  obtain d' where "pop d = (Inr fr, d')" "\<not> failed d'" "sane d'" "window d' = []"
    "fd_max_payload d' = fd_max_payload d"
    using pop_whole [OF Nil.prems(1-3) w] by blast
  then show ?case using Nil.prems(4) by (auto simp: take_response_def)
next
  case (Cons ch chunks)
  have ne: "concat (ch # chunks) \<noteq> []" using Cons.prems(6) by auto
  obtain st where p: "pop d = (Inl st, d)" using pop_part [OF Cons.prems(1-3,5) ne] by blast
  have m: "fd_max_payload d \<le> max_frame_payload" using Cons.prems(2) by (simp add: sane_def)
  have "length (sent fr) \<le> max_frame_bytes"
    using Cons.prems(3) m by (simp add: sent_eq [OF Cons.prems(3) m] deliverable_def frame_bounds)
  moreover have "available d + length ch \<le> length (sent fr)"
    using arg_cong [OF Cons.prems(5), of length] by simp
  ultimately have "available d + length ch \<le> max_frame_bytes" by simp
  note f = feed_accepts [OF Cons.prems(1) this Cons.prems(2)]
  obtain fed e where fe: "feed ch d = (fed, e)" by (cases "feed ch d")
  have e: "st_ok fed" "\<not> failed e" "sane e" "window e = window d @ ch"
    "fd_max_payload e = fd_max_payload d"
    using f by (simp_all add: fe)
  have "\<exists>d'. await (map Inr chunks) q (c\<lparr>cl_decoder := e\<rparr>) = (Some (Inr fr), c\<lparr>cl_decoder := d'\<rparr>) \<and>
      \<not> failed d' \<and> sane d' \<and> window d' = [] \<and> fd_max_payload d' = fd_max_payload e"
    by (rule Cons.IH) (use Cons.prems e in auto)
  moreover have "await (map Inr (ch # chunks)) q (c\<lparr>cl_decoder := d\<rparr>) =
      await (map Inr chunks) q (c\<lparr>cl_decoder := e\<rparr>)"
    using p Cons.prems(1,6) fe e(1) by (auto simp: take_response_def)
  ultimately show ?case using e(5) by simp
qed

section \<open>A client and its session\<close>

text \<open>After the handshake, and between two calls.\<close>

definition established :: "Client \<Rightarrow> Session \<Rightarrow> bool" where
  "established c s \<longleftrightarrow>
     \<not> failed (cl_decoder c) \<and> sane (cl_decoder c) \<and> window (cl_decoder c) = [] \<and>
     fd_max_payload (cl_decoder c) = max_frame_payload \<and>
     sh_session (cl_header c) = ss_id s \<and> sh_epoch (cl_header c) = ss_epoch s \<and>
     sh_boot (cl_header c) = ss_boot s \<and>
     ss_last_request_sequence s \<le> sh_request_sequence (cl_header c)"

text \<open>The header and the frame of the next request.\<close>

definition next_header :: "Client \<Rightarrow> SessionHeader" where
  "next_header c = (cl_header c)\<lparr>sh_request_sequence := sh_request_sequence (cl_header c) + 1\<rparr>"

definition request_of :: "MsgType \<Rightarrow> byte list \<Rightarrow> Client \<Rightarrow> Frame" where
  "request_of type body c =
     \<lparr>fm_version = protocol_version, fm_type = type, fm_flags = 0, fm_sequence = cl_sequence c + 1,
      fm_payload = encode_session_request (next_header c) body\<rparr>"

definition in_budget :: "Client \<Rightarrow> Server \<Rightarrow> bool" where
  "in_budget c v \<longleftrightarrow> sh_request_sequence (cl_header c) < vo_max_requests_per_session (sv_options v)"

lemma next_header_accepted:
  assumes "established c s" "in_budget c v"
  shows "header_refusal (next_header c) s v = None"
    "ss_last_request_sequence s < sh_request_sequence (next_header c)"
proof -
  let ?q = "sh_request_sequence (cl_header c)" and ?n = "vo_max_requests_per_session (sv_options v)"
  have b: "unat ?q < unat ?n" using assms(2) by (simp add: in_budget_def word_less_nat_alt)
  have "unat ?n < 2 ^ 64" using unsigned_less [of ?n] by simp
  then have "unat (?q + 1) = unat ?q + 1" using b by (simp add: unat_word_ariths)
  then have q: "?q < ?q + 1" "?q + 1 \<le> ?n" using b by (simp_all add: word_less_nat_alt word_le_nat_alt)
  show l: "ss_last_request_sequence s < sh_request_sequence (next_header c)"
    using assms(1) q(1) le_less_trans by (auto simp: established_def next_header_def)
  show "header_refusal (next_header c) s v = None"
    unfolding header_refusal_None
    using assms(1) l q by (auto simp: established_def next_header_def)
qed

lemma nonempty: "0 < length xs \<Longrightarrow> xs \<noteq> []"
  by auto

text \<open>How a status arrives: success without decoration, a failure with its detail cut to the bound.\<close>

definition transmitted :: "Status \<Rightarrow> Status" where
  "transmitted st =
     (if st_ok st then ok_status
      else Status (st_code st) (st_reason st) (take max_reason_bytes (st_detail st)))"

definition delivery :: "byte list list \<Rightarrow> Exchange" where
  "delivery chunks = \<lparr>ex_answer = ok_status, ex_received = map Inr chunks\<rparr>"

text \<open>The response to an acknowledged operation, and what the client makes of it.\<close>

definition response_to :: "Status \<Rightarrow> u64 \<Rightarrow> Frame" where
  "response_to st q =
     \<lparr>fm_version = protocol_version, fm_type = dr_response_type (from_status st), fm_flags = 0,
      fm_sequence = q, fm_payload = dr_payload (from_status st)\<rparr>"

lemma error_payload:
  "encode_error_response v = enc_error_response v" "enc_error_response v \<noteq> []"
  unfolding encode_error_response_def
  by (rule error_response_codec.payload_eq, rule order_trans [OF length_enc_error_response])
    (simp_all add: max_record_payload_def enc_error_response_def)

lemma from_status_payload:
  "\<not> st_ok st \<Longrightarrow> from_status st =
     \<lparr>dr_response_type = MsgType_error_rsp, dr_payload = enc_error_response
        \<lparr>er_code = st_code st, er_reason = st_reason st,
         er_detail = take max_reason_bytes (st_detail st)\<rparr>,
      dr_close_session = False, dr_stop_server = False\<rparr>"
  by (simp add: from_status_def error_response_def error_payload Let_def)

lemma response_deliverable: "deliverable max_frame_payload (response_to st q)"
proof (cases "st_ok st")
  case False
  have "length (enc_error_response v) \<le> max_frame_payload" for v
    by (rule order_trans [OF length_enc_error_response]) (simp add: frame_bounds)
  then show ?thesis using False by (simp add: deliverable_def response_to_def from_status_payload)
qed (simp add: deliverable_def response_to_def from_status_def)

lemma response_sent: "sent (response_to st q) \<noteq> []"
  unfolding sent_eq [OF response_deliverable order_refl] by (rule nonempty) simp

lemma expect_ok_response:
  assumes "\<not> failed (cl_decoder c)" "sane (cl_decoder c)" "window (cl_decoder c) = []"
    "fd_max_payload (cl_decoder c) = max_frame_payload" "length payload \<le> max_frame_payload"
    "concat chunks = sent (response_to st (cl_sequence c + 1))" "[] \<notin> set chunks"
  shows "\<exists>d. expect_ok (delivery chunks) type payload c =
    (Some (transmitted st), c\<lparr>cl_sequence := cl_sequence c + 1, cl_decoder := d\<rparr>) \<and>
    \<not> failed d \<and> sane d \<and> window d = [] \<and> fd_max_payload d = max_frame_payload"
proof -
  let ?q = "cl_sequence c + 1" and ?fr = "response_to st (cl_sequence c + 1)"
  let ?c = "c\<lparr>cl_sequence := ?q\<rparr>"
  have "wire_frame type ?q payload \<noteq> []" by (rule nonempty) simp
  then have enc: "encode_frame type ?q 0 payload \<noteq> []" using assms(5) by (simp add: encode_frame_eq)
  have fq: "fm_sequence ?fr = ?q" by (simp add: response_to_def)
  obtain d where d: "await (map Inr chunks) ?q (?c\<lparr>cl_decoder := cl_decoder c\<rparr>) =
      (Some (Inr ?fr), ?c\<lparr>cl_decoder := d\<rparr>)"
    "\<not> failed d" "sane d" "window d = []" "fd_max_payload d = max_frame_payload"
    using await_delivers [OF assms(1,2) _ fq, of chunks ?c] assms(3,4,6,7) response_deliverable by auto
  have "round_trip (delivery chunks) type payload c = (Some (Inr ?fr), ?c\<lparr>cl_decoder := d\<rparr>)"
    using enc d(1) by (simp add: round_trip_def delivery_def Let_def)
  then have "expect_ok (delivery chunks) type payload c =
      (Some (transmitted st), ?c\<lparr>cl_decoder := d\<rparr>)"
  proof (cases "st_ok st")
    case True
    then show ?thesis
      if "round_trip (delivery chunks) type payload c = (Some (Inr ?fr), ?c\<lparr>cl_decoder := d\<rparr>)"
      using that by (simp add: expect_ok_def transact_def and_then_def response_to_def from_status_def
          status_of_def transmitted_def)
  next
    case False
    then show ?thesis
      if "round_trip (delivery chunks) type payload c = (Some (Inr ?fr), ?c\<lparr>cl_decoder := d\<rparr>)"
      using that by (simp add: expect_ok_def transact_def and_then_def response_to_def
          from_status_payload status_of_def transmitted_def decode_error_response_def
          error_response_codec.payload_decodes)
  qed
  then show ?thesis using d(2-5) by auto
qed

section \<open>The contract of a remote operation\<close>

locale remote_operation =
  fixes type :: MsgType and body :: "'a \<Rightarrow> byte list" and enc :: "'a \<Rightarrow> byte list"
    and wf :: "'a \<Rightarrow> bool" and op :: "'a \<Rightarrow> Fabric \<Rightarrow> Status \<times> Fabric"
  assumes request: "is_request_type type"
    and body_eq: "wf a \<Longrightarrow> body a = enc a" and ne: "enc a \<noteq> []"
    and size: "wf a \<Longrightarrow> length (enc a) + 32 \<le> max_record_payload"
    and operated: "wf a \<Longrightarrow> operate type (reader_at pre (enc a)) v = acknowledge (op a (sv_fabric v))"
begin

lemma served:
  assumes "established c s" "in_budget c v" "wf a"
  shows "\<exists>s' v'. request_frame ok_status (request_of type (body a) c) s v = (True, s', v') \<and>
    sv_fabric v' = snd (op a (sv_fabric v)) \<and> same_identity s s' \<and>
    ss_last_request_sequence s' = sh_request_sequence (next_header c) \<and>
    ss_written s' = ss_written s @
      [sent (response_to (fst (op a (sv_fabric v))) (cl_sequence c + 1))]"
proof -
  let ?fr = "request_of type (body a) c" and ?st = "fst (op a (sv_fabric v))"
  have "run_state decode_session_header (byte_reader (fm_payload ?fr)) =
      (Inr (next_header c), reader_at (enc_session_header (next_header c)) (enc a))"
    using session_request_decoded [OF size [OF assms(3)]] assms(3) by (simp add: request_of_def body_eq)
  then have d: "dispatch ?fr s v = (from_status ?st,
      s\<lparr>ss_last_request_sequence := sh_request_sequence (next_header c)\<rparr>,
      v\<lparr>sv_fabric := snd (op a (sv_fabric v))\<rparr>)"
    using next_header_accepted [OF assms(1,2)] operated [OF assms(3)]
    by (simp add: dispatch_def request_of_def acknowledge_def split_beta)
  have r: "\<not> dr_close_session (from_status ?st)" "\<not> dr_stop_server (from_status ?st)"
    by (cases "st_ok ?st"; simp add: from_status_def error_response_def Let_def)+
  have "fm_type (response_to ?st q) = dr_response_type (from_status ?st)"
    "fm_payload (response_to ?st q) = dr_payload (from_status ?st)" for q
    by (simp_all add: response_to_def)
  then have enc: "encode_frame (dr_response_type (from_status ?st)) (cl_sequence c + 1) 0
      (dr_payload (from_status ?st)) = sent (response_to ?st (cl_sequence c + 1))"
    by (simp add: sent_def response_to_def)
  show ?thesis
    using request r response_sent [of ?st "cl_sequence c + 1"]
    by (simp add: request_frame_def request_of_def [symmetric] d Let_def send_frame_def enc
        same_identity_def) (simp add: request_of_def enc)
qed

text \<open>The whole exchange, and the client is ready for the next.\<close>

lemma remote:
  assumes "established c s" "in_budget c v" "wf a"
  shows "\<exists>reply s' v'. request_frame ok_status (request_of type (body a) c) s v = (True, s', v') \<and>
    sv_fabric v' = snd (op a (sv_fabric v)) \<and> ss_written s' = ss_written s @ [reply] \<and> reply \<noteq> [] \<and>
    (\<forall>chunks. concat chunks = reply \<and> [] \<notin> set chunks \<longrightarrow>
      (\<exists>c'. submit (delivery chunks) type (body a) detail c =
          (Some (transmitted (fst (op a (sv_fabric v)))), c') \<and> established c' s'))"
proof -
  let ?st = "fst (op a (sv_fabric v))"
  obtain s' v' where sv: "request_frame ok_status (request_of type (body a) c) s v = (True, s', v')"
    "sv_fabric v' = snd (op a (sv_fabric v))" "same_identity s s'"
    "ss_last_request_sequence s' = sh_request_sequence (next_header c)"
    "ss_written s' = ss_written s @ [sent (response_to ?st (cl_sequence c + 1))]"
    using served [OF assms] by blast
  have "\<exists>c'. submit (delivery chunks) type (body a) detail c = (Some (transmitted ?st), c') \<and>
      established c' s'"
    if chunks: "concat chunks = sent (response_to ?st (cl_sequence c + 1))" "[] \<notin> set chunks" for chunks
  proof -
    let ?c = "c\<lparr>cl_header := next_header c\<rparr>" and ?p = "encode_session_request (next_header c) (body a)"
    have n: "next_request (body a) c = (?p, ?c)" by (simp add: next_request_def next_header_def Let_def)
    have "length ?p \<le> max_frame_payload"
      using size [OF assms(3)] session_request_eq [OF size [OF assms(3)], of "next_header c"] assms(3)
      by (simp add: body_eq max_record_payload_def max_frame_payload_def)
    then obtain d where d: "expect_ok (delivery chunks) type ?p ?c =
        (Some (transmitted ?st), ?c\<lparr>cl_sequence := cl_sequence c + 1, cl_decoder := d\<rparr>)"
      "\<not> failed d" "sane d" "window d = []" "fd_max_payload d = max_frame_payload"
      using expect_ok_response [of ?c ?p chunks ?st type] assms(1) chunks
      by (auto simp: established_def)
    moreover have "body a \<noteq> []" using body_eq [OF assms(3)] ne by simp
    ultimately have "submit (delivery chunks) type (body a) detail c =
        (Some (transmitted ?st), ?c\<lparr>cl_sequence := cl_sequence c + 1, cl_decoder := d\<rparr>)"
      by (simp add: submit_def n)
    moreover have "established (?c\<lparr>cl_sequence := cl_sequence c + 1, cl_decoder := d\<rparr>) s'"
      using d assms(1) sv(3,4) by (simp add: established_def same_identity_def next_header_def)
    ultimately show ?thesis by blast
  qed
  then show ?thesis using sv response_sent by blast
qed

end

text \<open>A request body with a codec whose decoder the switch uses satisfies the contract.\<close>

locale remote_codec = codec put get enc wf
  for put :: "'a \<Rightarrow> ByteWriter \<Rightarrow> ByteWriter" and get :: "'a Result reader"
    and enc :: "'a \<Rightarrow> byte list" and wf :: "'a \<Rightarrow> bool" +
  fixes type :: MsgType and detail :: string and op :: "'a \<Rightarrow> Fabric \<Rightarrow> Status \<times> Fabric"
  assumes asks: "is_request_type type" and some_bytes: "enc a \<noteq> []"
    and fits: "wf a \<Longrightarrow> length (enc a) + 32 \<le> max_record_payload"
    and switched: "operate type reader v =
      with_body get detail (\<lambda>a f. acknowledge (op a f)) reader (sv_fabric v)"

sublocale remote_codec \<subseteq> remote: remote_operation type "\<lambda>a. finish (put a payload_writer)" enc wf op
proof
  fix a assume a: "wf a"
  show "finish (put a payload_writer) = enc a" using fits [OF a] by (intro payload_eq) simp
  show "operate type (reader_at pre (enc a)) v = acknowledge (op a (sv_fabric v))" for pre v
    by (simp add: switched with_body_eq body_at [OF a])
qed (use asks some_bytes fits in auto)

lemmas remote_simps = is_request_type_def operate_def Let_def max_record_payload_def

interpretation set_policy: remote_codec put_policy get_policy enc_policy
  "\<lambda>v. st_ok (validate_policy v)" MsgType_set_policy_req "''policy payload invalid''" fabric_apply_policy
  by unfold_locales (rule nonempty | simp add: remote_simps)+

interpretation set_obligations: remote_codec put_obligations get_obligations enc_obligations
  "\<lambda>v. st_ok (validate_obligations v)" MsgType_set_obligations_req "''obligations payload invalid''"
  fabric_apply_obligations
  by unfold_locales (rule nonempty | simp add: remote_simps)+

interpretation put_set: remote_codec put_set get_set enc_set "\<lambda>v. st_ok (validate_set v)"
  MsgType_put_set_req "''alternate set payload invalid''" fabric_apply_alternate_set
proof (unfold_locales, goal_cases)
  case (3 a)
  then show ?case using length_enc_set_le [OF 3] by (simp add: max_record_payload_def)
qed (rule nonempty | simp add: remote_simps length_enc_set)+

interpretation put_evidence: remote_codec put_evidence get_evidence enc_evidence "\<lambda>_. True"
  MsgType_put_evidence_req "''evidence payload invalid''" fabric_apply_evidence
  by unfold_locales (rule nonempty | simp add: remote_simps)+

interpretation set_authority: remote_codec put_authority get_authority enc_authority "\<lambda>_. True"
  MsgType_set_authority_req "''authority payload invalid''" fabric_set_authority
  by unfold_locales (rule nonempty | simp add: remote_simps)+

interpretation effect: remote_codec put_effect_body decode_effect_body enc_effect_body "\<lambda>_. True"
  MsgType_effect_req "''effect payload invalid''" "\<lambda>b. record_effect (fst b) (snd b)"
  by unfold_locales (rule nonempty | simp add: remote_simps)+

interpretation abandon: remote_codec put_abandon_body decode_abandon_body enc_abandon_body "\<lambda>_. True"
  MsgType_abandon_req "''abandon payload invalid''" "\<lambda>b. abandon_attempt (fst b) (snd b)"
  by unfold_locales (rule nonempty | simp add: remote_simps)+

interpretation roll_back: remote_codec put_rollback_body decode_rollback_body enc_rollback_body
  "\<lambda>_. True" MsgType_rollback_req "''rollback payload invalid''" "\<lambda>b. rollback (fst b) (snd b)"
  by unfold_locales (rule nonempty | simp add: remote_simps)+

interpretation fence: remote_codec put_fence_body decode_fence_body enc_fence_body "\<lambda>_. True"
  MsgType_fence_req "''fence payload invalid''" "\<lambda>b. fabric_fence_path (fst b) (snd b)"
  by unfold_locales (rule nonempty | simp add: remote_simps)+

section \<open>The handshake\<close>

text \<open>
  Connecting establishes the session: the client ends up with the identity, epoch and boot the
  service has stored for it.
\<close>

definition hello_frame :: "ClientOptions \<Rightarrow> Frame" where
  "hello_frame options =
     \<lparr>fm_version = protocol_version, fm_type = MsgType_hello, fm_flags = 0, fm_sequence = 1,
      fm_payload = encode_hello_request
        \<lparr>hq_protocol = protocol_version, hq_client = client_name options, hq_nonce = co_nonce options\<rparr>\<rparr>"

definition ack_frame :: "Server \<Rightarrow> Frame" where
  "ack_frame v =
     \<lparr>fm_version = protocol_version, fm_type = MsgType_hello_ack, fm_flags = 0, fm_sequence = 1,
      fm_payload = enc_hello_response (hello_response (sv_session_sequence v + 1) v)\<rparr>"

lemma client_name_bound: "length (client_name options) \<le> max_name_bytes"
  by (simp add: client_name_def Let_def max_name_bytes_def)

lemma ack_deliverable: "deliverable max_frame_payload (ack_frame v)" "sent (ack_frame v) \<noteq> []"
proof -
  show d: "deliverable max_frame_payload (ack_frame v)"
    by (simp add: deliverable_def ack_frame_def frame_bounds)
  show "sent (ack_frame v) \<noteq> []"
    unfolding sent_eq [OF d order_refl] by (rule nonempty) simp
qed

lemma greeted:
  "\<exists>s' v'. handshake_frame ok_status (hello_frame options) s v = (True, s', v') \<and>
     ss_written s' = ss_written s @ [sent (ack_frame v)] \<and> sv_fabric v' = sv_fabric v \<and>
     ss_id s' = sv_session_sequence v + 1 \<and> ss_epoch s' = fi_epoch (fabric_identity (sv_fabric v)) \<and>
     ss_boot s' = fi_boot (fabric_identity (sv_fabric v)) \<and> ss_handshake_done s' \<and>
     ss_last_request_sequence s' = ss_last_request_sequence s"
proof -
  have ack: "encode_hello_response r = enc_hello_response r" for r
    unfolding encode_hello_response_def
    by (rule hello_response_codec.payload_eq) (simp add: max_record_payload_def)
  have ne: "enc_hello_response r \<noteq> []" for r by (rule nonempty) simp
  have r: "hello_response i (tick c n (v\<lparr>sv_session_sequence := q\<rparr>)) = hello_response i v" for i c n q
    by (simp add: hello_response_def tick_def)
  have e: "encode_frame MsgType_hello_ack 1 0
      (enc_hello_response (hello_response (sv_session_sequence v + 1) v)) = sent (ack_frame v)"
    by (simp add: sent_def ack_frame_def)
  have "decode_hello_request (fm_payload (hello_frame options)) =
      Inr \<lparr>hq_protocol = protocol_version, hq_client = client_name options, hq_nonce = co_nonce options\<rparr>"
    unfolding hello_frame_def by (simp add: hello_request_round_trip(2) client_name_bound)
  then have "handshake_frame ok_status (hello_frame options) s v = greet ok_status (hello_frame options) s v"
    by (simp add: handshake_frame_def hello_frame_def)
  moreover have "fm_sequence (hello_frame options) = 1" by (simp add: hello_frame_def)
  ultimately show ?thesis
    using ack_deliverable(2) [of v]
    by (simp add: greet_def Let_def ack ne r send_frame_def e)
qed

lemma connected:
  assumes "concat chunks = sent (ack_frame v)" "[] \<notin> set chunks"
  shows "\<exists>c. connect True (Inr ()) (delivery chunks) options = Some (Inr c) \<and>
    cl_header c = \<lparr>sh_session = sv_session_sequence v + 1,
      sh_epoch = fi_epoch (fabric_identity (sv_fabric v)),
      sh_boot = fi_boot (fabric_identity (sv_fabric v)), sh_request_sequence = 0\<rparr> \<and>
    \<not> failed (cl_decoder c) \<and> sane (cl_decoder c) \<and> window (cl_decoder c) = [] \<and>
    fd_max_payload (cl_decoder c) = max_frame_payload"
proof -
  let ?hello = "\<lparr>hq_protocol = protocol_version, hq_client = client_name options,
    hq_nonce = co_nonce options\<rparr>"
  have h: "encode_hello_request ?hello = enc_hello_request ?hello"
    by (simp add: hello_request_round_trip(1) client_name_bound)
  have len: "length (enc_hello_request ?hello) \<le> 110"
    using client_name_bound [of options]
    by (simp add: enc_hello_request_def enc_string_def max_name_bytes_def)
  have ne: "enc_hello_request ?hello \<noteq> []" by (rule nonempty) (simp add: enc_hello_request_def)
  let ?c = "new_client\<lparr>cl_sequence := 1\<rparr>"
  have c: "\<not> failed (cl_decoder ?c)" "sane (cl_decoder ?c)" "window (cl_decoder ?c) = []"
    "fd_max_payload (cl_decoder ?c) = max_frame_payload"
    by (simp_all add: new_client_def frame_decoder_def failed_def sane_def window_def)
  have q: "fm_sequence (ack_frame v) = 1" by (simp add: ack_frame_def)
  obtain d where d: "await (map Inr chunks) 1 (?c\<lparr>cl_decoder := cl_decoder ?c\<rparr>) =
      (Some (Inr (ack_frame v)), ?c\<lparr>cl_decoder := d\<rparr>)"
    "\<not> failed d" "sane d" "window d = []" "fd_max_payload d = max_frame_payload"
    using await_delivers [OF c(1,2) _ q, of chunks ?c] assms c(3,4) ack_deliverable(1) by auto
  have "wire_frame MsgType_hello 1 (enc_hello_request ?hello) \<noteq> []" by (rule nonempty) simp
  then have "round_trip (delivery chunks) MsgType_hello (enc_hello_request ?hello) new_client =
      (Some (Inr (ack_frame v)), ?c\<lparr>cl_decoder := d\<rparr>)"
    using d(1) len
    by (simp add: round_trip_def delivery_def Let_def encode_frame_eq new_client_def frame_bounds)
  moreover have "decode_hello_response (fm_payload (ack_frame v)) =
      Inr (hello_response (sv_session_sequence v + 1) v)"
    by (simp add: decode_hello_response_def ack_frame_def hello_response_codec.payload_decodes)
  moreover have "fm_type (ack_frame v) = MsgType_hello_ack" by (simp add: ack_frame_def)
  ultimately show ?thesis
    using d(2-5) h ne by (simp add: connect_def Let_def hello_response_def)
qed

lemma handshake_establishes:
  assumes "ss_last_request_sequence s = 0"
  obtains reply s' v' where
    "handshake_frame ok_status (hello_frame options) s v = (True, s', v')" "ss_handshake_done s'"
    "ss_written s' = ss_written s @ [reply]" "sv_fabric v' = sv_fabric v"
    "\<And>chunks. concat chunks = reply \<Longrightarrow> [] \<notin> set chunks \<Longrightarrow>
      \<exists>c. connect True (Inr ()) (delivery chunks) options = Some (Inr c) \<and> established c s'"
proof -
  obtain s' v' where g: "handshake_frame ok_status (hello_frame options) s v = (True, s', v')"
    "ss_written s' = ss_written s @ [sent (ack_frame v)]" "sv_fabric v' = sv_fabric v"
    "ss_id s' = sv_session_sequence v + 1" "ss_epoch s' = fi_epoch (fabric_identity (sv_fabric v))"
    "ss_boot s' = fi_boot (fabric_identity (sv_fabric v))" "ss_handshake_done s'"
    "ss_last_request_sequence s' = ss_last_request_sequence s"
    using greeted [of options s v] by blast
  have "\<exists>c. connect True (Inr ()) (delivery chunks) options = Some (Inr c) \<and> established c s'"
    if "concat chunks = sent (ack_frame v)" "[] \<notin> set chunks" for chunks
    using connected [OF that, of options] g assms by (auto simp: established_def)
  then show thesis using that g by blast
qed

section \<open>Calls through the service\<close>

text \<open>The calls the client offers whose answer is a status, with the values the wire format carries.\<close>

fun submittable :: "Call \<Rightarrow> bool" where
  "submittable (Apply_policy p) \<longleftrightarrow> st_ok (validate_policy p)"
| "submittable (Apply_obligations ob) \<longleftrightarrow> st_ok (validate_obligations ob)"
| "submittable (Apply_alternate_set st) \<longleftrightarrow> st_ok (validate_set st)"
| "submittable (Fence_all _) \<longleftrightarrow> False"
| "submittable (Evaluate _ _ _) \<longleftrightarrow> False"
| "submittable (Begin_promotion _ _ _) \<longleftrightarrow> False"
| "submittable (Revert _ _) \<longleftrightarrow> False"
| "submittable _ \<longleftrightarrow> True"

fun local_status :: "Call \<Rightarrow> Fabric \<Rightarrow> Status" where
  "local_status (Apply_policy p) f = fst (fabric_apply_policy p f)"
| "local_status (Apply_obligations ob) f = fst (fabric_apply_obligations ob f)"
| "local_status (Apply_alternate_set st) f = fst (fabric_apply_alternate_set st f)"
| "local_status (Apply_evidence e) f = fst (fabric_apply_evidence e f)"
| "local_status (Set_authority a) f = fst (fabric_set_authority a f)"
| "local_status (Fence_path path reason) f = fst (fabric_fence_path path reason f)"
| "local_status (Record_effect i effect) f = fst (record_effect i effect f)"
| "local_status (Abandon_attempt i reason) f = fst (abandon_attempt i reason f)"
| "local_status (Rollback i e) f = fst (rollback i e f)"
| "local_status _ f = ok_status"

fun remote_call :: "Exchange \<Rightarrow> Call \<Rightarrow> Client \<Rightarrow> Status option \<times> Client" where
  "remote_call x (Apply_policy p) c = client_set_policy x p c"
| "remote_call x (Apply_obligations ob) c = client_set_obligations x ob c"
| "remote_call x (Apply_alternate_set st) c = client_put_set x st c"
| "remote_call x (Apply_evidence e) c = client_put_evidence x e c"
| "remote_call x (Set_authority a) c = client_set_authority x a c"
| "remote_call x (Fence_path path reason) c = client_fence_path x path reason c"
| "remote_call x (Record_effect i effect) c = client_record_effect x i effect c"
| "remote_call x (Abandon_attempt i reason) c = client_abandon x i reason c"
| "remote_call x (Rollback i e) c = client_rollback x i e c"
| "remote_call x _ c = (None, c)"

text \<open>The frame the client sends for a call.\<close>

fun call_frame :: "Call \<Rightarrow> Client \<Rightarrow> Frame" where
  "call_frame (Apply_policy p) = request_of MsgType_set_policy_req (finish (put_policy p payload_writer))"
| "call_frame (Apply_obligations ob) =
     request_of MsgType_set_obligations_req (finish (put_obligations ob payload_writer))"
| "call_frame (Apply_alternate_set st) = request_of MsgType_put_set_req (finish (put_set st payload_writer))"
| "call_frame (Apply_evidence e) = request_of MsgType_put_evidence_req (finish (put_evidence e payload_writer))"
| "call_frame (Set_authority a) = request_of MsgType_set_authority_req (finish (put_authority a payload_writer))"
| "call_frame (Fence_path path reason) = request_of MsgType_fence_req (encode_fence_body path reason)"
| "call_frame (Record_effect i effect) = request_of MsgType_effect_req (encode_effect_body i effect)"
| "call_frame (Abandon_attempt i reason) = request_of MsgType_abandon_req (encode_abandon_body i reason)"
| "call_frame (Rollback i e) = request_of MsgType_rollback_req (encode_rollback_body i e)"
| "call_frame _ = request_of MsgType_error_rsp []"


definition sample_client :: Client where
  "sample_client = new_client\<lparr>cl_header := sample_header\<lparr>sh_request_sequence := 0\<rparr>\<rparr>"


end
