(* ===== verification/PFF_Tools.thy ===== *)
theory PFF_Tools
  imports PFF_Document
begin

text \<open>
  The command line helpers of \<open>apps/args.hpp\<close>. A command line is the list of the arguments
  \<open>argv[0]\<close> to \<open>argv[argc - 1]\<close>, none of which is null.

  Shown: \<open>strtoull\<close> reads back what the tools print as a decimal number; on a well-formed command
  line, options followed by a command and its options, \<open>command\<close> and \<open>arg_value\<close> return the command
  and the values given.
\<close>

section \<open>Numbers\<close>

text \<open>\<open>std::strtoull\<close> with base 10: white space, a sign, digits; the rest of the text is ignored.\<close>

definition is_space :: "char \<Rightarrow> bool" where
  "is_space c \<longleftrightarrow> of_char c \<in> {9, 10, 11, 12, 13, 32 :: nat}"

definition is_digit :: "char \<Rightarrow> bool" where
  "is_digit c \<longleftrightarrow> 48 \<le> (of_char c :: nat) \<and> (of_char c :: nat) \<le> 57"

definition digits_value :: "string \<Rightarrow> nat" where
  "digits_value ds = foldl (\<lambda>n c. 10 * n + (of_char c - 48)) 0 ds"

definition strtoull :: "string \<Rightarrow> u64" where
  "strtoull s =
     (let s = dropWhile is_space s;
          negative = (s \<noteq> [] \<and> hd s = CHR ''-'');
          s = (if s \<noteq> [] \<and> (hd s = CHR ''-'' \<or> hd s = CHR ''+'') then tl s else s);
          n = digits_value (takeWhile is_digit s)
      in if n > 18446744073709551615 then - 1
         else if negative then - word_of_nat n else word_of_nat n)"

text \<open>The formats \<open>%d\<close> of a truth value, \<open>%llu\<close> and \<open>%lld\<close>.\<close>

definition flag :: "bool \<Rightarrow> string" where
  "flag b = (if b then ''1'' else ''0'')"

definition number :: "u64 \<Rightarrow> string" where
  "number n = decimal (unat n)"

definition signed_number :: "i64 \<Rightarrow> string" where
  "signed_number n = (if sint n < 0 then ''-'' else '''') @ decimal (nat \<bar>sint n\<bar>)"

section \<open>Arguments\<close>

fun find_value :: "string \<Rightarrow> string list \<Rightarrow> string option" where
  "find_value key (x # y # rest) = (if key = x then Some y else find_value key (y # rest))"
| "find_value key _ = None"

definition arg_value :: "string list \<Rightarrow> string \<Rightarrow> string option" where
  "arg_value argv key = find_value key (drop 1 argv)"

definition flag_present :: "string list \<Rightarrow> string \<Rightarrow> bool" where
  "flag_present argv key \<longleftrightarrow> key \<in> set (drop 1 argv)"

definition arg_or :: "string list \<Rightarrow> string \<Rightarrow> string \<Rightarrow> string" where
  "arg_or argv key fallback =
     (case arg_value argv key of Some v \<Rightarrow> v | None \<Rightarrow> fallback)"

definition arg_u64 :: "string list \<Rightarrow> string \<Rightarrow> u64 \<Rightarrow> u64" where
  "arg_u64 argv key fallback =
     (case arg_value argv key of None \<Rightarrow> fallback | Some v \<Rightarrow> strtoull v)"

definition dashed :: "string \<Rightarrow> bool" where
  "dashed view \<longleftrightarrow> length view \<ge> 2 \<and> view ! 0 = CHR ''-'' \<and> view ! 1 = CHR ''-''"

fun find_command :: "string list \<Rightarrow> string option" where
  "find_command [] = None"
| "find_command (view # rest) = (if dashed view then find_command (drop 1 rest) else Some view)"

definition command :: "string list \<Rightarrow> string option" where
  "command argv = find_command (drop 1 argv)"

section \<open>Reading what was printed\<close>

lemma digit_char: "n < 10 \<Longrightarrow> (of_char (kDigits ! n) :: nat) = 48 + n"
  by (auto simp: kDigits_def nth_Cons' split: if_splits)

lemma digits_value_snoc: "digits_value (ds @ [c]) = 10 * digits_value ds + (of_char c - 48)"
  by (simp add: digits_value_def)

lemma digits_value_decimal: "digits_value (decimal n) = n"
proof (induction n rule: decimal.induct)
  case (1 n)
  then show ?case
    by (cases "n < 10") (simp_all add: decimal.simps [of n] digits_value_def digit_char)
qed

lemma decimal_digits: "\<forall>c \<in> set (decimal n). is_digit c"
proof (induction n rule: decimal.induct)
  case (1 n)
  then show ?case
    by (cases "n < 10") (auto simp: decimal.simps [of n] is_digit_def digit_char)
qed

lemma decimal_nonempty [simp]: "decimal n \<noteq> []"
  by (simp add: decimal.simps [of n])

lemma digit_plain: "is_digit c \<Longrightarrow> \<not> is_space c \<and> c \<noteq> CHR ''-'' \<and> c \<noteq> CHR ''+''"
  by (auto simp: is_digit_def is_space_def)

lemma strtoull_decimal: "n < 2 ^ 64 \<Longrightarrow> strtoull (decimal n) = word_of_nat n"
proof -
  assume n: "n < 2 ^ 64"
  have d: "is_digit (hd (decimal n))" using decimal_digits [of n] by simp
  then have "dropWhile is_space (decimal n) = decimal n"
    using digit_plain by (cases "decimal n") auto
  moreover have "takeWhile is_digit (decimal n) = decimal n"
    using decimal_digits [of n] by (simp add: takeWhile_eq_all_conv)
  ultimately show ?thesis
    using n digit_plain [OF d] by (simp del: takeWhile_eq_all_conv add: strtoull_def Let_def digits_value_decimal)
qed

lemma strtoull_number: "strtoull (number n) = n"
  using unsigned_less [of n, where ?'a = nat] by (simp add: number_def strtoull_decimal)

section \<open>Well-formed command lines\<close>

definition option_words :: "(string \<times> string) list \<Rightarrow> string list" where
  "option_words opts = concat (map (\<lambda>(key, v). [key, v]) opts)"

lemma option_words_simps [simp]:
  "option_words [] = []" "option_words ((key, v) # opts) = key # v # option_words opts"
  by (simp_all add: option_words_def)

lemma find_command_options:
  "\<forall>(key, v) \<in> set opts. dashed key \<Longrightarrow>
   find_command (option_words opts @ rest) = find_command rest"
  by (induction opts) auto

lemma find_value_options:
  "\<forall>(k, v) \<in> set opts. v \<noteq> key \<Longrightarrow>
   find_value key (option_words opts) = map_of opts key"
proof (induction opts)
  case (Cons o1 opts)
  obtain k v where o1: "o1 = (k, v)" by (cases o1)
  have "find_value key (v # option_words opts) = find_value key (option_words opts)"
    using Cons.prems o1 by (cases opts) auto
  then show ?case using Cons o1 by auto
qed simp

lemma find_value_skip:
  "\<forall>(k, v) \<in> set opts. v \<noteq> key \<Longrightarrow> word \<noteq> key \<Longrightarrow>
   find_value key (option_words opts @ word # rest) =
     (case map_of opts key of Some v \<Rightarrow> Some v | None \<Rightarrow> find_value key rest)"
proof (induction opts)
  case Nil
  then show ?case by (cases rest) auto
next
  case (Cons o1 opts)
  obtain k v where o1: "o1 = (k, v)" by (cases o1)
  have "find_value key (v # option_words opts @ word # rest) =
      find_value key (option_words opts @ word # rest)"
    using Cons.prems o1 by (cases opts) auto
  then show ?case using Cons o1 by auto
qed

text \<open>
  Options, the command, and more options: the command and every value are found, unless a value
  reads like the option looked for.
\<close>

lemma parsed:
  assumes "\<forall>(k, v) \<in> set before. dashed k" "\<not> dashed word"
  shows "command (prog # option_words before @ word # option_words behind) = Some word"
    and "dashed key \<Longrightarrow> \<forall>(k, v) \<in> set (before @ behind). v \<noteq> key \<Longrightarrow>
      arg_value (prog # option_words before @ word # option_words behind) key =
        map_of (before @ behind) key"
proof -
  show "command (prog # option_words before @ word # option_words behind) = Some word"
    using find_command_options [OF assms(1)] assms(2) by (simp add: command_def)
  show "arg_value (prog # option_words before @ word # option_words behind) key =
      map_of (before @ behind) key"
    if "dashed key" "\<forall>(k, v) \<in> set (before @ behind). v \<noteq> key"
  proof -
    have "word \<noteq> key" using that(1) assms(2) by blast
    then show ?thesis
      using find_value_skip [of before key word "option_words behind"] that(2)
        find_value_options [of behind key]
      by (auto simp: arg_value_def map_add_def split: option.splits)
  qed
qed

end
