(* ===== verification/PFF_Net.thy ===== *)
theory PFF_Net
  imports PFF_Document "HOL-Library.Sublist"
begin

text \<open>
  The socket layer of \<open>src/net.hpp\<close> and \<open>src/net.cpp\<close> and the platform helpers of
  \<open>src/platform.hpp\<close> and \<open>src/platform.cpp\<close>, over the answers of the system calls, which are
  arguments. A socket is a number, \<^const>\<open>None\<close> the invalid one. Operations that may close a
  descriptor return the list of those they closed. The model follows the POSIX branches; \<open>errno\<close> is
  an argument where a failure is described.

  Shown: \<open>send_all\<close> ends for every behaviour of the kernel, has written a prefix of its data, and
  reports success exactly when it has written all of it; a failed set-up leaves no socket open; an
  identity drawn from \<open>random_u64\<close> is never the absent one; a lock that could not be taken leaves no
  descriptor behind.
\<close>

unbundle bit_operations_syntax

section \<open>Set-up\<close>

definition last_error_text :: "nat \<Rightarrow> string" where
  "last_error_text errno = ''socket error '' @ decimal errno"

definition net_failure :: "nat \<Rightarrow> Status" where
  "net_failure errno = Status Code_io_failure Reason_io_failure (last_error_text errno)"

definition library_unavailable :: Status where
  "library_unavailable = Status Code_unsupported Reason_io_failure ''socket library unavailable''"

record ListenIO =
  lio_initialized :: bool
  lio_socket :: "nat option"
  lio_bind :: bool
  lio_listen :: bool
  lio_getsockname :: "u16 option"
  lio_errno :: nat

definition listen_loopback :: "ListenIO \<Rightarrow> (nat \<times> u16) Result \<times> nat list" where
  "listen_loopback io =
     (if \<not> lio_initialized io then (Inl library_unavailable, [])
      else
     (case lio_socket io of
        None \<Rightarrow> (Inl (net_failure (lio_errno io)), [])
      | Some listener \<Rightarrow>
          if \<not> lio_bind io then (Inl (net_failure (lio_errno io)), [listener])
          else if \<not> lio_listen io then (Inl (net_failure (lio_errno io)), [listener])
          else
     (case lio_getsockname io of
        None \<Rightarrow> (Inl (net_failure (lio_errno io)), [listener])
      | Some bound_port \<Rightarrow> (Inr (listener, bound_port), []))))"

definition accept_one :: "nat option \<Rightarrow> nat \<Rightarrow> nat Result" where
  "accept_one accepted errno =
     (case accepted of None \<Rightarrow> Inl (net_failure errno) | Some handle \<Rightarrow> Inr handle)"

record ConnectIO =
  cio_initialized :: bool
  cio_socket :: "nat option"
  cio_inet_pton :: bool
  cio_connect :: bool
  cio_errno :: nat

definition connect_loopback :: "ConnectIO \<Rightarrow> nat Result \<times> nat list" where
  "connect_loopback io =
     (if \<not> cio_initialized io then (Inl library_unavailable, [])
      else
     (case cio_socket io of
        None \<Rightarrow> (Inl (net_failure (cio_errno io)), [])
      | Some client \<Rightarrow>
          if \<not> cio_inet_pton io then
            (Inl (Status Code_invalid Reason_domain_invalid
               ''bind address must be a literal IPv4 address''), [client])
          else if \<not> cio_connect io then (Inl (net_failure (cio_errno io)), [client])
          else (Inr client, [])))"

definition close_handle :: "nat option \<Rightarrow> bool \<Rightarrow> Status" where
  "close_handle handle closed =
     (if handle = None then ok_status
      else if \<not> closed then Status Code_io_failure Reason_io_failure ''close failed''
      else ok_status)"

definition shutdown_handle :: "nat option \<Rightarrow> Status" where
  "shutdown_handle handle = ok_status"

text \<open>The sockets a set-up leaves open.\<close>

lemma listen_no_leak:
  "listen_loopback io = (result, closed) \<Longrightarrow>
     (case result of
        Inl status \<Rightarrow> \<not> st_ok status \<and>
          (lio_initialized io \<longrightarrow> closed = (case lio_socket io of None \<Rightarrow> [] | Some h \<Rightarrow> [h]))
      | Inr (listener, port) \<Rightarrow> lio_socket io = Some listener \<and> closed = [])"
  by (auto simp: listen_loopback_def library_unavailable_def net_failure_def st_ok_def
      split: if_splits option.splits)

lemma connect_no_leak:
  "connect_loopback io = (result, closed) \<Longrightarrow>
     (case result of
        Inl status \<Rightarrow> \<not> st_ok status \<and>
          (cio_initialized io \<longrightarrow> closed = (case cio_socket io of None \<Rightarrow> [] | Some h \<Rightarrow> [h]))
      | Inr client \<Rightarrow> cio_socket io = Some client \<and> closed = [])"
  by (auto simp: connect_loopback_def library_unavailable_def net_failure_def st_ok_def
      split: if_splits option.splits)

section \<open>Transfer\<close>

definition max_transfer :: nat where "max_transfer = 1048576"

text \<open>
  \<open>answer k n\<close> is what the \<open>k\<close>-th call of \<open>::send\<close> returns for \<open>n\<close> requested bytes; \<open>sent\<close> of the
  code is \<open>n\<close>. Beside the outcome the loop returns what the kernel has taken and the number of
  calls.
\<close>

function send_loop ::
  "(nat \<Rightarrow> nat \<Rightarrow> int) \<Rightarrow> nat \<Rightarrow> byte list \<Rightarrow> nat \<Rightarrow> byte list \<Rightarrow> bool \<times> byte list \<times> nat" where
  "send_loop answer k data n out =
     (if n < length data then
        (let chunk = length data - n;
             request = (if chunk > max_transfer then max_transfer else chunk);
             written = answer k request
         in if written \<le> 0 then (False, out, Suc k)
            else send_loop answer (Suc k) data (n + nat written)
                   (out @ take (nat written) (drop n data)))
      else (True, out, k))"
  by pat_completeness auto
termination
  by (relation "measure (\<lambda>(answer, k, data, n, out). length data - n)") (auto simp: Let_def)

declare send_loop.simps [simp del]

definition send_all :: "(nat \<Rightarrow> nat \<Rightarrow> int) \<Rightarrow> nat \<Rightarrow> byte list \<Rightarrow> Status \<times> byte list \<times> nat" where
  "send_all answer errno data =
     (case send_loop answer 0 data 0 [] of
        (complete, taken) \<Rightarrow> (if complete then ok_status else net_failure errno, taken))"

text \<open>\<open>answer n\<close> is what one \<open>::recv\<close> for \<open>n\<close> bytes delivers; the empty list is the end of the stream.\<close>

definition recv_some :: "(nat \<Rightarrow> byte list option) \<Rightarrow> nat \<Rightarrow> nat \<Rightarrow> byte list Result" where
  "recv_some answer errno room =
     (if room = 0 then Inr []
      else
        (let request = (if room > max_transfer then max_transfer else room)
         in case answer request of None \<Rightarrow> Inl (net_failure errno) | Some got \<Rightarrow> Inr got))"

lemma recv_some_fits:
  assumes "\<And>n got. answer n = Some got \<Longrightarrow> length got \<le> n" "recv_some answer errno room = Inr got"
  shows "length got \<le> min room max_transfer"
  using assms(2) assms(1) [of "min room max_transfer"]
  by (auto simp: recv_some_def min_def split: if_splits option.splits)

lemma send_loop_written:
  assumes "\<And>k n. answer k n \<le> int n" "n \<le> length data" "out = take n data"
    and "send_loop answer k data n out = (complete, taken, calls)"
  shows "prefix taken data \<and> (complete \<longleftrightarrow> taken = data) \<and> calls \<le> k + (length data - n)"
  using assms
proof (induction answer k data n out rule: send_loop.induct)
  case (1 answer k data n out)
  let ?request = "if length data - n > max_transfer then max_transfer else length data - n"
  let ?written = "answer k ?request"
  show ?case
  proof (cases "n < length data")
    case False
    then show ?thesis using 1(3-) by (auto simp: send_loop.simps)
  next
    case more: True
    show ?thesis
    proof (cases "?written \<le> 0")
      case True
      then have "taken = take n data" "\<not> complete" "calls = Suc k"
        using more 1(4) 1(5) [unfolded send_loop.simps [of answer k data n out]] by (simp_all add: Let_def)
      then show ?thesis using more by (auto simp: take_is_prefix dest: arg_cong [of _ _ length])
    next
      case False
      have fits: "n + nat ?written \<le> length data"
        using 1(2) [of k ?request] more by (auto split: if_splits)
      have "send_loop answer (Suc k) data (n + nat ?written)
          (out @ take (nat ?written) (drop n data)) = (complete, taken, calls)"
        using 1(5) more False by (simp add: send_loop.simps [of answer k data n out] Let_def)
      then have "prefix taken data \<and> (complete \<longleftrightarrow> taken = data) \<and>
          calls \<le> Suc k + (length data - (n + nat ?written))"
        using 1(1) [OF more refl refl refl False 1(2) fits] 1(4) by (simp add: take_add)
      then show ?thesis using False fits by linarith
    qed
  qed
qed

lemma send_loop_complete:
  assumes "\<And>k n. 0 < n \<Longrightarrow> 0 < answer k n"
  shows "fst (send_loop answer k data n out)"
  using assms
proof (induction answer k data n out rule: send_loop.induct)
  case (1 answer k data n out)
  show ?case
  proof (cases "n < length data")
    case True
    then have "0 < (if length data - n > max_transfer then max_transfer else length data - n)"
      by (simp add: max_transfer_def)
    then have "\<not> answer k (if length data - n > max_transfer then max_transfer else length data - n) \<le> 0"
      using 1(2) not_le by blast
    then show ?thesis using 1(1) [OF True refl refl refl _ 1(2)] True
      by (simp add: send_loop.simps [of answer k data n out] Let_def)
  qed (simp add: send_loop.simps)
qed

section \<open>Files, locks and identities\<close>

definition sync_stream :: "bool \<Rightarrow> int \<Rightarrow> int \<Rightarrow> bool" where
  "sync_stream stream fflush fsync =
     (if \<not> stream then False else if fflush \<noteq> 0 then False else fsync = 0)"

definition truncate_stream :: "bool \<Rightarrow> int \<Rightarrow> int \<Rightarrow> bool" where
  "truncate_stream stream fflush ftruncate =
     (if \<not> stream then False else if fflush \<noteq> 0 then False else ftruncate = 0)"

definition atomic_replace :: "int \<Rightarrow> bool" where
  "atomic_replace rename = (rename = 0)"

definition sync_directory :: "int \<Rightarrow> int \<Rightarrow> bool \<times> int list" where
  "sync_directory fd fsync =
     (if fd < 0 then (False, [])
      else (let ok = fsync = 0 in (ok, [fd])))"

text \<open>
  The lock handle is the descriptor read as a pointer; \<open>nullptr\<close> is 0. The second component lists the
  descriptors closed.
\<close>

definition acquire_lock :: "int \<Rightarrow> int \<Rightarrow> int \<times> int list" where
  "acquire_lock fd flock =
     (if fd < 0 then (0, [])
      else if flock \<noteq> 0 then (0, [fd])
      else (fd, []))"

definition release_lock :: "int \<Rightarrow> int list" where
  "release_lock handle = (if handle = 0 then [] else [handle])"

definition file_exists :: "bool \<Rightarrow> bool \<Rightarrow> bool" where
  "file_exists found ec \<longleftrightarrow> found \<and> \<not> ec"

definition remove_file :: "bool \<Rightarrow> bool \<Rightarrow> bool" where
  "remove_file removed ec \<longleftrightarrow> removed \<and> \<not> ec"

definition file_size :: "u64 option \<Rightarrow> u64 \<Rightarrow> bool \<times> u64" where
  "file_size found room = (case found of None \<Rightarrow> (False, room) | Some n \<Rightarrow> (True, n))"

text \<open>The two words of the device, the clock in microseconds and the process number are arguments.\<close>

definition random_u64 :: "u32 \<Rightarrow> u32 \<Rightarrow> u64 \<Rightarrow> u64 \<Rightarrow> u64" where
  "random_u64 device1 device2 unix_micros process_id =
     (let drawn = push_bit 32 (ucast device1) XOR ucast device2;
          drawn = drawn XOR unix_micros;
          drawn = drawn XOR push_bit 17 process_id;
          drawn = drawn * 0x9E3779B97F4A7C15;
          drawn = drawn XOR drop_bit 29 drawn
      in if drawn = 0 then 0xA5A5A5A5A5A5A5A5 else drawn)"

lemma random_u64_valid: "valid (random_u64 device1 device2 micros pid)"
  by (simp add: random_u64_def valid_def Let_def)

text \<open>
  A lock handle is usable or nothing is left open, unless the descriptor is 0: then the lock is
  held, the descriptor stays open, and the caller is told that the lock is taken.
\<close>

lemma acquire_lock_cases:
  assumes "acquire_lock fd flock = (handle, closed)"
  shows "(handle \<noteq> 0 \<and> flock = 0 \<and> release_lock handle = [fd] \<and> closed = []) \<or>
    (handle = 0 \<and> (fd < 0 \<or> closed = [fd])) \<or> (handle = 0 \<and> fd = 0 \<and> flock = 0 \<and> closed = [])"
  using assms by (auto simp: acquire_lock_def release_lock_def split: if_splits)

section \<open>Claims\<close>

text \<open>
  C33: \<open>send_all\<close> ends. Whatever the kernel answers, as long as it never claims more than was
  requested, the loop stops after at most one call per byte, the bytes taken are a prefix of the
  data, and success is reported exactly when all of it was taken; it is reported whenever every
  call makes progress.
\<close>

theorem send_all_complete:
  assumes "\<And>k n. answer k n \<le> int n" "send_all answer errno data = (status, taken, calls)"
  shows "prefix taken data \<and> calls \<le> length data \<and> (st_ok status \<longleftrightarrow> taken = data) \<and>
    ((\<forall>k n. 0 < n \<longrightarrow> 0 < answer k n) \<longrightarrow> st_ok status)"
proof -
  obtain complete where run: "send_loop answer 0 data 0 [] = (complete, taken, calls)"
    "status = (if complete then ok_status else net_failure errno)"
    using assms(2) by (auto simp: send_all_def split: prod.splits)
  then have "st_ok status \<longleftrightarrow> complete" by (simp add: net_failure_def st_ok_def ok_status_def)
  then show ?thesis
    using send_loop_written [OF assms(1) _ _ run(1)] send_loop_complete [of answer 0 data 0 "[]"] run(1)
    by auto
qed

theorem send_all_complete_witness:
  "snd (send_all (\<lambda>k n. int (min n 3)) 0 [1, 2, 3, 4, 5, 6, 7]) = ([1, 2, 3, 4, 5, 6, 7], 3) \<and>
   st_ok (fst (send_all (\<lambda>k n. int (min n 3)) 0 [1, 2, 3, 4, 5, 6, 7]))"
proof -
  obtain status taken calls where
    run: "send_all (\<lambda>k n. int (min n 3)) 0 [1, 2, 3, 4, 5, 6, 7] = (status, taken, calls)"
    using prod_cases3 by blast
  have "calls = 3"
    using run by (auto simp: send_all_def send_loop.simps max_transfer_def Let_def)
  then show ?thesis
    using send_all_complete [OF _ run] run by simp blast
qed

end
