(* ===== verification/PFF_Daemon.thy ===== *)
theory PFF_Daemon
  imports PFF_Service PFF_Tools PFF_Net
begin

text \<open>
  The daemon: \<open>Server::run\<close>, the release of blocked sessions and the end of the service
  (\<open>src/server.cpp\<close>), and the program \<open>apps/pffd.cpp\<close> from its command line to its exit code.

  A run of the accept loop is driven by a list of turns. In each turn the session threads first do
  some work, then \<open>accept\<close> answers, given the state it meets, and the thread for the new session
  can be started or not. A program's result is its exit code, \<^const>\<open>None\<close> while it still waits,
  and the lines it has printed.

  Shown: a stop request shuts down the socket of every session; every state of a daemon that has
  announced its port is a state of a started service; it exits with 0 only when a stop was
  requested and every session has ended.
\<close>

section \<open>The end of the service\<close>

text \<open>The sockets \<open>release_blocked_io\<close> shuts down: the handles that fit its array.\<close>

definition release_blocked_io :: "Server \<Rightarrow> nat list" where
  "release_blocked_io v = take max_sessions (map ss_socket (sv_sessions v))"

definition wait_for_sessions :: "Server \<Rightarrow> bool" where
  "wait_for_sessions v \<longleftrightarrow> sv_active_threads v = 0"

section \<open>The accept loop\<close>

record Turn =
  tn_work :: "Server \<Rightarrow> Server"
  tn_accept :: "Server \<Rightarrow> nat option"
  tn_errno :: nat
  tn_spawned :: bool

primrec accept_loop :: "Turn list \<Rightarrow> Server \<Rightarrow> Status option \<times> Server" where
  "accept_loop [] v = (None, v)"
| "accept_loop (turn # turns) v =
     (let v = tn_work turn v in
      case accept_turn (accept_one (tn_accept turn v) (tn_errno turn)) (tn_spawned turn) v of
        (None, v) \<Rightarrow> accept_loop turns v
      | (Some status, v) \<Rightarrow> (Some status, v))"

text \<open>\<open>ending\<close> is the work of the session threads after the loop, until the last one has ended.\<close>

definition server_run :: "Turn list \<Rightarrow> (Server \<Rightarrow> Server) \<Rightarrow> Server \<Rightarrow> Status option \<times> Server" where
  "server_run turns ending v =
     (case accept_loop turns v of
        (None, v) \<Rightarrow> (None, v)
      | (Some status, v) \<Rightarrow>
          if \<not> st_ok status then (Some status, v)
          else (let v = ending v in
                if wait_for_sessions v then (Some ok_status, v) else (None, v)))"

section \<open>The program\<close>

record Report =
  rp_exit :: "nat option"
  rp_out :: "string list"
  rp_err :: "string list"

definition exits :: "nat \<Rightarrow> string list \<Rightarrow> string list \<Rightarrow> Report" where
  "exits code out err = \<lparr>rp_exit = Some code, rp_out = out, rp_err = err\<rparr>"

record DaemonEnv =
  de_store :: "string \<Rightarrow> Store Result"
  de_process :: ProcessInfo
  de_initialized :: bool
  de_listen :: "u16 \<Rightarrow> ListenIO"
  de_turns :: "Turn list"
  de_ending :: "Server \<Rightarrow> Server"

definition provenance_option :: "string \<Rightarrow> Provenance" where
  "provenance_option provenance =
     (if provenance = ''real'' then Provenance_real else Provenance_synthetic)"

definition fabric_arguments :: "string list \<Rightarrow> FabricOptions" where
  "fabric_arguments argv = default_fabric_options
     \<lparr>fo_provenance := provenance_option (arg_or argv ''--provenance'' ''synthetic'')\<rparr>"

definition server_arguments :: "string list \<Rightarrow> ServerOptions" where
  "server_arguments argv = default_server_options
     \<lparr>vo_bind_address := arg_or argv ''--bind'' ''127.0.0.1'',
      vo_port := ucast (arg_u64 argv ''--port'' 0),
      vo_allow_shutdown := \<not> flag_present argv ''--no-shutdown''\<rparr>"

definition pffd_usage :: string where
  "pffd_usage = ''usage: pffd --dir <state-dir> [--port N] [--bind 127.0.0.1] '' @
     ''[--no-shutdown] [--provenance real|synthetic]''"

definition announcement :: "u16 \<Rightarrow> FabricIdentity \<Rightarrow> string list" where
  "announcement port identity =
     [''LISTENING '' @ decimal (unat port),
      ''IDENTITY epoch='' @ decimal (unat (fi_epoch identity)) @ '' boot='' @ id_hex (fi_boot identity) @
      '' incarnation='' @ id_hex (fi_incarnation identity) @ '' restart='' @
      decimal (unat (fi_restart_count identity))]"

definition serve_until_stopped ::
  "DaemonEnv \<Rightarrow> u16 \<Rightarrow> Server \<Rightarrow> Report \<times> Server option" where
  "serve_until_stopped env port v =
     (let out = announcement port (fabric_identity (sv_fabric v)) in
      case server_run (de_turns env) (de_ending env) v of
        (None, v) \<Rightarrow> (\<lparr>rp_exit = None, rp_out = out, rp_err = []\<rparr>, Some v)
      | (Some status, v) \<Rightarrow>
          (if \<not> st_ok status
           then exits 5 out [''pffd: service stopped with error: '' @ status_describe status]
           else exits 0 (out @ [''STOPPED'']) [], Some v))"

definition pffd_main :: "DaemonEnv \<Rightarrow> string list \<Rightarrow> Report \<times> Server option" where
  "pffd_main env argv =
     (case arg_value argv ''--dir'' of
        None \<Rightarrow> (exits 2 [] [pffd_usage], None)
      | Some directory \<Rightarrow>
     (case fabric_open (fabric_arguments argv) (de_store env directory) (de_process env) of
        Inl status \<Rightarrow>
          (exits 3 [] [''pffd: cannot open state directory: '' @ status_describe status], None)
      | Inr fabric \<Rightarrow>
     (let options = server_arguments argv;
          listener = fst (listen_loopback (de_listen env (vo_port options)))
      in case server_start options (de_initialized env) (map_sum (\<lambda>s. s) snd listener) fabric of
           Inl status \<Rightarrow>
             (exits 4 [] [''pffd: cannot start service: '' @ status_describe status], None)
         | Inr v \<Rightarrow>
             serve_until_stopped env (case listener of Inr (_, port) \<Rightarrow> port | Inl _ \<Rightarrow> 0) v)))"

section \<open>Every state of the daemon\<close>

text \<open>
  What is relied on: the threads of the service only take its steps, and \<open>accept\<close> returns a
  descriptor that is not the socket of a session.
\<close>

definition proper_turn :: "Turn \<Rightarrow> bool" where
  "proper_turn t \<longleftrightarrow> (\<forall>v. service_step\<^sup>*\<^sup>* v (tn_work t v)) \<and>
     (\<forall>v k. tn_accept t v = Some k \<longrightarrow> k \<notin> ss_socket ` set (sv_sessions v))"

definition proper_threads :: "DaemonEnv \<Rightarrow> bool" where
  "proper_threads env \<longleftrightarrow> list_all proper_turn (de_turns env) \<and>
     (\<forall>v. service_step\<^sup>*\<^sup>* v (de_ending env v))"

lemma accept_loop_steps:
  assumes "list_all proper_turn turns" "accept_loop turns v = (result, v')"
  shows "service_step\<^sup>*\<^sup>* v v'"
  using assms
proof (induction turns arbitrary: v)
  case (Cons t turns)
  let ?w = "tn_work t v"
  let ?u = "accept_turn (accept_one (tn_accept t ?w) (tn_errno t)) (tn_spawned t) ?w"
  have "service_step ?w (snd ?u)"
    by (rule service_step.connect)
      (use Cons.prems(1) in \<open>auto simp: proper_turn_def accept_one_def split: option.splits\<close>)
  then have "service_step\<^sup>*\<^sup>* v (snd ?u)"
    using Cons.prems(1) by (auto simp: proper_turn_def intro: rtranclp.rtrancl_into_rtrancl)
  then show ?case
    using Cons by (auto simp: Let_def split: prod.splits option.splits intro: rtranclp_trans)
qed simp

lemma accept_loop_stopped:
  "accept_loop turns v = (Some status, v') \<Longrightarrow> st_ok status \<Longrightarrow> sv_stop v'"
proof (induction turns arbitrary: v)
  case (Cons t turns)
  let ?w = "tn_work t v"
  obtain r u where t: "accept_turn (accept_one (tn_accept t ?w) (tn_errno t)) (tn_spawned t) ?w = (r, u)"
    by fastforce
  show ?case
  proof (cases r)
    case None
    then show ?thesis using Cons.IH [of u] Cons.prems t by (simp add: Let_def)
  next
    case (Some status')
    then have "status' = status" "u = v'" using Cons.prems(1) t by (simp_all add: Let_def)
    then show ?thesis
      using t Some Cons.prems(2)
      by (auto simp: accept_turn_def accept_one_def net_failure_def st_ok_def Let_def
          split: if_splits option.splits)
  qed
qed simp

text \<open>A stop reaches every session: the handle array is as large as the session table.\<close>

lemma all_sessions_released: "in_service v \<Longrightarrow> release_blocked_io v = map ss_socket (sv_sessions v)"
  using session_table.always [of v] by (simp add: release_blocked_io_def orderly_def)

lemma server_run_steps:
  assumes "proper_threads env" "server_run (de_turns env) (de_ending env) v = (result, v')"
  shows "service_step\<^sup>*\<^sup>* v v'"
proof -
  obtain r u where l: "accept_loop (de_turns env) v = (r, u)" by fastforce
  then have "service_step\<^sup>*\<^sup>* v u" "service_step\<^sup>*\<^sup>* u (de_ending env u)"
    using assms(1) accept_loop_steps by (auto simp: proper_threads_def)
  then show ?thesis
    using assms(2) l by (auto simp: server_run_def Let_def split: option.splits if_splits)
qed

lemma pffd_started:
  assumes "pffd_main env argv = (report, Some v)"
  obtains fabric options initialized listener port v0 where
    "reachable fabric" "server_start options initialized listener fabric = Inr v0"
    "serve_until_stopped env port v0 = (report, Some v)"
  using assms unfolding pffd_main_def Let_def
  by (simp split: option.splits sum.splits prod.splits) (blast intro: started)+

lemma serve_until_stopped_cases:
  assumes "serve_until_stopped env port v0 = (report, Some v)"
  obtains result where "server_run (de_turns env) (de_ending env) v0 = (result, v)"
    "rp_out report = announcement port (fabric_identity (sv_fabric v0)) @
       (if rp_exit report = Some 0 then [''STOPPED''] else [])"
    "rp_exit report = (case result of None \<Rightarrow> None | Some status \<Rightarrow> Some (if st_ok status then 0 else 5))"
  using assms unfolding serve_until_stopped_def Let_def
  by (auto simp: exits_def split: prod.splits option.splits if_splits)

lemma server_run_stopped:
  assumes "server_run turns ending v0 = (Some status, v)" "st_ok status"
  shows "sv_active_threads v = 0 \<and> (\<exists>u. sv_stop u \<and> v = ending u)"
  using assms accept_loop_stopped [of turns v0]
  by (auto simp: server_run_def wait_for_sessions_def Let_def split: prod.splits option.splits if_splits)

section \<open>Claims\<close>

text \<open>
  C12: The daemon. Whatever its arguments, the directory and the system calls answer, and however the
  threads interleave: a run of \<open>pffd\<close> that does not announce a port exits with 2, 3 or 4 and prints
  nothing on its output. Once it has announced one, it is a started service, so at most one
  attempt holds a grant and a stop reaches the socket of every session; and it exits with 0 only
  after a stop was requested and the last session has ended.
\<close>

theorem daemon_safe:
  assumes "proper_threads env" "pffd_main env argv = (report, server)"
  shows "case server of
      None \<Rightarrow> rp_out report = [] \<and> rp_exit report \<in> {Some 2, Some 3, Some 4}
    | Some v \<Rightarrow> in_service v \<and>
        length (filter (\<lambda>a. is_grant_state (ar_state a)) (query_attempts (sv_fabric v))) \<le> 1 \<and>
        release_blocked_io v = map ss_socket (sv_sessions v) \<and>
        (rp_exit report = Some 0 \<longrightarrow> sv_sessions v = [] \<and> last (rp_out report) = ''STOPPED'' \<and>
          (\<exists>u. sv_stop u \<and> v = de_ending env u))"
proof (cases server)
  case None
  then show ?thesis
    using assms(2)
    by (auto simp: pffd_main_def exits_def serve_until_stopped_def Let_def
        split: option.splits sum.splits prod.splits)
next
  case (Some v)
  obtain fabric options initialized listener port v0 where
    v0: "reachable fabric" "server_start options initialized listener fabric = Inr v0"
      "serve_until_stopped env port v0 = (report, Some v)"
    by (rule pffd_started [OF assms(2) [unfolded Some]])
  obtain result where r: "server_run (de_turns env) (de_ending env) v0 = (result, v)"
    "rp_out report = announcement port (fabric_identity (sv_fabric v0)) @
       (if rp_exit report = Some 0 then [''STOPPED''] else [])"
    "rp_exit report = (case result of None \<Rightarrow> None | Some status \<Rightarrow> Some (if st_ok status then 0 else 5))"
    by (rule serve_until_stopped_cases [OF v0(3)])
  have v: "in_service v"
    using in_service_steps [OF server_run_steps [OF assms(1) r(1)]] begun [OF v0(1,2)] by blast
  have "sv_active_threads v = 0 \<and> (\<exists>u. sv_stop u \<and> v = de_ending env u)" if "rp_exit report = Some 0"
    using that r server_run_stopped by (auto split: option.splits if_splits)
  then show ?thesis
    using v Some r(2) session_table.always [OF v] grants_exclusive(1) [OF coordinator.always [OF v]]
      all_sessions_released [OF v] by (auto simp: orderly_def)
qed

definition sample_daemon :: DaemonEnv where
  "sample_daemon =
     \<lparr>de_store = (\<lambda>directory. Inr (fresh_store [] [])), de_process = first_process,
      de_initialized = True,
      de_listen = (\<lambda>port. \<lparr>lio_initialized = True, lio_socket = Some 3, lio_bind = True,
        lio_listen = True, lio_getsockname = Some 4711, lio_errno = 0\<rparr>),
      de_turns = [\<lparr>tn_work = request_stop, tn_accept = (\<lambda>v. None), tn_errno = 0, tn_spawned = True\<rparr>],
      de_ending = (\<lambda>v. v)\<rparr>"

theorem daemon_safe_witness:
  "\<exists>v. pffd_main sample_daemon [''pffd'', ''--dir'', ''state''] =
     (exits 0 (announcement 4711 (fabric_identity first_fabric) @ [''STOPPED'']) [], Some v) \<and>
   in_service v \<and> sv_sessions v = []"
proof -
  have "service_step\<^sup>*\<^sup>* v (request_stop v)" for v by (blast intro: service_step.stop)
  then have "proper_threads sample_daemon"
    by (simp add: sample_daemon_def proper_threads_def proper_turn_def)
  moreover obtain v where run: "pffd_main sample_daemon [''pffd'', ''--dir'', ''state''] =
     (exits 0 (announcement 4711 (fabric_identity first_fabric) @ [''STOPPED'']) [], Some v)"
  proof -
    have a: "fabric_arguments [''pffd'', ''--dir'', ''state''] = default_fabric_options"
      by (simp add: fabric_arguments_def arg_or_def arg_value_def provenance_option_def
          default_fabric_options_def)
    show thesis
      using that
      by (simp add: pffd_main_def arg_value_def a sample_daemon_def first_start
          server_arguments_def server_start_def listen_loopback_def serve_until_stopped_def
          server_run_def accept_turn_def request_stop_def wait_for_sessions_def exits_def
          default_server_options_def max_sessions_def arg_u64_def Let_def)
  qed
  ultimately show ?thesis
    using daemon_safe [of sample_daemon "[''pffd'', ''--dir'', ''state'']"] by (auto simp: exits_def)
qed

end
