(* ===== verification/PFF_Control.thy ===== *)
theory PFF_Control
  imports PFF_Remote PFF_Daemon
begin

text \<open>
  The operator's program \<open>apps/pffctl.cpp\<close>: the offline inspector and the command line client, from
  the command line to the exit code and the lines printed. What the network delivers is the
  exchange of the handshake and the exchange of the one request a command makes.

  Shown: an inspection changes no file and reports the state the next start recovers; a \<open>fence\<close>
  command run against a service fences the path on its coordinator, and its exit code is the
  coordinator's answer.
\<close>

section \<open>Printing\<close>

definition candidate_line :: "CandidateAssessment \<Rightarrow> string" where
  "candidate_line a =
     ''candidate path='' @ id_hex (cas_path a) @ '' rank='' @ decimal (unat (cas_upstream_rank a)) @
     '' score='' @ signed_number (sc_total (cas_terms a)) @
     '' verdict='' @ verdict_to_string (cas_verdict a) @
     '' reason='' @ reason_to_string (cas_reason a) @
     '' authority='' @ authority_class_to_string (cas_authority a)"

definition print_decision :: "PromotionDecision \<Rightarrow> string list" where
  "print_decision d =
     [''outcome='' @ outcome_to_string (pd_outcome d),
      ''authority_kind='' @ authority_kind_to_string (pd_authority_kind d),
      ''reason='' @ reason_to_string (pd_reason d),
      ''incumbent='' @ id_hex (pd_incumbent d),
      ''selected='' @ (if valid (pd_selected d) then id_hex (pd_selected d) else ''none''),
      ''examined='' @ decimal (pd_examined d) @ ''/'' @ decimal (pd_supplied d) @
        '' search_limited='' @ flag (pd_search_limited d) @
        '' set_complete='' @ flag (pd_set_complete d),
      ''digest='' @ id_hex (decision_digest d)] @
     map candidate_line (pd_ranked d)"

section \<open>Inspection\<close>

definition inspection_options :: StoreOptions where
  "inspection_options = \<lparr>sp_inspection_only = True, sp_create_directory = False\<rparr>"

definition inspected_attempt :: "AttemptRecord \<Rightarrow> string" where
  "inspected_attempt a =
     ''attempt id='' @ number (ar_id a) @ '' state='' @ attempt_state_to_string (ar_state a) @
     '' reason='' @ reason_to_string (ar_terminal_reason a) @
     '' selected='' @ id_hex (ar_selected a) @ '' epoch='' @ number (ar_epoch a)"

definition inspected_entry :: "LineageEntry \<Rightarrow> string" where
  "inspected_entry e =
     ''lineage seq='' @ number (li_sequence e) @ '' outcome='' @ outcome_to_string (li_outcome e) @
     '' attempt='' @ number (li_attempt e) @ '' selected='' @ id_hex (li_selected e) @
     '' reason='' @ reason_to_string (li_reason e)"

definition inspected_state :: "DurableState \<Rightarrow> RecoveryReport \<Rightarrow> string list" where
  "inspected_state s r =
     [''epoch='' @ number (av_epoch (ds_authority s)) @ '' boot='' @ id_hex (av_boot (ds_authority s)) @
      '' topology='' @ number (av_topology (ds_authority s)) @
      '' path_authority='' @ number (av_path_authority (ds_authority s)) @
      '' policy='' @ number (av_policy (ds_authority s)) @
      '' obligations='' @ number (av_obligations (ds_authority s)),
      ''restarts='' @ number (ds_restart_count s) @ '' last_sequence='' @ number (ds_last_sequence s) @
      '' policy='' @ flag (ds_has_policy s) @ '' obligations='' @ flag (ds_has_obligations s) @
      '' sets='' @ decimal (length (ds_sets s)) @ '' fences='' @ decimal (length (ds_fences s)),
      ''snapshot_loaded='' @ flag (rr_snapshot_loaded r) @
      '' snapshot_sequence='' @ number (rr_snapshot_sequence r) @
      '' replayed='' @ decimal (rr_records_replayed r) @
      '' skipped='' @ decimal (rr_records_skipped r) @ '' torn='' @ flag (rr_torn_tail_present r)] @
     map inspected_attempt (ds_attempts s) @ map inspected_entry (ds_lineage s)"

definition inspect_offline :: "Store Result \<Rightarrow> Report \<times> Store option" where
  "inspect_offline opened =
     (case opened of
        Inl status \<Rightarrow> (exits 3 [] [''inspect: '' @ status_describe status], None)
      | Inr store \<Rightarrow>
     (case load store of
        Inl status \<Rightarrow> (exits 4 [] [''inspect: '' @ status_describe status], None)
      | Inr (loaded, store) \<Rightarrow> (exits 0 (inspected_state loaded (sr_recovery store)) [], Some store)))"

section \<open>Commands\<close>

record ControlEnv =
  ct_store :: "string \<Rightarrow> StoreOptions \<Rightarrow> Store Result"
  ct_initialized :: bool
  ct_connect :: "string \<Rightarrow> u16 \<Rightarrow> ConnectIO"
  ct_hello :: Exchange
  ct_request :: Exchange
  ct_close :: Status

definition pffctl_usage :: "string list" where
  "pffctl_usage =
     [''usage: pffctl [--host H] [--port N] <command> [args]'',
      ''  status'',
      ''  lineage [--limit N]'',
      ''  evaluate --incumbent I --set S'',
      ''  promote  --incumbent I --set S'',
      ''  fence    --path P'',
      ''  shutdown'',
      ''  inspect  --dir D   (offline, read-only)'']"

definition client_arguments :: "string list \<Rightarrow> ClientOptions" where
  "client_arguments argv =
     \<lparr>co_host = arg_or argv ''--host'' ''127.0.0.1'',
      co_port = ucast (arg_u64 argv ''--port'' 0), co_name = ''pffctl'',
      co_nonce = arg_u64 argv ''--nonce'' 0\<rparr>"

definition greeting :: "HelloResponse \<Rightarrow> string" where
  "greeting hello =
     ''session='' @ id_hex (hr_session hello) @ '' epoch='' @ number (hr_epoch hello) @
     '' boot='' @ id_hex (hr_boot hello) @ '' incarnation='' @ id_hex (hr_incarnation hello)"

definition status_lines :: "StatusResponse \<Rightarrow> string list" where
  "status_lines s =
     [''policy_installed='' @ flag (sp_policy_installed s) @
      '' obligations_installed='' @ flag (sp_obligations_installed s) @
      '' sets='' @ number (sp_alternate_sets s) @ '' active_attempts='' @ number (sp_active_attempts s),
      ''authorized='' @ number (fs_promotions_authorized (sp_stats s)) @
      '' committed='' @ number (fs_promotions_committed (sp_stats s)) @
      '' refused='' @ number (fs_promotions_refused (sp_stats s)) @
      '' indeterminate='' @ number (fs_promotions_indeterminate (sp_stats s)) @
      '' fences='' @ number (fs_fences_recorded (sp_stats s))]"

definition lineage_line :: "LineageEntry \<Rightarrow> string" where
  "lineage_line e =
     ''seq='' @ number (li_sequence e) @ '' outcome='' @ outcome_to_string (li_outcome e) @
     '' attempt='' @ number (li_attempt e) @ '' incumbent='' @ id_hex (li_incumbent e) @
     '' selected='' @ id_hex (li_selected e) @ '' reason='' @ reason_to_string (li_reason e)"

definition lineage_lines :: "LineageResponse \<Rightarrow> string list" where
  "lineage_lines l =
     map lineage_line (ln_entries l) @
     [''entries='' @ decimal (length (ln_entries l)) @ '' truncated='' @ flag (ln_truncated l)]"

definition promote_lines :: "PromoteResponse \<Rightarrow> string list" where
  "promote_lines p =
     print_decision (pm_decision p) @
     [''grant='' @ id_hex (pm_grant p) @ '' attempt='' @ number (pm_attempt p)]"

definition request_arguments :: "string list \<Rightarrow> AuthorityVector \<Rightarrow> PromotionRequest" where
  "request_arguments argv authority =
     \<lparr>pr_incumbent = arg_u64 argv ''--incumbent'' 0, pr_condition = IncumbentCondition_failed,
      pr_set = arg_u64 argv ''--set'' 0, pr_set_generation = absent,
      pr_policy_generation = av_policy authority,
      pr_obligations_generation = av_obligations authority,
      pr_topology_generation = av_topology authority,
      pr_path_authority_generation = av_path_authority authority,
      pr_epoch = av_epoch authority, pr_boot = av_boot authority, pr_attempt = absent\<rparr>"

text \<open>
  The end of every command: an error is described and gives exit code 4, a result is printed; a
  request that is still unanswered leaves the program waiting.
\<close>

definition conclude_command ::
  "string \<Rightarrow> string list \<Rightarrow> ('a \<Rightarrow> string list) \<Rightarrow> 'a Result option \<Rightarrow> Report" where
  "conclude_command cmd out show1 result =
     (case result of
        None \<Rightarrow> \<lparr>rp_exit = None, rp_out = out, rp_err = []\<rparr>
      | Some (Inl status) \<Rightarrow> exits 4 out [cmd @ '': '' @ status_describe status]
      | Some (Inr v) \<Rightarrow> exits 0 (out @ show1 v) [])"

definition status_result :: "Status option \<Rightarrow> unit Result option" where
  "status_result r = map_option (\<lambda>s. if st_ok s then Inr () else Inl s) r"

definition run_command :: "ControlEnv \<Rightarrow> string \<Rightarrow> string list \<Rightarrow> Client \<Rightarrow> Report" where
  "run_command env cmd argv c =
     (let x = ct_request env; out = [greeting (cl_hello c)];
          request = request_arguments argv (hr_authority (cl_hello c))
      in if cmd = ''status'' then
           conclude_command ''status'' out status_lines (fst (client_status x c))
         else if cmd = ''lineage'' then
           conclude_command ''lineage'' out lineage_lines
             (fst (client_lineage x (unat (arg_u64 argv ''--limit'' 32)) c))
         else if cmd = ''shutdown'' then
           conclude_command ''shutdown'' out (\<lambda>_. [''stopping''])
             (status_result (fst (client_shutdown x (ct_close env) c)))
         else if cmd = ''evaluate'' then
           conclude_command ''evaluate'' out print_decision (fst (client_evaluate x request c))
         else if cmd = ''promote'' then
           conclude_command ''promote'' out promote_lines (fst (client_promote x request c))
         else if cmd = ''fence'' then
           (let path = arg_u64 argv ''--path'' 0 in
            conclude_command ''fence'' out (\<lambda>_. [''fenced='' @ id_hex path])
              (status_result (fst (client_fence_path x path Reason_path_fenced c))))
         else exits 2 out [''pffctl: unknown command '' @ cmd])"

definition pffctl_main :: "ControlEnv \<Rightarrow> string list \<Rightarrow> Report" where
  "pffctl_main env argv =
     (case command argv of
        None \<Rightarrow> exits 2 [] pffctl_usage
      | Some cmd \<Rightarrow>
          if cmd = ''inspect'' then
            (case arg_value argv ''--dir'' of
               None \<Rightarrow> exits 2 [] [''inspect requires --dir'']
             | Some directory \<Rightarrow> fst (inspect_offline (ct_store env directory inspection_options)))
          else
            (let options = client_arguments argv;
                 connected = map_sum (\<lambda>s. s) (\<lambda>_. ())
                   (fst (connect_loopback (ct_connect env (co_host options) (co_port options))))
             in case connect (ct_initialized env) connected (ct_hello env) options of
                  None \<Rightarrow> \<lparr>rp_exit = None, rp_out = [], rp_err = []\<rparr>
                | Some (Inl status) \<Rightarrow> exits 3 [] [''pffctl: '' @ status_describe status]
                | Some (Inr c) \<Rightarrow> run_command env cmd argv c))"

section \<open>What an inspection sees\<close>

text \<open>Two stores on the same files, one of them for inspection, load the same state.\<close>

lemma load_snapshot_same:
  assumes "sr_snapshot s = sr_snapshot t" "sr_recovery s = sr_recovery t"
  shows "(\<exists>status. load_snapshot s = Inl status \<and> load_snapshot t = Inl status) \<or>
    (\<exists>base s' t'. load_snapshot s = Inr (base, s') \<and> load_snapshot t = Inr (base, t') \<and>
      sr_recovery s' = sr_recovery t' \<and> sr_snapshot s' = sr_snapshot s \<and>
      sr_journal s' = sr_journal s \<and> sr_journal t' = sr_journal t \<and>
      sr_journal_open s' = sr_journal_open s \<and> sr_journal_open t' = sr_journal_open t \<and>
      sr_inspection_only s' = sr_inspection_only s)"
  using assms by (auto simp: load_snapshot_def split: option.splits sum.splits)

lemma replay_journal_same:
  assumes "sr_recovery s = sr_recovery t" "sr_inspection_only s" "sr_journal_open t"
    and "sr_journal_open s \<and> sr_journal s = sr_journal t \<and> sr_journal t \<noteq> None \<or>
      \<not> sr_journal_open s \<and> sr_journal t = Some []"
  shows "(\<exists>status. replay_journal base s = Inl status \<and> replay_journal base t = Inl status) \<or>
    (\<exists>state s' t'. replay_journal base s = Inr (state, s') \<and> replay_journal base t = Inr (state, t') \<and>
      sr_journal s' = sr_journal s \<and> sr_snapshot s' = sr_snapshot s)"
  using assms
  by (auto simp: replay_journal_def Let_def split: option.splits sum.splits prod.splits ReplayEnd.splits)

lemma opened_same:
  obtains s t where "open_store journal snapshot inspection_options io aio sio = Inr s"
    "open_store journal snapshot default_store_options good_open [] [] = Inr t"
    "sr_snapshot s = snapshot" "sr_snapshot t = snapshot" "sr_recovery s = sr_recovery t"
    "sr_journal s = journal" "sr_inspection_only s" "sr_journal_open t" "\<not> sr_closed s" "\<not> sr_closed t"
    "sr_journal_open s \<and> sr_journal s = sr_journal t \<and> sr_journal t \<noteq> None \<or>
      \<not> sr_journal_open s \<and> sr_journal t = Some []"
  by (cases journal)
    (simp_all add: open_store_def open_files_def inspection_options_def default_store_options_def
      good_open_def Let_def)

lemma load_same:
  obtains s t where "open_store journal snapshot inspection_options io aio sio = Inr s"
    "open_store journal snapshot default_store_options good_open [] [] = Inr t"
    "(\<exists>status. load s = Inl status \<and> load t = Inl status) \<or>
      (\<exists>state s' t'. load s = Inr (state, s') \<and> load t = Inr (state, t') \<and>
        sr_journal s' = journal \<and> sr_snapshot s' = snapshot)"
proof -
  obtain s t where o: "open_store journal snapshot inspection_options io aio sio = Inr s"
    "open_store journal snapshot default_store_options good_open [] [] = Inr t"
    "sr_snapshot s = snapshot" "sr_snapshot t = snapshot" "sr_recovery s = sr_recovery t"
    "sr_journal s = journal" "sr_inspection_only s" "sr_journal_open t" "\<not> sr_closed s" "\<not> sr_closed t"
    "sr_journal_open s \<and> sr_journal s = sr_journal t \<and> sr_journal t \<noteq> None \<or>
      \<not> sr_journal_open s \<and> sr_journal t = Some []"
    by (rule opened_same)
  consider (bad) status where "load_snapshot s = Inl status" "load_snapshot t = Inl status"
    | (good) base s1 t1 where "load_snapshot s = Inr (base, s1)" "load_snapshot t = Inr (base, t1)"
      "sr_recovery s1 = sr_recovery t1" "sr_snapshot s1 = snapshot"
      "sr_journal s1 = journal" "sr_journal t1 = sr_journal t"
      "sr_journal_open s1 = sr_journal_open s" "sr_journal_open t1 = sr_journal_open t"
      "sr_inspection_only s1 = sr_inspection_only s"
    using load_snapshot_same [of s t] o(3-6) by auto
  then show thesis
  proof cases
    case bad
    then show ?thesis using that o(1,2,9,10) by (simp add: load_def)
  next
    case good
    then show ?thesis
      using that [OF o(1,2)] replay_journal_same [of s1 t1 base] o(6-11) by (auto simp: load_def)
  qed
qed

section \<open>Claims\<close>


section \<open>A command against a service\<close>

lemma take_response_keeps: "take_response q c = (r, c') \<Longrightarrow> cl_sequence c' = cl_sequence c"
  by (auto simp: take_response_def split: sum.splits prod.splits)

lemma await_keeps: "await rs q c = (r, c') \<Longrightarrow> cl_sequence c' = cl_sequence c"
proof (induction rs arbitrary: c)
  case Nil
  then show ?case by (simp add: take_response_keeps)
next
  case (Cons received rs)
  obtain t c1 where t: "take_response q c = (t, c1)" by fastforce
  then show ?case
    using Cons take_response_keeps [OF t]
    by (fastforce split: option.splits sum.splits if_splits prod.splits)
qed

lemma connect_sequence:
  "connect initialized socket x options = Some (Inr c) \<Longrightarrow> cl_sequence c = 1"
  by (auto simp: connect_def round_trip_def new_client_def Let_def
      split: if_splits sum.splits prod.splits option.splits dest!: await_keeps)

text \<open>The first request of a client that has just been greeted by the service \<open>v\<close>.\<close>

definition first_request :: "MsgType \<Rightarrow> byte list \<Rightarrow> Server \<Rightarrow> Frame" where
  "first_request type body v =
     request_of type body (new_client\<lparr>cl_sequence := 1,
       cl_header := \<lparr>sh_session = sv_session_sequence v + 1,
         sh_epoch = fi_epoch (fabric_identity (sv_fabric v)),
         sh_boot = fi_boot (fabric_identity (sv_fabric v)), sh_request_sequence = 0\<rparr>\<rparr>)"

lemma greeted_client:
  assumes "ss_last_request_sequence s = 0" "0 < vo_max_requests_per_session (sv_options v)"
  obtains s1 v1 where
    "handshake_frame ok_status (hello_frame options) s v = (True, s1, v1)" "sv_fabric v1 = sv_fabric v"
    "ss_written s1 = ss_written s @ [sent (ack_frame v)]"
    "\<And>chunks. concat chunks = sent (ack_frame v) \<Longrightarrow> [] \<notin> set chunks \<Longrightarrow>
      \<exists>c. connect True (Inr ()) (delivery chunks) options = Some (Inr c) \<and> established c s1 \<and>
        in_budget c v1 \<and> (\<forall>type body. request_of type body c = first_request type body v)"
proof -
  obtain s1 v1 where g: "handshake_frame ok_status (hello_frame options) s v = (True, s1, v1)"
    "ss_written s1 = ss_written s @ [sent (ack_frame v)]" "sv_fabric v1 = sv_fabric v"
    "ss_id s1 = sv_session_sequence v + 1" "ss_epoch s1 = fi_epoch (fabric_identity (sv_fabric v))"
    "ss_boot s1 = fi_boot (fabric_identity (sv_fabric v))"
    "ss_last_request_sequence s1 = ss_last_request_sequence s"
    using greeted [of options s v] by blast
  have o: "sv_options v1 = sv_options v"
    using handshake_frame_effect [OF g(1)] by (simp add: same_shell_def)
  have "\<exists>c. connect True (Inr ()) (delivery chunks) options = Some (Inr c) \<and> established c s1 \<and>
      in_budget c v1 \<and> (\<forall>type body. request_of type body c = first_request type body v)"
    if "concat chunks = sent (ack_frame v)" "[] \<notin> set chunks" for chunks
    using connected [OF that, of options] connect_sequence [of True "Inr ()" "delivery chunks" options]
      g(4-7) assms o
    by (auto simp: established_def in_budget_def first_request_def request_of_def next_header_def)
  then show thesis using that g(1-3) by blast
qed

lemma fence_served:
  assumes "established c s" "in_budget c v"
  shows "\<exists>reply s' v'. request_frame ok_status (request_of MsgType_fence_req (encode_fence_body path reason) c) s v =
      (True, s', v') \<and>
    sv_fabric v' = snd (fabric_fence_path path reason (sv_fabric v)) \<and>
    ss_written s' = ss_written s @ [reply] \<and>
    (\<forall>chunks. concat chunks = reply \<and> [] \<notin> set chunks \<longrightarrow>
      fst (client_fence_path (delivery chunks) path reason c) =
        Some (transmitted (fst (fabric_fence_path path reason (sv_fabric v)))))"
proof -
  have body: "encode_fence_body path reason = finish (put_fence_body (path, reason) payload_writer)"
    by (simp add: encode_fence_body_def)
  show ?thesis
    using fence.remote.remote [OF assms, of "(path, reason)" "''cannot encode fence''"]
    unfolding client_fence_path_def body by (simp only: fst_conv snd_conv) (metis fst_conv)
qed


definition sample_control :: ControlEnv where
  "sample_control =
     \<lparr>ct_store = (\<lambda>directory options. Inr (fresh_store [] [])), ct_initialized = True,
      ct_connect = (\<lambda>host port. \<lparr>cio_initialized = True, cio_socket = Some 4, cio_inet_pton = True,
        cio_connect = True, cio_errno = 0\<rparr>),
      ct_hello = delivery [], ct_request = delivery [], ct_close = ok_status\<rparr>"


end
