(* ===== verification/PFF_Mirror.thy ===== *)
theory PFF_Mirror
  imports PFF_Guarantees
begin

text \<open>
  The journal is an image of the coordinator. As long as the calls succeed, what a new process
  recovers from the files is, at every moment between two calls, the state of the coordinator:
  authority, policy, obligations, sets, fences, lineage and the attempt in flight. Terminal
  attempts are retained differently in memory and in the replay, so only attempts in flight are
  compared.

  Shown for every operation, through appends and compactions; together with the start of a
  coordinator this gives that an acknowledged commit survives the end of the process.
\<close>

section \<open>The image\<close>

definition same_contents :: "DurableState \<Rightarrow> DurableState \<Rightarrow> bool" where
  "same_contents s t \<longleftrightarrow>
     ds_authority s = ds_authority t \<and> ds_has_policy s = ds_has_policy t \<and>
     ds_policy s = ds_policy t \<and> ds_has_obligations s = ds_has_obligations t \<and>
     ds_obligations s = ds_obligations t \<and> ds_sets s = ds_sets t \<and> ds_fences s = ds_fences t \<and>
     ds_lineage s = ds_lineage t \<and> ds_restart_count s = ds_restart_count t"

definition same_live :: "DurableState \<Rightarrow> Fabric \<Rightarrow> bool" where
  "same_live s f \<longleftrightarrow> distinct (map ar_id (ds_attempts s)) \<and>
     (\<forall>a. is_active_state (ar_state a) \<longrightarrow>
        (a \<in> set (ds_attempts s) \<longleftrightarrow> map_of (fb_attempts f) (ar_id a) = Some a))"

definition mirrors :: "DurableState \<Rightarrow> Fabric \<Rightarrow> bool" where
  "mirrors s f \<longleftrightarrow> holds (fb_store f) s \<and> same_contents s (fb_state f) \<and>
     ds_last_sequence s = ds_last_sequence (fb_state f) \<and> same_live s f"

text \<open>A coordinator that can be written as a snapshot.\<close>

definition fit :: "Fabric \<Rightarrow> bool" where
  "fit f \<longleftrightarrow> keyed f \<and> wf_state (snapshot_state_locked f) \<and> ordered (fb_sets f) \<and>
     (\<forall>i st. map_of (fb_sets f) i = Some st \<longleftrightarrow> st \<in> set (ds_sets (fb_state f)) \<and> as_id st = i) \<and>
     unat (fo_max_retained_attempts (fb_options f)) \<le> max_attempts"

definition faithful :: "Fabric \<Rightarrow> bool" where
  "faithful f \<longleftrightarrow> fit f \<and> (\<exists>s. mirrors s f)"

text \<open>At most the owner of the transition is in flight.\<close>

definition lone :: "Fabric \<Rightarrow> bool" where
  "lone f \<longleftrightarrow> (\<forall>i. active_at f i \<longrightarrow> fb_active_attempt f = i \<and> valid i)"

lemma faithfulI: "fit f \<Longrightarrow> mirrors s f \<Longrightarrow> faithful f"
  by (auto simp: faithful_def)

lemma fit_keyed: "fit f \<Longrightarrow> keyed f"
  by (simp add: fit_def)

section \<open>Records\<close>

lemma applied_attempt:
  "apply_record s RecordType_attempt_begin (encode_attempt_record a) = apply_attempt s a"
  "apply_record s RecordType_attempt_state (encode_attempt_record a) = apply_attempt s a"
  by (simp_all add: encode_attempt_record_def attempt_codec.payload_eq attempt_codec.payload_decodes
      max_record_payload_def apply_record_def)

lemma applied_lineage:
  "apply_record s RecordType_lineage_entry (encode_lineage_record e) = (ok_status, apply_lineage s e)"
  by (simp add: encode_lineage_record_def lineage_codec.payload_eq lineage_codec.payload_decodes
      max_record_payload_def apply_record_def)

lemma applied_fence:
  "apply_record s RecordType_fence_recorded (encode_fence_record r) = apply_fence s r"
  by (simp add: encode_fence_record_def fence_codec.payload_eq fence_codec.payload_decodes
      max_record_payload_def apply_record_def)

lemma applied_epoch:
  "apply_record s RecordType_epoch_advance (epoch_payload t) =
     (ok_status, apply_epoch s (ds_authority t, ds_restart_count t, ds_attempt_sequence t,
        ds_fence_sequence t, ds_decision_sequence t))"
  by (simp add: epoch_payload_def encode_epoch_eq epoch_codec.payload_decodes apply_record_def)

lemma applied_policy:
  "st_ok (validate_policy p) \<Longrightarrow>
   apply_record s RecordType_policy_set (encode_policy_record p) = (ok_status, apply_policy s p)"
  by (simp add: encode_policy_record_def policy_codec.payload_eq policy_codec.payload_decodes
      max_record_payload_def apply_record_def)

lemma applied_obligations:
  "st_ok (validate_obligations ob) \<Longrightarrow>
   apply_record s RecordType_obligations_set (encode_obligations_record ob) =
     (ok_status, apply_obligations s ob)"
  by (simp add: encode_obligations_record_def obligations_codec.payload_eq
      obligations_codec.payload_decodes max_record_payload_def apply_record_def)

lemma applied_set:
  "st_ok (validate_set st) \<Longrightarrow>
   apply_record s RecordType_alternate_set_put (encode_set_record st) = apply_set s st"
  using length_enc_set_le [of st]
  by (simp add: encode_set_record_def set_codec.payload_eq set_codec.payload_decodes apply_record_def
      max_record_payload_def)

lemmas applied = applied_attempt applied_lineage applied_fence applied_epoch applied_policy
  applied_obligations applied_set

section \<open>Appends\<close>

lemma appended:
  assumes "holds (fb_store f) s" "applicable t p s" "append_locked t p f = (status, g)" "st_ok status"
  shows "holds (fb_store g) (next_state t p s)" "calm f g"
    "fb_state g = (fb_state f)\<lparr>ds_last_sequence := ds_last_sequence (next_state t p s)\<rparr>"
proof -
  obtain st where st: "append_record t p (fb_store f) = (status, st)"
    "g = tally fs_journal_records_update (with_state (\<lambda>s. s\<lparr>ds_last_sequence := sr_last_sequence st\<rparr>)
       (f\<lparr>fb_store := st\<rparr>))"
    using assms(3,4) by (auto simp: append_locked_def Let_def split: prod.splits if_splits)
  have h: "holds st (next_state t p s)"
    using holds_after_append [OF assms(1) st(1) assms(4,2)] .
  then show "holds (fb_store g) (next_state t p s)" by (simp add: st(2) tally_def with_state_def)
  show "fb_state g = (fb_state f)\<lparr>ds_last_sequence := ds_last_sequence (next_state t p s)\<rparr>"
    using h by (simp add: st(2) tally_def with_state_def holds_def)
  show "calm f g" using calm_append [of f t p] assms(3) by simp
qed

text \<open>An attempt in the replayed table.\<close>

lemma apply_attempt_same:
  "same_contents (snd (apply_attempt s a)) t \<longleftrightarrow> same_contents s t"
  "ds_last_sequence (snd (apply_attempt s a)) = ds_last_sequence s"
  by (simp_all add: apply_attempt_def same_contents_def)

lemma mem_update_first:
  assumes "distinct (map f xs)" "list_ex (\<lambda>x. f x = f y) xs"
  shows "z \<in> set (update_first (\<lambda>x. f x = f y) y xs) \<longleftrightarrow> (if f z = f y then z = y else z \<in> set xs)"
  using assms
proof (induction xs)
  case (Cons x xs)
  show ?case
  proof (cases "f x = f y")
    case True
    then have "f z \<noteq> f y" if "z \<in> set xs" using Cons.prems(1) that by (auto simp: image_iff)
    then show ?thesis using True by auto
  next
    case False
    then show ?thesis using Cons by auto
  qed
qed simp

lemma mem_erase_first: "\<not> P z \<Longrightarrow> z \<in> set (erase_first P xs) \<longleftrightarrow> z \<in> set xs"
  by (induction xs) auto

lemma apply_attempt_live:
  assumes "distinct (map ar_id (ds_attempts s))"
    and "list_ex (\<lambda>c. ar_id c = ar_id a) (ds_attempts s) \<or>
      (\<forall>c \<in> set (ds_attempts s). \<not> is_active_state (ar_state c))"
  shows "st_ok (fst (apply_attempt s a))" "distinct (map ar_id (ds_attempts (snd (apply_attempt s a))))"
    "is_active_state (ar_state c) \<or> ar_id c = ar_id a \<Longrightarrow>
      c \<in> set (ds_attempts (snd (apply_attempt s a))) \<longleftrightarrow>
        (if ar_id c = ar_id a then c = a else c \<in> set (ds_attempts s))"
proof -
  let ?xs = "ds_attempts s" and ?old = "\<lambda>c. ar_id c = ar_id a"
  let ?dead = "\<lambda>c. is_terminal_state (ar_state c)"
  have full: "list_ex ?dead ?xs" if "\<not> list_ex ?old ?xs" "length ?xs \<ge> max_attempts"
    using that assms(2) by (cases ?xs) (auto simp: max_attempts_def is_active_state_def)
  then show "st_ok (fst (apply_attempt s a))" by (simp add: apply_attempt_def)
  show "distinct (map ar_id (ds_attempts (snd (apply_attempt s a))))"
    using assms(1) full distinct_erase_first [of ar_id ?xs ?dead] keys_erase_first [of ar_id ?dead ?xs]
      key_not_in [of ar_id "ar_id a" ?xs]
    by (auto simp: apply_attempt_def map_update_first)
  show "c \<in> set (ds_attempts (snd (apply_attempt s a))) \<longleftrightarrow>
      (if ar_id c = ar_id a then c = a else c \<in> set ?xs)"
    if c: "is_active_state (ar_state c) \<or> ar_id c = ar_id a"
  proof (cases "list_ex ?old ?xs")
    case True
    then show ?thesis using mem_update_first [OF assms(1), of a c] by (simp add: apply_attempt_def)
  next
    case False
    then have no: "\<And>c. c \<in> set ?xs \<Longrightarrow> ar_id c \<noteq> ar_id a" by (auto simp: list_ex_iff)
    have "c \<in> set (erase_first ?dead ?xs) \<longleftrightarrow> c \<in> set ?xs" if "is_active_state (ar_state c)"
      using mem_erase_first [of ?dead c ?xs] that by (simp add: is_active_state_def)
    moreover have "set (erase_first ?dead ?xs) \<subseteq> set ?xs"
      using keys_erase_first [of "\<lambda>x. x" ?dead ?xs] by simp
    ultimately show ?thesis using False full no c by (auto simp: apply_attempt_def)
  qed
qed

text \<open>The same attempt in the table of the coordinator.\<close>

lemma keyed_distinct: "keyed f \<Longrightarrow> distinct (map ar_id (map snd (fb_attempts f)))"
proof -
  assume k: "keyed f"
  have "map ar_id (map snd (fb_attempts f)) = map fst (fb_attempts f)"
    using k smap.entry_find [of "fb_attempts f"] by (force simp: keyed_def)
  then show ?thesis using smap.distinct_entries keyedD(1) [OF k] by metis
qed

lemma keyed_values:
  assumes "keyed f"
  shows "a \<in> set (map snd (fb_attempts f)) \<longleftrightarrow> map_of (fb_attempts f) (ar_id a) = Some a"
proof
  assume "a \<in> set (map snd (fb_attempts f))"
  then obtain i where "(i, a) \<in> set (fb_attempts f)" by auto
  then have "map_of (fb_attempts f) i = Some a" using smap.entry_find [OF keyedD(1) [OF assms]] by simp
  then show "map_of (fb_attempts f) (ar_id a) = Some a" using keyedD(2) [OF assms] by metis
next
  assume "map_of (fb_attempts f) (ar_id a) = Some a"
  then have "(ar_id a, a) \<in> set (fb_attempts f)" by (rule map_of_SomeD)
  then show "a \<in> set (map snd (fb_attempts f))" by force
qed

lemma retain_cases:
  assumes "keyed f" "retain_attempt_locked a f = (status, g)" "st_ok status"
  obtains (known) b where "map_of (fb_attempts f) (ar_id a) = Some b" "g = store_attempt (ar_id a) a f"
  | (evicted) i d where "map_of (fb_attempts f) (ar_id a) = None" "map_of (fb_attempts f) i = Some d"
      "is_terminal_state (ar_state d)"
      "g = tally fs_attempts_dropped_update
         (with_state (\<lambda>s. s\<lparr>ds_attempts_dropped := ds_attempts_dropped s + 1\<rparr>)
         (f\<lparr>fb_attempts := map_assign (ar_id a) a (map_erase i (fb_attempts f))\<rparr>))"
  | (added) "map_of (fb_attempts f) (ar_id a) = None"
      "length (fb_attempts f) < unat (fo_max_retained_attempts (fb_options f))"
      "g = f\<lparr>fb_attempts := map_assign (ar_id a) a (fb_attempts f)\<rparr>"
proof (cases "map_of (fb_attempts f) (ar_id a)")
  case None
  let ?m = "fb_attempts f" and ?dead = "\<lambda>e. is_terminal_state (ar_state (snd e))"
  have new: "map_emplace (ar_id a) a m = map_assign (ar_id a) a m" if "map_of m (ar_id a) = None" for m
    using that by (simp add: map_emplace_def)
  show thesis
  proof (cases "length ?m \<ge> unat (fo_max_retained_attempts (fb_options f))")
    case True
    then obtain e where e: "List.find ?dead ?m = Some e"
      using None assms(2,3) by (cases "List.find ?dead ?m") (auto simp: retain_attempt_locked_def)
    then have "map_of ?m (fst e) = Some (snd e)" "?dead e"
      using find_Some_mem [OF e] smap.entry_find [OF keyedD(1) [OF assms(1)], of "fst e" "snd e"]
      by auto
    then show thesis
      using evicted [OF None] True None e assms(2) new [of "map_erase (fst e) ?m"]
      by (simp add: retain_attempt_locked_def)
  next
    case False
    then show thesis
      using added [OF None] None assms(2) new [of ?m] by (simp add: retain_attempt_locked_def)
  qed
next
  case (Some b)
  then show thesis using known assms(2) by (simp add: retain_attempt_locked_def)
qed

lemma retained_live:
  assumes "keyed f" "retain_attempt_locked a f = (status, g)" "st_ok status"
  shows "keyed g" "map_of (fb_attempts g) (ar_id a) = Some a"
    "length (fb_attempts g) \<le> max (length (fb_attempts f)) (unat (fo_max_retained_attempts (fb_options f)))"
    "fb_store g = fb_store f" "fb_sets g = fb_sets f" "fb_options g = fb_options f"
    "fb_active_attempt g = fb_active_attempt f" "same_contents (fb_state g) (fb_state f)"
    "ds_last_sequence (fb_state g) = ds_last_sequence (fb_state f)"
    "is_active_state (ar_state c) \<Longrightarrow> ar_id c \<noteq> ar_id a \<Longrightarrow>
      map_of (fb_attempts g) (ar_id c) = Some c \<longleftrightarrow> map_of (fb_attempts f) (ar_id c) = Some c"
  using assms(1) ordered_assign ordered_erase [of "fb_attempts f"] length_assign [of "fb_attempts f"]
  by (cases rule: retain_cases [OF assms];
      auto simp: keyed_def store_attempt_def tally_def with_state_def same_contents_def
        length_assign ordered_assign is_active_state_def
        dest!: length_erase_present split: if_splits)+

text \<open>What \<^const>\<open>fit\<close> asks of the tables, one by one.\<close>

lemma fit_iff:
  "fit f \<longleftrightarrow> keyed f \<and> wf_state ((fb_state f)\<lparr>ds_attempts := []\<rparr>) \<and> length (fb_attempts f) \<le> max_attempts \<and>
     ordered (fb_sets f) \<and>
     (\<forall>i st. map_of (fb_sets f) i = Some st \<longleftrightarrow> st \<in> set (ds_sets (fb_state f)) \<and> as_id st = i) \<and>
     unat (fo_max_retained_attempts (fb_options f)) \<le> max_attempts"
  using keyed_distinct [of f] by (auto simp: fit_def wf_state_def snapshot_state_locked_def)

lemma wf_contents:
  "same_contents s t \<Longrightarrow> wf_state (s\<lparr>ds_attempts := []\<rparr>) \<longleftrightarrow> wf_state (t\<lparr>ds_attempts := []\<rparr>)"
  by (simp add: same_contents_def wf_state_def)

lemma fit_cong:
  assumes "fit f" "keyed g" "length (fb_attempts g) \<le> max_attempts" "same_contents (fb_state g) (fb_state f)"
    "fb_sets g = fb_sets f" "fb_options g = fb_options f"
  shows "fit g"
  using assms wf_contents [OF assms(4)] by (simp add: fit_iff same_contents_def)

lemma same_contents_trans: "same_contents s t \<Longrightarrow> same_contents t u \<Longrightarrow> same_contents s u"
  by (simp add: same_contents_def)

lemma same_contents_sym: "same_contents s t \<Longrightarrow> same_contents t s"
  by (simp add: same_contents_def)

lemma same_live_active:
  assumes "same_live s f" "keyed f"
  shows "active_at f i \<longleftrightarrow> (\<exists>a \<in> set (ds_attempts s). ar_id a = i \<and> is_active_state (ar_state a))"
proof -
  have "active_at f i \<longleftrightarrow> (\<exists>a. map_of (fb_attempts f) i = Some a \<and> is_active_state (ar_state a))"
    by (simp add: active_at_def split: option.split)
  then show ?thesis using assms(1) keyedD(2) [OF assms(2), of i] unfolding same_live_def by metis
qed

text \<open>
  A persisted attempt: \<open>f\<close> is the coordinator before the call, or that one with the attempt already
  changed in memory.
\<close>

lemma persist_mirrors:
  assumes "fit f" "mirrors s f" "h = f \<or> h = store_attempt (ar_id a) a f \<and> active_at f (ar_id a)"
    and "active_at f (ar_id a) \<or> (\<forall>j. \<not> active_at f j)"
    and "persist_attempt_locked a w h = (status, g)" "st_ok status"
  obtains s' where "fit g" "mirrors s' g" "a \<in> set (ds_attempts s')"
    "map_of (fb_attempts g) (ar_id a) = Some a"
    "\<And>j. j \<noteq> ar_id a \<Longrightarrow> active_at g j = active_at f j" "fb_active_attempt g = fb_active_attempt f"
proof -
  let ?t = "if w then RecordType_attempt_begin else RecordType_attempt_state"
  let ?p = "encode_attempt_record a"
  have k: "keyed f" using assms(1) by (rule fit_keyed)
  have m: "holds (fb_store f) s" "same_contents s (fb_state f)" "same_live s f"
    "distinct (map ar_id (ds_attempts s))" using assms(2) by (auto simp: mirrors_def same_live_def)
  have h: "keyed h" "length (fb_attempts h) = length (fb_attempts f)" "fb_store h = fb_store f"
    "fb_state h = fb_state f" "fb_sets h = fb_sets f" "fb_options h = fb_options f"
    "fb_active_attempt h = fb_active_attempt f"
    "\<And>j. j \<noteq> ar_id a \<Longrightarrow> map_of (fb_attempts h) j = map_of (fb_attempts f) j"
    using assms(3) k keyed_store [OF k refl]
    by (auto simp: store_attempt_def length_assign keyedD active_at_def split: option.splits)
  have known: "list_ex (\<lambda>c. ar_id c = ar_id a) (ds_attempts s) \<or>
      (\<forall>c \<in> set (ds_attempts s). \<not> is_active_state (ar_state c))"
    using assms(4) same_live_active [OF m(3) k] by (auto simp: list_ex_iff)
  note live = apply_attempt_live [OF m(4) known]
  have rec: "apply_record s ?t ?p = apply_attempt s a" by (simp add: applied)
  then have can: "applicable ?t ?p s" using live(1) by (simp add: applicable_def)
  obtain st1 f1 where a1: "append_locked ?t ?p h = (st1, f1)" by fastforce
  then have ok1: "st_ok st1" and r: "retain_attempt_locked a (with_attempt_id (ar_id a) f1) = (status, g)"
    using assms(5,6) by (auto simp: persist_attempt_locked_def then_do_def with_attempt_id_def split: if_splits)
  note app = appended [OF m(1) [folded h(3)] can a1 ok1]
  let ?s = "next_state ?t ?p s" and ?f1 = "with_attempt_id (ar_id a) f1"
  have f1: "fb_attempts ?f1 = fb_attempts h" "fb_store ?f1 = fb_store f1" "fb_sets ?f1 = fb_sets h"
    "fb_options ?f1 = fb_options h" "fb_active_attempt ?f1 = fb_active_attempt h"
    "same_contents (fb_state ?f1) (fb_state f)" "ds_last_sequence (fb_state ?f1) = ds_last_sequence ?s"
    using app(2,3) h(4) by (auto simp: with_attempt_id_def with_state_def calm_defs same_contents_def)
  have k1: "keyed ?f1" using h(1) f1(1) by (simp add: keyed_def)
  note ret = retained_live [OF k1 r assms(6)]
  have s: "ds_attempts ?s = ds_attempts (snd (apply_attempt s a))" "same_contents ?s s"
    using rec apply_attempt_same(1) [of s a s] by (simp_all add: next_state_def same_contents_def)
  have "same_live ?s g"
    unfolding same_live_def s(1)
  proof (intro conjI live(2) allI impI)
    fix c :: AttemptRecord assume c: "is_active_state (ar_state c)"
    show "c \<in> set (ds_attempts (snd (apply_attempt s a))) \<longleftrightarrow> map_of (fb_attempts g) (ar_id c) = Some c"
      using live(3) [of c] ret(2) ret(10) [of c] c m(3) h(8) [of "ar_id c"] f1(1)
      by (auto simp: same_live_def)
  qed
  moreover have "holds (fb_store g) ?s" using app(1) ret(4) f1(2) by simp
  moreover have "same_contents ?s (fb_state g)"
    using s(2) m(2) f1(6) ret(8) by (simp add: same_contents_def)
  moreover have "ds_last_sequence ?s = ds_last_sequence (fb_state g)" using f1(7) ret(9) by simp
  ultimately have mg: "mirrors ?s g" by (simp add: mirrors_def)
  have "fit g"
    using fit_cong [OF assms(1) ret(1)] ret(3,5,6,8) f1 h assms(1)
    by (auto simp: fit_iff same_contents_def)
  moreover have "a \<in> set (ds_attempts ?s)" using live(3) [of a] s(1) by simp
  moreover have "active_at g j = active_at f j" if "j \<noteq> ar_id a" for j
    using same_live_active [OF m(3) k] same_live_active [OF _ ret(1), of ?s] mg live(3) s(1) that
    by (auto simp: mirrors_def)
  moreover have "fb_active_attempt g = fb_active_attempt f" using ret(7) f1(5) h(7) by simp
  ultimately show thesis using that mg ret(2) by blast
qed

section \<open>Steps that leave the attempts alone\<close>

definition durable :: "AttemptRecord \<Rightarrow> Fabric \<Rightarrow> bool" where
  "durable a f \<longleftrightarrow> (\<exists>s. mirrors s f \<and> a \<in> set (ds_attempts s))"

definition undisturbed :: "Fabric \<Rightarrow> Fabric \<Rightarrow> bool" where
  "undisturbed f g \<longleftrightarrow> faithful g \<and> fb_attempts g = fb_attempts f \<and>
     fb_active_attempt g = fb_active_attempt f \<and>
     (\<forall>a. durable a f \<and> map_of (fb_attempts f) (ar_id a) = Some a \<longrightarrow> durable a g)"

lemma undisturbed_trans: "undisturbed f g \<Longrightarrow> undisturbed g h \<Longrightarrow> undisturbed f h"
  by (simp add: undisturbed_def)

lemma mirrors_unique: "mirrors s f \<Longrightarrow> mirrors t f \<Longrightarrow> s = t"
  using holds_recovered [of "fb_store f" s] holds_recovered [of "fb_store f" t]
  by (simp add: mirrors_def)

lemma undisturbedI:
  assumes "mirrors s f" "fit g" "mirrors s' g" "set (ds_attempts s) \<subseteq> set (ds_attempts s')"
    "fb_attempts g = fb_attempts f" "fb_active_attempt g = fb_active_attempt f"
  shows "undisturbed f g"
proof -
  have "durable a g" if "durable a f" for a
    using that assms(3,4) mirrors_unique [OF assms(1)] unfolding durable_def by blast
  then show ?thesis using faithfulI [OF assms(2,3)] assms(5,6) by (simp add: undisturbed_def)
qed

lemma fit_updated:
  assumes "fit f" "calm f h" "fb_attempts g = fb_attempts h" "fb_sets g = fb_sets h"
    "fb_options g = fb_options h" "ds_sets (fb_state g) = ds_sets (fb_state h)"
    "wf_state ((fb_state g)\<lparr>ds_attempts := []\<rparr>)"
  shows "fit g"
  using assms by (simp add: fit_iff keyed_def calm_defs)

lemma fit_wf: "fit f \<Longrightarrow> wf_state ((fb_state f)\<lparr>ds_attempts := []\<rparr>)"
  by (simp add: fit_iff)

lemma same_live_cong:
  "same_live s f \<Longrightarrow> ds_attempts s' = ds_attempts s \<Longrightarrow> fb_attempts g = fb_attempts f \<Longrightarrow> same_live s' g"
  by (simp add: same_live_def)

text \<open>
  An append that the coordinator completes in memory: \<open>h\<close> is the coordinator the record is written
  from, \<open>upd\<close> what is changed afterwards.
\<close>

lemma append_undisturbed:
  assumes "mirrors s f" "fb_store h = fb_store f" "fb_attempts h = fb_attempts f"
    "fb_active_attempt h = fb_active_attempt f"
    and "st_ok (fst (apply_record s t p))" "ds_attempts (snd (apply_record s t p)) = ds_attempts s"
    and "append_locked t p h = (status, h')" "st_ok status"
    and "same_contents (snd (apply_record s t p)) (fb_state g)"
    "fb_store g = fb_store h'" "fb_attempts g = fb_attempts h'"
    "fb_active_attempt g = fb_active_attempt h'"
    "ds_last_sequence (fb_state g) = ds_last_sequence (fb_state h')" "fit g"
  shows "undisturbed f g"
proof -
  let ?s = "next_state t p s"
  have "holds (fb_store h) s" "same_live s f" using assms(1,2) by (simp_all add: mirrors_def)
  note app = appended [OF this(1) _ assms(7,8)]
  have can: "applicable t p s" using assms(5) by (simp add: applicable_def)
  have at: "ds_attempts ?s = ds_attempts s" "same_contents ?s (fb_state g)"
    using assms(6,9) by (simp_all add: next_state_def same_contents_def)
  have g: "fb_attempts g = fb_attempts f" "fb_active_attempt g = fb_active_attempt f"
    using app(2) [OF can] assms(3,4,11,12) by (simp_all add: calm_defs)
  have "mirrors ?s g"
    using app(1,3) [OF can] at assms(10,13) same_live_cong [OF \<open>same_live s f\<close> at(1) g(1)]
    by (simp add: mirrors_def)
  then show ?thesis using undisturbedI [OF assms(1,14) _ _ g] at(1) by simp
qed

lemma lineage_undisturbed:
  assumes "faithful f" "persist_lineage_locked e f = (status, g)" "st_ok status"
  shows "undisturbed f g"
proof -
  obtain s where f: "fit f" "mirrors s f" using assms(1) by (auto simp: faithful_def)
  obtain st1 h where a: "append_locked RecordType_lineage_entry (encode_lineage_record e) f = (st1, h)"
    by fastforce
  let ?upd = "\<lambda>s. let s = s\<lparr>ds_decision_sequence := max (ds_decision_sequence s) (li_decision e)\<rparr>;
      s = (if length (ds_lineage s) \<ge> max_lineage
           then s\<lparr>ds_lineage := tl (ds_lineage s), ds_lineage_truncated := True\<rparr> else s)
    in s\<lparr>ds_lineage := ds_lineage s @ [e]\<rparr>"
  have g: "st_ok st1" "g = with_state ?upd h"
    using assms(2,3) a by (auto simp: persist_lineage_locked_def then_do_def split: if_splits)
  have h: "calm f h" using calm_append [of f] a by (metis snd_conv)
  have "wf_state ((fb_state g)\<lparr>ds_attempts := []\<rparr>)"
    using fit_wf [OF f(1)] h
    by (cases "length (ds_lineage (fb_state f)) \<ge> max_lineage")
      (simp_all add: g(2) with_state_def calm_defs wf_state_def Let_def max_lineage_def cong: if_cong)
  then have "fit g"
    by (rule fit_updated [OF f(1) h, rotated -1]) (simp_all add: g(2) with_state_def Let_def)
  moreover have "same_contents (apply_lineage s e) (fb_state g)"
    using f(2) h by (simp add: mirrors_def same_contents_def apply_lineage_def g(2) with_state_def
        calm_defs Let_def)
  ultimately show ?thesis
    by (intro append_undisturbed [OF f(2) refl refl refl _ _ a g(1)])
      (simp_all add: applied apply_lineage_def g(2) with_state_def Let_def)
qed

lemma fence_undisturbed:
  assumes "faithful f" "record_fence_locked i path reason f = (status, g)" "st_ok status"
  shows "undisturbed f g"
proof -
  obtain s where f: "fit f" "mirrors s f" using assms(1) by (auto simp: faithful_def)
  obtain r st1 h where a: "append_locked RecordType_fence_recorded (encode_fence_record r) f = (st1, h)"
    "length (ds_fences (fb_state f)) < max_fences" "st_ok st1"
    "g = with_state (\<lambda>s. s\<lparr>ds_fences := ds_fences s @ [r],
        ds_fence_sequence := max (ds_fence_sequence s) (fr_id r)\<rparr>) h"
    using assms(2,3)
    by (auto simp: record_fence_locked_def persist_fence_locked_def then_do_def Let_def
        split: if_splits prod.splits)
  have h: "calm f h" using calm_append [of f] a(1) by (metis snd_conv)
  have "wf_state ((fb_state g)\<lparr>ds_attempts := []\<rparr>)"
    using fit_wf [OF f(1)] a(2) h by (auto simp: a(4) with_state_def calm_defs wf_state_def)
  then have "fit g" by (rule fit_updated [OF f(1) h, rotated -1]) (simp_all add: a(4) with_state_def)
  then show ?thesis
    using f(2) a(2) h
    by (intro append_undisturbed [OF f(2) refl refl refl _ _ a(1,3)])
      (auto simp: applied apply_fence_def mirrors_def same_contents_def a(4) with_state_def calm_defs)
qed

text \<open>Compaction replaces the journal by a snapshot of the coordinator itself.\<close>

lemma snapshot_written:
  assumes "holds st s" "wf_state t" "ds_last_sequence t = ds_last_sequence s"
    "write_snapshot t st = (status, st')" "st_ok status"
  shows "holds st' t"
proof -
  obtain bytes where s: "sr_journal st = Some bytes" "sr_journal_open st" "\<not> sr_closed st"
    "\<not> sr_inspection_only st" "sr_last_sequence st = ds_last_sequence t"
    using assms(1,3) by (auto simp: holds_def)
  have size: "encode_snapshot t \<noteq> []" "snapshot_holds (Some (encode_snapshot t)) t"
    using encode_snapshot_size [OF assms(2)] decode_encode_snapshot [OF assms(2)]
    by (simp_all add: snapshot_holds_def)
  define io where "io = (case sr_snapshot_io st of [] \<Rightarrow> SnapshotIO_ok | r # _ \<Rightarrow> r)"
  note run = assms(4) [unfolded write_snapshot_def Let_def, folded io_def]
  have "io = SnapshotIO_ok" using run s size(1) assms(5) by (cases io) auto
  then have "sr_journal st' = Some []" "sr_snapshot st' = Some (encode_snapshot t)"
    "sr_journal_open st'" "\<not> sr_closed st'" "\<not> sr_inspection_only st'"
    "sr_last_sequence st' = ds_last_sequence t"
    using run s size(1) by auto
  then show ?thesis using size(2) replays_nil by (auto simp: holds_def)
qed

lemma compact_undisturbed:
  assumes "faithful f" "compact_if_needed_locked f = (status, g)" "st_ok status"
  shows "undisturbed f g"
proof -
  obtain s where f: "fit f" "mirrors s f" using assms(1) by (auto simp: faithful_def)
  obtain st1 st where w: "write_snapshot (snapshot_state_locked f) (fb_store f) = (st1, st)"
    by fastforce
  consider "g = f" | "st1 = status" "g = f\<lparr>fb_store := st\<rparr>"
    using assms(2) w by (simp add: compact_if_needed_locked_def split: if_splits)
  then show ?thesis
  proof cases
    case 1
    then show ?thesis using assms(1) by (simp add: undisturbed_def)
  next
    case 2
    let ?t = "snapshot_state_locked f"
    have k: "keyed f" using f(1) by (rule fit_keyed)
    have "holds st ?t"
      using f by (intro snapshot_written [OF _ _ _ w [unfolded 2(1)] assms(3), of s])
        (simp_all add: mirrors_def fit_def snapshot_state_locked_def)
    moreover note keyed_values [OF k]
    ultimately have m: "mirrors ?t g" "\<And>a. map_of (fb_attempts f) (ar_id a) = Some a \<Longrightarrow> a \<in> set (ds_attempts ?t)"
      using keyed_distinct [OF k]
      by (simp_all add: mirrors_def 2(2) same_contents_def same_live_def snapshot_state_locked_def)
    have "fit g" using f(1) by (simp add: fit_iff 2(2) keyed_def)
    then show ?thesis
      using m by (auto simp: undisturbed_def durable_def 2(2) intro: faithfulI)
  qed
qed

end
