(* ===== verification/PFF_Replica.thy ===== *)
theory PFF_Replica
  imports PFF_Mirror
begin

text \<open>
  Every call that succeeds keeps the journal an image of the coordinator, and so does a start. The
  lemmas follow the operations of the coordinator one by one; \<open>history\<close> closes them under calls and
  under the end of the process and a new start on the files it left.
\<close>

section \<open>Changes in memory only\<close>

text \<open>Evidence, grants, path fences, statistics and counters have no part in the image.\<close>

definition core :: "Fabric \<Rightarrow> Fabric \<Rightarrow> bool" where
  "core f g \<longleftrightarrow> fb_store g = fb_store f \<and> same_contents (fb_state g) (fb_state f) \<and>
     ds_last_sequence (fb_state g) = ds_last_sequence (fb_state f) \<and>
     fb_attempts g = fb_attempts f \<and> fb_sets g = fb_sets f \<and> fb_options g = fb_options f"

lemma core_mirrors: "core f g \<Longrightarrow> mirrors s g \<longleftrightarrow> mirrors s f"
  by (auto simp: core_def mirrors_def same_contents_def same_live_def)

lemma core_durable: "core f g \<Longrightarrow> durable a g \<longleftrightarrow> durable a f"
  using core_mirrors [of f g] by (simp add: durable_def)

lemma core_active: "core f g \<Longrightarrow> active_at g j \<longleftrightarrow> active_at f j"
  by (simp add: core_def active_at_def)

lemma core_faithful: "faithful f \<Longrightarrow> core f g \<Longrightarrow> faithful g"
  using core_mirrors [of f g] fit_cong [of f g]
  by (auto simp: faithful_def core_def fit_iff keyed_def)

lemma core_refl [simp]: "core f f"
  by (simp add: core_def same_contents_def)

lemma core_tally [simp]: "core f (tally u g) \<longleftrightarrow> core f g"
  by (simp add: core_def tally_def)

lemma active_tally [simp]: "fb_active_attempt (tally u f) = fb_active_attempt f"
  by (simp add: tally_def)

lemma faithful_keyed: "faithful f \<Longrightarrow> keyed f"
  by (auto simp: faithful_def fit_keyed)

lemma undisturbed_active: "undisturbed f g \<Longrightarrow> active_at g j \<longleftrightarrow> active_at f j"
  by (simp add: undisturbed_def active_at_def)

lemma undisturbedD:
  "undisturbed f g \<Longrightarrow> faithful g" "undisturbed f g \<Longrightarrow> fb_attempts g = fb_attempts f"
  "undisturbed f g \<Longrightarrow> fb_active_attempt g = fb_active_attempt f"
  "undisturbed f g \<Longrightarrow> durable a f \<Longrightarrow> map_of (fb_attempts f) (ar_id a) = Some a \<Longrightarrow> durable a g"
  by (simp_all add: undisturbed_def)

section \<open>Attempts\<close>

lemma persisted:
  assumes "faithful f" "h = f \<or> h = store_attempt (ar_id a) a f \<and> active_at f (ar_id a)"
    and "active_at f (ar_id a) \<or> (\<forall>j. \<not> active_at f j)"
    and "persist_attempt_locked a w h = (status, g)" "st_ok status"
  shows "faithful g" "durable a g" "map_of (fb_attempts g) (ar_id a) = Some a"
    "j \<noteq> ar_id a \<Longrightarrow> active_at g j \<longleftrightarrow> active_at f j" "fb_active_attempt g = fb_active_attempt f"
proof -
  obtain s where s: "fit f" "mirrors s f" using assms(1) by (auto simp: faithful_def)
  show "faithful g" "durable a g" "map_of (fb_attempts g) (ar_id a) = Some a"
    "j \<noteq> ar_id a \<Longrightarrow> active_at g j \<longleftrightarrow> active_at f j" "fb_active_attempt g = fb_active_attempt f"
    using persist_mirrors [OF s assms(2-5)] by (metis faithfulI durable_def)+
qed

lemma active_iff: "map_of (fb_attempts f) i = Some a \<Longrightarrow> active_at f i \<longleftrightarrow> is_active_state (ar_state a)"
  by (simp add: active_at_def)

text \<open>The end of one attempt: persisted, entered into the lineage, and \<open>d\<close> changes memory only.\<close>

lemma settle_image:
  assumes "faithful f" "lone f" "active_at f i" "ar_id a = i" "\<not> is_active_state (ar_state a)"
    and "then_do (persist_attempt_locked a False (store_attempt i a f)) (\<lambda>f.
      then_do (persist_lineage_locked (e f) f) (\<lambda>f. compact_if_needed_locked (d f))) = (status, g)"
    "st_ok status"
    and d: "\<And>h. fb_active_attempt h = fb_active_attempt f \<Longrightarrow>
      core h (d h) \<and> (fb_active_attempt (d h) = fb_active_attempt h \<or> fb_active_attempt h = i)"
  shows "faithful g \<and> lone g \<and> durable a g \<and> map_of (fb_attempts g) i = Some a"
proof -
  obtain st1 h where h: "persist_attempt_locked a False (store_attempt i a f) = (st1, h)" by fastforce
  note r = then_do_ok [OF assms(6) [unfolded h] assms(7), simplified]
  obtain st2 k where k: "persist_lineage_locked (e h) h = (st2, k)" by fastforce
  note r2 = then_do_ok [OF conjunct2 [OF r, unfolded k] assms(7), simplified]
  note p = persisted [OF assms(1) _ _ h conjunct1 [OF r], unfolded assms(4)]
  have at: "faithful h" "durable a h" "map_of (fb_attempts h) i = Some a"
    "\<And>j. j \<noteq> i \<Longrightarrow> active_at h j = active_at f j" "fb_active_attempt h = fb_active_attempt f"
    using p assms(3) by auto
  have u: "undisturbed h k" using lineage_undisturbed [OF at(1) k] r2 by simp
  note dk0 = d [of k, unfolded undisturbedD(3) [OF u] at(5), OF refl]
  have dk: "faithful (d k)" "durable a (d k)" "fb_attempts (d k) = fb_attempts h"
    using dk0 undisturbedD [OF u] at(2,3) assms(4) core_faithful [of k "d k"]
      core_durable [of k "d k" a] by (auto simp: core_def)
  have v: "undisturbed (d k) g" using compact_undisturbed [OF dk(1)] r2 assms(7) by blast
  have g: "map_of (fb_attempts g) i = Some a" using undisturbedD(2) [OF v] dk(3) at(3) by simp
  have "active_at g j \<longleftrightarrow> j \<noteq> i \<and> active_at f j" for j
    using undisturbedD(2) [OF v] dk(3) at(4) active_iff [OF g] assms(5)
    by (cases "j = i") (auto simp: active_at_def)
  moreover have "fb_active_attempt g = fb_active_attempt f \<or> fb_active_attempt f = i"
    using undisturbedD(3) [OF v] undisturbedD(3) [OF u] dk0 at(5) by simp
  ultimately have "lone g" using assms(2) by (auto simp: lone_def)
  then show ?thesis
    using undisturbedD(1) [OF v] undisturbedD(4) [OF v dk(2)] g dk(3) at(3) assms(4) by simp
qed

text \<open>Several attempts at once.\<close>

lemma ends_inactive: "ends st \<Longrightarrow> ar_state a = st \<Longrightarrow> \<not> is_active_state (ar_state a)"
  by (auto simp: ends_def is_active_state_def)

lemma fence_each_image:
  assumes "faithful f" "\<forall>i \<in> set is. active_at f i" "distinct is" "ends st"
    and "fence_each reason st is f = (status, g)" "st_ok status"
  shows "faithful g \<and> (\<forall>j. active_at g j \<longleftrightarrow> active_at f j \<and> j \<notin> set is) \<and>
    fb_active_attempt g = fb_active_attempt f"
  using assms(1-3,5)
proof (induction "is" arbitrary: f)
  case (Cons i rest)
  obtain b where b: "map_of (fb_attempts f) i = Some b" "is_active_state (ar_state b)"
    using Cons.prems(2) by (auto simp: active_at_def split: option.splits)
  let ?a = "ended st reason f b"
  have id: "ar_id ?a = i" using keyedD(2) [OF faithful_keyed [OF Cons.prems(1)] b(1)]
    by (simp add: ended_def)
  obtain st1 h where h: "persist_attempt_locked ?a False (store_attempt i ?a f) = (st1, h)" by fastforce
  obtain st2 k where k: "record_fence_locked i absent reason h = (st2, k)" by fastforce
  let ?k = "tally fs_fences_recorded_update k"
  have r: "st_ok st1" "st_ok st2" "fence_each reason st rest ?k = (status, g)"
    using Cons.prems(4) assms(6) b(1) h k
    by (auto simp: find_attempt_locked_def Let_def then_do_def split: if_splits)
  note p = persisted [OF Cons.prems(1) _ _ h r(1), unfolded id]
  have at: "faithful h" "map_of (fb_attempts h) i = Some ?a"
    "\<And>j. j \<noteq> i \<Longrightarrow> active_at h j = active_at f j" "fb_active_attempt h = fb_active_attempt f"
    using p Cons.prems(2) by auto
  have u: "undisturbed h k" by (rule fence_undisturbed [OF at(1) k r(2)])
  have c: "core k ?k" by simp
  have act: "active_at ?k j \<longleftrightarrow> active_at f j \<and> j \<noteq> i" for j
    using core_active [OF c] undisturbed_active [OF u] at(3) active_iff [OF at(2)]
      ends_inactive [OF assms(4), of ?a] by (cases "j = i") (auto simp: ended_def)
  then have "\<forall>j \<in> set rest. active_at ?k j" using Cons.prems(2,3) by auto
  then have "faithful g \<and> (\<forall>j. active_at g j \<longleftrightarrow> active_at ?k j \<and> j \<notin> set rest) \<and>
      fb_active_attempt g = fb_active_attempt ?k"
    using Cons.IH [OF core_faithful [OF undisturbedD(1) [OF u] c] _ _ r(3)] Cons.prems(3) by simp
  then show ?case using act undisturbedD(3) [OF u] at(4) by auto
qed simp

lemma fence_attempts_image:
  assumes "faithful f" "ends st" "fence_attempts_locked reason st f = (status, g)" "st_ok status"
  shows "faithful g \<and> (\<forall>j. \<not> active_at g j)"
proof -
  have k: "keyed f" by (rule faithful_keyed [OF assms(1)])
  obtain st1 h where h: "fence_each reason st (active_ids f) f = (st1, h)" by fastforce
  have r: "st_ok st1" "core h g"
    using assms(3,4) h
    by (auto simp: fence_attempts_locked_def Let_def then_do_def core_def same_contents_def split: if_splits)
  have "\<forall>i \<in> set (active_ids f). active_at f i" using active_ids_iff [OF k] by blast
  note e = fence_each_image [OF assms(1) this distinct_active_ids [OF k] assms(2) h r(1)]
  then have "\<forall>j. \<not> active_at h j" using active_ids_iff [OF k] by blast
  then show ?thesis using core_active [OF r(2)] core_faithful [OF _ r(2)] e by blast
qed

lemma fence_targeting_image:
  assumes "faithful f" "lone f" "fence_targeting path is f = (status, g)" "st_ok status"
  shows "faithful g \<and> lone g"
  using assms(1-3)
proof (induction "is" arbitrary: f)
  case (Cons i rest)
  show ?case
  proof (cases "\<exists>b. map_of (fb_attempts f) i = Some b \<and> is_active_state (ar_state b) \<and> ar_selected b = path")
    case True
    then obtain b where b: "map_of (fb_attempts f) i = Some b" "is_active_state (ar_state b)"
      "ar_selected b = path" by blast
    let ?a = "ended AttemptState_fenced Reason_path_fenced f b"
    have id: "ar_id ?a = i" using keyedD(2) [OF faithful_keyed [OF Cons.prems(1)] b(1)]
      by (simp add: ended_def)
    obtain st1 h where h: "persist_attempt_locked ?a False (store_attempt i ?a f) = (st1, h)" by fastforce
    let ?h = "h\<lparr>fb_grants := map_erase i (fb_grants h),
      fb_active_attempt := (if fb_active_attempt h = i then absent else fb_active_attempt h)\<rparr>"
    have r: "st_ok st1" "fence_targeting path rest ?h = (status, g)"
      using Cons.prems(3) assms(4) b h
      by (auto simp: find_attempt_locked_def Let_def then_do_def split: if_splits)
    note p = persisted [OF Cons.prems(1) _ _ h r(1), unfolded id]
    have at: "faithful h" "map_of (fb_attempts h) i = Some ?a"
      "\<And>j. j \<noteq> i \<Longrightarrow> active_at h j = active_at f j" "fb_active_attempt h = fb_active_attempt f"
      using p active_iff [OF b(1)] b(2) by auto
    have c: "core h ?h" by (simp add: core_def same_contents_def)
    have act: "active_at ?h j \<longleftrightarrow> active_at f j \<and> j \<noteq> i" for j
      using core_active [OF c] at(3) active_iff [OF at(2)] by (cases "j = i") (auto simp: ended_def)
    have "lone ?h" using Cons.prems(2) act at(4) by (auto simp: lone_def)
    then show ?thesis using Cons.IH [OF core_faithful [OF at(1) c] _ r(2)] by simp
  next
    case False
    then have "fence_targeting path rest f = (status, g)"
      using Cons.prems(3) by (auto simp: find_attempt_locked_def split: option.splits)
    then show ?thesis using Cons.IH [OF Cons.prems(1,2)] by simp
  qed
qed simp

section \<open>Ingest\<close>

definition mirrored :: "Fabric \<Rightarrow> bool" where
  "mirrored f \<longleftrightarrow> faithful f \<and> lone f"

lemma imageD: "mirrored f \<Longrightarrow> faithful f" "mirrored f \<Longrightarrow> lone f"
  by (simp_all add: mirrored_def)

lemma idle_image: "faithful f \<Longrightarrow> (\<And>j. \<not> active_at f j) \<Longrightarrow> mirrored f"
  by (simp add: mirrored_def lone_def)

lemma undisturbed_image: "mirrored f \<Longrightarrow> undisturbed f g \<Longrightarrow> mirrored g"
  using undisturbed_active [of f g] by (simp add: mirrored_def lone_def undisturbed_def)

lemma core_image: "mirrored f \<Longrightarrow> core f g \<Longrightarrow> fb_active_attempt g = fb_active_attempt f \<Longrightarrow> mirrored g"
  using core_active [of f g] core_faithful [of f g] by (simp add: mirrored_def lone_def)

lemma fenced_image:
  assumes "faithful f" "st_ok status"
    "then_do (fence_attempts_locked reason AttemptState_fenced f) compact_if_needed_locked = (status, g)"
  shows "mirrored g"
proof -
  obtain st1 h where h: "fence_attempts_locked reason AttemptState_fenced f = (st1, h)" by fastforce
  note r = then_do_ok [OF assms(3) [unfolded h] assms(2), simplified]
  have i: "faithful h" "\<And>j. \<not> active_at h j"
    using fence_attempts_image [OF assms(1) ends_simps(1) h] r by auto
  show ?thesis
    using undisturbed_image [OF idle_image [OF i] compact_undisturbed [OF i(1)]] r assms(2) by blast
qed

lemma policy_image:
  assumes "mirrored f" "fabric_apply_policy p f = (status, g)" "st_ok status"
  shows "mirrored g"
proof (cases "g = f")
  case False
  obtain s where f: "fit f" "mirrors s f" using imageD(1) [OF assms(1)] by (auto simp: faithful_def)
  obtain st1 h where a: "append_locked RecordType_policy_set (encode_policy_record p) f = (st1, h)"
    by fastforce
  let ?k = "with_state (\<lambda>s. s\<lparr>ds_policy := p, ds_has_policy := True,
    ds_authority := (ds_authority s)\<lparr>av_policy := fp_generation p\<rparr>\<rparr>) h"
  have r: "st_ok (validate_policy p)" "st_ok st1"
    "then_do (fence_attempts_locked Reason_authority_fenced AttemptState_fenced ?k)
      compact_if_needed_locked = (status, g)"
    using assms(2,3) False a
    by (auto simp: fabric_apply_policy_def then_do_def [of "(st1, h)"] Let_def split: if_splits)
  have h: "calm f h" using calm_append [of f] a by (metis snd_conv)
  have "wf_state ((fb_state ?k)\<lparr>ds_attempts := []\<rparr>)"
    using fit_wf [OF f(1)] h r(1)
    by (simp add: with_state_def calm_defs wf_state_def cong: if_cong)
  then have "fit ?k" by (rule fit_updated [OF f(1) h, rotated -1]) (simp_all add: with_state_def)
  then have "undisturbed f ?k"
    using f(2) h by (intro append_undisturbed [OF f(2) refl refl refl _ _ a r(2)])
      (simp_all add: applied r(1) apply_policy_def mirrors_def same_contents_def with_state_def calm_defs)
  then show ?thesis using fenced_image [OF undisturbedD(1) assms(3) r(3)] by blast
qed (use assms in simp)

lemma obligations_image:
  assumes "mirrored f" "fabric_apply_obligations ob f = (status, g)" "st_ok status"
  shows "mirrored g"
proof (cases "g = f")
  case False
  obtain s where f: "fit f" "mirrors s f" using imageD(1) [OF assms(1)] by (auto simp: faithful_def)
  obtain st1 h where
    a: "append_locked RecordType_obligations_set (encode_obligations_record ob) f = (st1, h)"
    by fastforce
  let ?k = "with_state (\<lambda>s. s\<lparr>ds_obligations := ob, ds_has_obligations := True,
    ds_authority := (ds_authority s)\<lparr>av_obligations := so_generation ob\<rparr>\<rparr>) h"
  have r: "st_ok (validate_obligations ob)" "st_ok st1"
    "then_do (fence_attempts_locked Reason_authority_fenced AttemptState_fenced ?k)
      compact_if_needed_locked = (status, g)"
    using assms(2,3) False a
    by (auto simp: fabric_apply_obligations_def then_do_def [of "(st1, h)"] Let_def split: if_splits)
  have h: "calm f h" using calm_append [of f] a by (metis snd_conv)
  have "wf_state ((fb_state ?k)\<lparr>ds_attempts := []\<rparr>)"
    using fit_wf [OF f(1)] h r(1)
    by (simp add: with_state_def calm_defs wf_state_def cong: if_cong)
  then have "fit ?k" by (rule fit_updated [OF f(1) h, rotated -1]) (simp_all add: with_state_def)
  then have "undisturbed f ?k"
    using f(2) h by (intro append_undisturbed [OF f(2) refl refl refl _ _ a r(2)])
      (simp_all add: applied r(1) apply_obligations_def mirrors_def same_contents_def with_state_def
        calm_defs)
  then show ?thesis using fenced_image [OF undisturbedD(1) assms(3) r(3)] by blast
qed (use assms in simp)

text \<open>The authority changes in memory before its record is written.\<close>

lemma epoch_undisturbed:
  assumes "faithful f" "h = f\<lparr>fb_state := t, fb_identity := n, fb_stats := m\<rparr>"
    "t = (fb_state f)\<lparr>ds_authority := v, ds_restart_count := c\<rparr>"
    "av_policy v = av_policy (ds_authority (fb_state f))"
    "av_obligations v = av_obligations (ds_authority (fb_state f))"
    and "append_locked RecordType_epoch_advance (epoch_payload (fb_state h)) h = (status, g)" "st_ok status"
  shows "undisturbed f g"
proof -
  obtain s where f: "fit f" "mirrors s f" using assms(1) by (auto simp: faithful_def)
  have g: "calm h g" using calm_append [of h] assms(6) by (metis snd_conv)
  have "wf_state ((fb_state h)\<lparr>ds_attempts := []\<rparr>)"
    using fit_wf [OF f(1)] assms(2-5) by (simp add: wf_state_def cong: if_cong)
  then have "fit h" using f(1) assms(2,3) by (simp add: fit_iff keyed_def)
  moreover have "wf_state ((fb_state g)\<lparr>ds_attempts := []\<rparr>)"
    using fit_wf [OF \<open>fit h\<close>] g by (simp add: calm_defs wf_state_def cong: if_cong)
  ultimately have "fit g" by (rule fit_updated [OF _ g refl refl refl refl])
  then show ?thesis
    using f(2) g assms(2,3)
    by (intro append_undisturbed [OF f(2) _ _ _ _ _ assms(6,7)])
      (simp_all add: applied apply_epoch_def mirrors_def same_contents_def calm_defs)
qed

lemma authority_image:
  assumes "mirrored f" "fabric_set_authority a f = (status, g)" "st_ok status"
  shows "mirrored g"
proof (cases "g = f")
  case False
  let ?h = "with_state (\<lambda>s. s\<lparr>ds_authority := (ds_authority s)\<lparr>av_topology := av_topology a,
    av_path_authority := av_path_authority a\<rparr>\<rparr>) f"
  obtain st1 k where k: "append_locked RecordType_epoch_advance (epoch_payload (fb_state ?h)) ?h = (st1, k)"
    by fastforce
  have r: "st_ok st1" "then_do (fence_attempts_locked Reason_authority_fenced AttemptState_fenced k)
      compact_if_needed_locked = (status, g)"
    using assms(2,3) False k
    by (auto simp: fabric_set_authority_def then_do_def [of "(st1, k)"] Let_def split: if_splits)
  have "undisturbed f k"
    by (rule epoch_undisturbed [OF imageD(1) [OF assms(1)] _ refl _ _ k r(1),
          where n = "fb_identity f" and m = "fb_stats f" and c = "ds_restart_count (fb_state f)"
            and v = "(ds_authority (fb_state f))\<lparr>av_topology := av_topology a,
              av_path_authority := av_path_authority a\<rparr>"])
      (simp_all add: with_state_def)
  then show ?thesis using fenced_image [OF undisturbedD(1) assms(3) r(2)] by blast
qed (use assms in simp)

lemma installed_sets:
  assumes "fit f"
  shows "length (ds_sets (fb_state f)) = length (fb_sets f)"
    "list_ex (\<lambda>c. as_id c = i) (ds_sets (fb_state f)) \<longleftrightarrow> map_of (fb_sets f) i \<noteq> None"
proof -
  have f: "ordered (fb_sets f)" "distinct (map as_id (ds_sets (fb_state f)))"
    "\<And>i st. map_of (fb_sets f) i = Some st \<longleftrightarrow> st \<in> set (ds_sets (fb_state f)) \<and> as_id st = i"
    using assms by (auto simp: fit_iff wf_state_def)
  show "list_ex (\<lambda>c. as_id c = i) (ds_sets (fb_state f)) \<longleftrightarrow> map_of (fb_sets f) i \<noteq> None" for i
    using f(3) by (auto simp: list_ex_iff)
  then have "set (map as_id (ds_sets (fb_state f))) = set (map fst (fb_sets f))"
    by (auto simp: list_ex_iff map_of_eq_None_iff image_iff) (metis fst_conv)+
  then show "length (ds_sets (fb_state f)) = length (fb_sets f)"
    using distinct_card [OF f(2)] distinct_card [OF smap.distinct_entries [OF f(1)]] by simp
qed

lemma put_set_image:
  assumes "mirrored f" "put_set_locked st f = (status, g)" "st_ok status" "st_ok (validate_set st)"
    and "map_of (fb_sets f) (as_id st) = None \<Longrightarrow> length (fb_sets f) < max_alternate_sets"
  shows "mirrored g"
proof -
  obtain s where f: "fit f" "mirrors s f" using imageD(1) [OF assms(1)] by (auto simp: faithful_def)
  let ?old = "\<lambda>c. as_id c = as_id st" and ?sets = "ds_sets (fb_state f)"
  let ?new = "\<lambda>l. if list_ex ?old l then update_first ?old st l else l @ [st]"
  obtain st1 h where a: "append_locked RecordType_alternate_set_put (encode_set_record st) f = (st1, h)"
    by fastforce
  let ?k = "with_state (\<lambda>s. s\<lparr>ds_sets := ?new (ds_sets s)\<rparr>)
    (h\<lparr>fb_sets := map_assign (as_id st) st (fb_sets h)\<rparr>)"
  have r: "st_ok st1" "compact_if_needed_locked ?k = (status, g)"
    using assms(2,3) a
    by (auto simp: put_set_locked_def then_do_def [of "(st1, h)"] Let_def split: if_splits)
  have h: "calm f h" using calm_append [of f] a by (metis snd_conv)
  have room: "length ?sets < max_alternate_sets" if "\<not> list_ex ?old ?sets"
    using that assms(5) installed_sets(1) [OF f(1)] installed_sets(2) [OF f(1), of "as_id st"] by simp
  have d: "distinct (map as_id ?sets)" using f(1) by (simp add: fit_iff wf_state_def)
  have mem: "x \<in> set (?new ?sets) \<longleftrightarrow> (if as_id x = as_id st then x = st else x \<in> set ?sets)" for x
    using mem_update_first [OF d, of st x] by (auto simp: list_ex_iff)
  have "wf_state ((fb_state ?k)\<lparr>ds_attempts := []\<rparr>)"
  proof -
    have "\<forall>v \<in> set (?new ?sets). st_ok (validate_set v)" "distinct (map as_id (?new ?sets))"
      "length (?new ?sets) \<le> max_alternate_sets"
      using fit_wf [OF f(1)] mem assms(4) room d key_not_in [of as_id "as_id st" ?sets]
      by (auto simp: wf_state_def map_update_first split: if_splits)
    then show ?thesis
      using fit_wf [OF f(1)] h by (simp add: with_state_def calm_defs wf_state_def cong: if_cong)
  qed
  then have "fit ?k"
    using f(1) h mem
    by (auto simp: fit_iff with_state_def calm_defs keyed_def ordered_assign split: if_splits)
  moreover have "apply_record s RecordType_alternate_set_put (encode_set_record st) =
      (ok_status, s\<lparr>ds_sets := ?new ?sets\<rparr>)"
    using f(2) room
    by (auto simp: applied assms(4) apply_set_def mirrors_def same_contents_def not_le)
  ultimately have "undisturbed f ?k"
    using f(2) h
    by (intro append_undisturbed [OF f(2) refl refl refl _ _ a r(1)])
      (simp_all add: mirrors_def same_contents_def with_state_def calm_defs cong: if_cong)
  then show ?thesis
    using undisturbed_image [OF assms(1) undisturbed_trans [OF _ compact_undisturbed [OF _ r(2) assms(3)]]]
      undisturbedD(1) by blast
qed

lemma set_image:
  assumes "mirrored f" "fabric_apply_alternate_set st f = (status, g)" "st_ok status"
  shows "mirrored g"
  using assms put_set_image [OF assms(1) _ assms(3), of st g]
  by (auto simp: fabric_apply_alternate_set_def Let_def split: if_splits option.splits)

lemma evidence_image: "mirrored f \<Longrightarrow> mirrored (snd (fabric_apply_evidence e f))"
  by (rule core_image, assumption)
    (auto simp: fabric_apply_evidence_def Let_def core_def same_contents_def tally_def
      split: option.split)

lemma fence_path_image:
  assumes "mirrored f" "fabric_fence_path path reason f = (status, g)" "st_ok status"
  shows "mirrored g"
proof (cases "g = f")
  case False
  obtain st1 h where h: "record_fence_locked absent path reason f = (st1, h)" by fastforce
  let ?k = "tally fs_fences_recorded_update (h\<lparr>fb_path_fences := map_emplace path reason (fb_path_fences h)\<rparr>)"
  obtain st2 m where m: "fence_targeting path (map fst (fb_attempts ?k)) ?k = (st2, m)" by fastforce
  have r: "st_ok st1" "st_ok st2" "compact_if_needed_locked m = (status, g)"
    using assms(2,3) False h m
    by (auto simp: fabric_fence_path_def then_do_def Let_def split: if_splits)
  have "mirrored h" using undisturbed_image [OF assms(1) fence_undisturbed [OF imageD(1) [OF assms(1)] h r(1)]] .
  then have "mirrored ?k" by (rule core_image) (simp_all add: core_def same_contents_def tally_def)
  then have "mirrored m" using fence_targeting_image [OF _ _ m r(2)] by (simp add: mirrored_def)
  then show ?thesis
    using undisturbed_image [OF _ compact_undisturbed [OF _ r(3) assms(3)]] imageD(1) by blast
qed (use assms in simp)

lemma fence_all_image:
  "mirrored f \<Longrightarrow> fabric_fence_all reason f = (status, g) \<Longrightarrow> st_ok status \<Longrightarrow> mirrored g"
  using fence_attempts_image [OF imageD(1) ends_simps(1)] idle_image
  unfolding fabric_fence_all_def by blast

lemma evaluate_image: "mirrored f \<Longrightarrow> mirrored (snd (fabric_evaluate incumbent c i f))"
  by (rule core_image, assumption)
    (auto simp: fabric_evaluate_def core_def same_contents_def with_state_def split: sum.split)

section \<open>Promotions\<close>

lemma lone_idle: "lone f \<Longrightarrow> \<not> owner_active f \<Longrightarrow> \<not> active_at f j"
  by (auto simp: lone_def owner_active_iff)

lemma refuse_image:
  assumes "faithful f" "map_of (fb_attempts f) (ar_id a) = Some a" "ar_state a = AttemptState_claimed"
    and "\<And>j. j \<noteq> ar_id a \<Longrightarrow> \<not> active_at f j" "refuse_attempt a n d f = (Inr auth, g)"
  shows "mirrored g"
proof -
  let ?a = "ended AttemptState_refused (pd_reason d) f a"
  have id: "ar_id ?a = ar_id a" by (simp add: ended_def)
  obtain st1 h where h: "persist_attempt_locked ?a False f = (st1, h)" by fastforce
  note r1 = then_return_ok [OF assms(5) [unfolded refuse_attempt_def h], simplified]
  let ?e = "lineage_entry n (ar_id a) (pd_outcome d) (ar_incumbent a) absent (ar_set a) (pd_reason d) h"
  obtain st2 k where k: "persist_lineage_locked ?e h = (st2, k)" by fastforce
  note r2 = then_return_ok [OF r1(2) [unfolded k], simplified]
  let ?k = "if is_indeterminate (pd_outcome d) then tally fs_promotions_indeterminate_update k
    else tally fs_promotions_refused_update k"
  obtain st3 m where m: "compact_if_needed_locked ?k = (st3, m)" by fastforce
  have r3: "st_ok st3" "g = m" using r2(2) m by (auto simp: then_return_def split: if_splits)
  have "active_at f (ar_id a)" using active_iff [OF assms(2)] assms(3) by simp
  then have p: "faithful h" "map_of (fb_attempts h) (ar_id a) = Some ?a"
    "\<And>j. j \<noteq> ar_id a \<Longrightarrow> active_at h j = active_at f j"
    using persisted [OF assms(1) _ _ h r1(1)] id by auto
  then have "\<not> active_at h j" for j
    using assms(4) active_iff [OF p(2)] by (cases "j = ar_id a") (auto simp: ended_def)
  then have "mirrored k"
    using undisturbed_image [OF idle_image [OF p(1)] lineage_undisturbed [OF p(1) k r2(1)]] by blast
  then have "mirrored ?k" by (rule core_image) simp_all
  then show ?thesis
    using undisturbed_image [OF _ compact_undisturbed [OF _ m r3(1)]] imageD(1) r3(2) by blast
qed

lemma grant_image:
  assumes "faithful f" "map_of (fb_attempts f) (ar_id a) = Some a" "ar_state a = AttemptState_claimed"
    and "\<And>j. j \<noteq> ar_id a \<Longrightarrow> \<not> active_at f j" "valid (ar_id a)" "issue_grant a d f = (Inr auth, g)"
  shows "mirrored g"
proof -
  let ?a = "a\<lparr>ar_state := AttemptState_authorized\<rparr>"
  obtain st1 h where h: "persist_attempt_locked ?a False f = (st1, h)" by fastforce
  note r1 = then_return_ok [OF assms(6) [unfolded issue_grant_def h], simplified]
  define k where "k = tally fs_promotions_authorized_update (h\<lparr>fb_active_attempt := ar_id a,
    fb_grants := map_assign (ar_id a) \<lparr>gr_id = ar_id a, gr_attempt = ar_id a, gr_path = pd_selected d,
      gr_basis = ds_authority (fb_state h), gr_kind = AuthorityKind_grant\<rparr> (fb_grants h)\<rparr>)"
  obtain st2 m where m: "compact_if_needed_locked k = (st2, m)" by fastforce
  have r2: "st_ok st2" "g = m"
    using r1(2) m by (auto simp: Let_def then_return_def simp flip: k_def split: if_splits)
  have "active_at f (ar_id a)" using active_iff [OF assms(2)] assms(3) by simp
  then have p: "faithful h" "\<And>j. j \<noteq> ar_id a \<Longrightarrow> active_at h j = active_at f j"
    using persisted [OF assms(1) _ _ h r1(1)] by auto
  have c: "core h k" by (simp add: k_def core_def same_contents_def tally_def)
  have "j = ar_id a" if "active_at k j" for j using that core_active [OF c] p(2) assms(4) by blast
  then have "lone k" using assms(5) by (auto simp: lone_def k_def)
  then have "mirrored k" using core_faithful [OF p(1) c] by (simp add: mirrored_def)
  then show ?thesis
    using undisturbed_image [OF _ compact_undisturbed [OF _ m r2(1)]] imageD(1) r2(2) by blast
qed

lemma claim_image:
  assumes "faithful f" "\<And>j. \<not> active_at f j" "ds_attempt_sequence (fb_state f) \<noteq> - 1"
    and "claim_transition incumbent c set_id f = (Inr auth, g)"
  shows "mirrored g"
proof -
  let ?i = "ds_attempt_sequence (fb_state f) + 1" and ?n = "ds_decision_sequence (fb_state f) + 1"
  let ?f = "with_state (\<lambda>s. s\<lparr>ds_decision_sequence := ds_decision_sequence s + 1\<rparr>) f"
  let ?inc = "with_state (\<lambda>s. s\<lparr>ds_attempt_sequence := ds_attempt_sequence s + 1\<rparr>)"
  have count: "core f ?f" "core h (?inc h)" for h
    by (simp_all add: core_def same_contents_def with_state_def)
  note f = core_faithful [OF assms(1) count(1)]
  have idle: "\<not> active_at ?f j" for j using assms(2) core_active [OF count(1)] by blast
  obtain d where d: "select_locked incumbent c set_id ?n ?i AuthorityKind_grant f = Inr d"
    using assms(4) by (auto simp: claim_transition_def Let_def split: sum.splits)
  show ?thesis
  proof (cases "structural_refusal (pd_outcome d)")
    case True
    then have "g = tally fs_promotions_refused_update ?f"
      using assms(4) d by (simp add: claim_transition_def Let_def)
    then show ?thesis using core_image [OF idle_image [OF f idle]] by simp
  next
    case False
    define a where "a = claimed_attempt ?i incumbent set_id d ?f"
    have a: "ar_id a = ?i" "ar_state a = AttemptState_claimed"
      by (simp_all add: a_def claimed_attempt_def)
    obtain st1 h where h: "persist_attempt_locked a True ?f = (st1, h)" by fastforce
    have "then_return (st1, h) (\<lambda>f. if pd_outcome d \<noteq> PromotionOutcome_authorized \<or> \<not> valid (pd_selected d)
        then refuse_attempt a ?n d (?inc f) else issue_grant a d (?inc f)) = (Inr auth, g)"
      using assms(4) d False h unfolding a_def by (simp add: claim_transition_def Let_def)
    note r = then_return_ok [OF this, simplified]
    have p: "faithful h" "map_of (fb_attempts h) (ar_id a) = Some a"
      "\<And>j. j \<noteq> ar_id a \<Longrightarrow> \<not> active_at h j"
      using persisted [OF f _ _ h r(1)] idle by auto
    have k: "faithful (?inc h)" "map_of (fb_attempts (?inc h)) (ar_id a) = Some a"
      "\<And>j. j \<noteq> ar_id a \<Longrightarrow> \<not> active_at (?inc h) j"
      using core_faithful [OF p(1) count(2)] p(2,3) core_active [OF count(2)]
      by (simp_all add: with_state_def)
    have "valid (ar_id a)" using assms(3) a(1) by (simp add: valid_def eq_neg_iff_add_eq_0)
    then show ?thesis
      using r(2) refuse_image [OF k(1,2) a(2) k(3)] grant_image [OF k(1,2) a(2) k(3)]
      by (auto split: if_splits)
  qed
qed

lemma begin_image:
  assumes "mirrored f" "begin_promotion incumbent c set_id f = (Inr auth, g)"
  shows "mirrored g"
proof (cases "owner_active f")
  case True
  then show ?thesis
    using assms core_image [OF assms(1), of "tally fs_promotions_refused_update f"]
    by (auto simp: begin_promotion_def split: if_splits)
next
  case False
  let ?f = "f\<lparr>fb_active_attempt := absent\<rparr>"
  have c: "core f ?f" by (simp add: core_def same_contents_def)
  have "\<not> active_at ?f j" for j using lone_idle [OF imageD(2) [OF assms(1)] False] core_active [OF c] by simp
  moreover have "ds_attempt_sequence (fb_state ?f) \<noteq> - 1"
    "claim_transition incumbent c set_id ?f = (Inr auth, g)"
    using assms(2) False by (auto simp: begin_promotion_def Let_def UINT64_MAX_def split: if_splits)
  ultimately show ?thesis using claim_image [OF core_faithful [OF imageD(1) [OF assms(1)] c]] by blast
qed

lemma effect_image:
  assumes "mirrored f" "record_effect i e f = (status, g)" "st_ok status"
  obtains b where "mirrored g" "map_of (fb_attempts f) i = Some b"
    "durable (ended AttemptState_committed Reason_none f b) g"
proof -
  obtain b where b: "map_of (fb_attempts f) i = Some b" "effect_refusal i e b f = None"
    using assms(2,3) effect_refusal_fails
    by (auto simp: record_effect_def find_attempt_locked_def unknown_attempt_def
        split: option.splits prod.splits)
  let ?a = "ended AttemptState_committed Reason_none f b"
  let ?d = "\<lambda>f. tally fs_promotions_committed_update
    (f\<lparr>fb_evidence := map_assign (ee_path e) (verified_evidence e) (fb_evidence f),
       fb_active_attempt := absent, fb_grants := map_erase i (fb_grants f)\<rparr>)"
  let ?e = "\<lambda>f. lineage_entry (ds_decision_sequence (fb_state f)) i PromotionOutcome_promoted
    (ar_incumbent ?a) (ar_selected ?a) (ar_set ?a) Reason_selected f"
  have run: "then_do (persist_attempt_locked ?a False (store_attempt i ?a f)) (\<lambda>f.
      then_do (persist_lineage_locked (?e f) f) (\<lambda>f. compact_if_needed_locked (?d f))) = (status, g)"
    using assms(2) b by (simp add: record_effect_def find_attempt_locked_def Let_def)
  have id: "ar_id ?a = i" "active_at f i"
    using keyedD(2) [OF faithful_keyed [OF imageD(1) [OF assms(1)]] b(1)] effect_accepted(1) [OF b(2)]
      active_iff [OF b(1)] by (simp_all add: ended_def)
  have "faithful g \<and> lone g \<and> durable ?a g \<and> map_of (fb_attempts g) i = Some ?a"
    by (rule settle_image [OF imageD [OF assms(1)] id(2,1) _ run assms(3)])
      (use effect_accepted(2) [OF b(2)] in \<open>auto simp: ended_def core_def same_contents_def tally_def\<close>)
  then show thesis using that b(1) by (simp add: mirrored_def)
qed

lemma abandon_image:
  assumes "mirrored f" "abandon_attempt i reason f = (status, g)" "st_ok status"
  shows "mirrored g"
proof -
  obtain b where b: "map_of (fb_attempts f) i = Some b" "\<not> is_terminal_state (ar_state b)"
    using assms(2,3) by (auto simp: abandon_attempt_def find_attempt_locked_def unknown_attempt_def
        split: option.splits if_splits)
  let ?a = "ended AttemptState_abandoned reason f b"
  let ?e = "\<lambda>f. lineage_entry (ds_decision_sequence (fb_state f)) i
    PromotionOutcome_refused_superseded_attempt (ar_incumbent ?a) absent (ar_set ?a) reason f"
  have run: "then_do (persist_attempt_locked ?a False (store_attempt i ?a f)) (\<lambda>f.
      then_do (persist_lineage_locked (?e f) f) (\<lambda>f. compact_if_needed_locked (release i f))) = (status, g)"
    using assms(2) b by (simp add: abandon_attempt_def find_attempt_locked_def Let_def)
  have id: "ar_id ?a = i" "active_at f i"
    using keyedD(2) [OF faithful_keyed [OF imageD(1) [OF assms(1)]] b(1)] b(2)
      active_iff [OF b(1)] by (simp_all add: ended_def is_active_state_def)
  have "faithful g \<and> lone g \<and> durable ?a g \<and> map_of (fb_attempts g) i = Some ?a"
    by (rule settle_image [OF imageD [OF assms(1)] id(2,1) _ run assms(3)])
      (auto simp: ended_def core_def same_contents_def release_def is_active_state_def)
  then show ?thesis by (simp add: mirrored_def)
qed

lemma rollback_image:
  assumes "mirrored f" "rollback i e f = (status, g)" "st_ok status"
  shows "mirrored g"
proof -
  obtain b where b: "map_of (fb_attempts f) i = Some b" "\<not> is_terminal_state (ar_state b)"
    "\<not> revalidation_exhausted b (tally fs_revalidations_update f)"
    using assms(2,3) by (auto simp: rollback_def find_attempt_locked_def unknown_attempt_def Let_def
        split: option.splits if_splits prod.splits)
  let ?f = "tally fs_revalidations_update f" and ?reason = "snd (validate_target_locked e f)"
  let ?a = "ended AttemptState_rolled_back ?reason ?f (b\<lparr>ar_revalidations := ar_revalidations b + 1\<rparr>)"
  let ?e = "\<lambda>f. lineage_entry (ds_decision_sequence (fb_state f)) i PromotionOutcome_rolled_back
    (ar_incumbent ?a) (ar_selected ?a) (ar_set ?a) ?reason f"
  have run: "then_do (persist_attempt_locked ?a False (store_attempt i ?a ?f)) (\<lambda>f.
      then_do (persist_lineage_locked (?e f) f)
        (\<lambda>f. compact_if_needed_locked (tally fs_rollbacks_update (release i f)))) = (status, g)"
    using assms(2,3) b
    by (auto simp: rollback_def find_attempt_locked_def Let_def split: if_splits prod.splits)
  have f: "mirrored ?f" by (rule core_image [OF assms(1)]) simp_all
  have known: "map_of (fb_attempts ?f) i = Some b" using b(1) by (simp add: tally_def)
  have id: "ar_id ?a = i" "active_at ?f i"
    using keyedD(2) [OF faithful_keyed [OF imageD(1) [OF f]] known] b(2)
      active_iff [OF known] by (simp_all add: ended_def is_active_state_def)
  have "faithful g \<and> lone g \<and> durable ?a g \<and> map_of (fb_attempts g) i = Some ?a"
    by (rule settle_image [OF imageD [OF f] id(2,1) _ run assms(3)])
      (auto simp: ended_def core_def same_contents_def release_def is_active_state_def tally_def)
  then show ?thesis by (simp add: mirrored_def)
qed

lemma reversion_image:
  assumes "mirrored f" "\<not> valid (fb_active_attempt f)" "apply_reversion b target reason f = (Inr d, g)"
  shows "mirrored g"
proof -
  let ?f = "tally fs_revalidations_update f"
  let ?i = "ds_attempt_sequence (fb_state f) + 1" and ?n = "ds_decision_sequence (fb_state f) + 1"
  define a where "a = reverting_attempt ?i b target reason ?f"
  let ?d = "reverting_decision ?n ?i b target reason ?f"
  let ?inc = "with_state (\<lambda>s. s\<lparr>ds_attempt_sequence := ds_attempt_sequence s + 1,
    ds_decision_sequence := ds_decision_sequence s + 1\<rparr>)"
  let ?e = "lineage_entry ?n ?i PromotionOutcome_reverted (ar_incumbent a) (ar_selected a) (ar_set a) reason"
  have f: "mirrored ?f" by (rule core_image [OF assms(1)]) simp_all
  have idle: "\<not> active_at ?f j" for j using imageD(2) [OF f] assms(2) by (auto simp: lone_def)
  obtain st1 h where h: "persist_attempt_locked a True ?f = (st1, h)" by fastforce
  obtain st2 m where m: "persist_lineage_locked (?e (?inc h)) (?inc h) = (st2, m)" by fastforce
  obtain st3 n where n: "compact_if_needed_locked (tally fs_reversions_update m) = (st3, n)" by fastforce
  have "then_return (st1, h) (\<lambda>f. then_return (persist_lineage_locked (?e (?inc f)) (?inc f)) (\<lambda>f.
      then_return (compact_if_needed_locked (tally fs_reversions_update f)) (\<lambda>f. (Inr ?d, f)))) = (Inr d, g)"
    using assms(3) unfolding h [symmetric] a_def by (simp add: apply_reversion_def Let_def)
  then have ok: "st_ok st1" "st_ok st2" "st_ok st3" "n = g"
    using m n by (auto simp: then_return_def split: if_splits)
  have p: "faithful h" "map_of (fb_attempts h) (ar_id a) = Some a"
    "\<And>j. j \<noteq> ar_id a \<Longrightarrow> \<not> active_at h j"
    using persisted [OF imageD(1) [OF f] _ _ h ok(1)] idle by auto
  have "\<not> active_at h j" for j
    using p(3) active_iff [OF p(2)] by (cases "j = ar_id a") (auto simp: a_def reverting_attempt_def)
  then have "mirrored h" by (rule idle_image [OF p(1)])
  then have k: "mirrored (?inc h)" by (rule core_image) (simp_all add: core_def same_contents_def with_state_def)
  have "mirrored m" by (rule undisturbed_image [OF k lineage_undisturbed [OF imageD(1) [OF k] m ok(2)]])
  then have "mirrored (tally fs_reversions_update m)" by (rule core_image) simp_all
  then show ?thesis
    using undisturbed_image [OF _ compact_undisturbed [OF _ n ok(3)]] imageD(1) ok(4) by blast
qed

lemma revert_image: "mirrored f \<Longrightarrow> revert i target f = (Inr d, g) \<Longrightarrow> mirrored g"
  using reversion_image [of f]
  by (auto simp: revert_def split: option.splits if_splits prod.splits)

section \<open>Clean calls\<close>

text \<open>The status a call returns; a decision or an authorisation is a success.\<close>

fun answer :: "Call \<Rightarrow> Fabric \<Rightarrow> Status" where
  "answer (Apply_policy p) f = fst (fabric_apply_policy p f)"
| "answer (Apply_obligations ob) f = fst (fabric_apply_obligations ob f)"
| "answer (Apply_alternate_set st) f = fst (fabric_apply_alternate_set st f)"
| "answer (Apply_evidence e) f = fst (fabric_apply_evidence e f)"
| "answer (Set_authority a) f = fst (fabric_set_authority a f)"
| "answer (Fence_path path reason) f = fst (fabric_fence_path path reason f)"
| "answer (Fence_all reason) f = fst (fabric_fence_all reason f)"
| "answer (Evaluate incumbent condition set_id) f =
     (case fst (fabric_evaluate incumbent condition set_id f) of Inl status \<Rightarrow> status | Inr _ \<Rightarrow> ok_status)"
| "answer (Begin_promotion incumbent condition set_id) f =
     (case fst (begin_promotion incumbent condition set_id f) of Inl status \<Rightarrow> status | Inr _ \<Rightarrow> ok_status)"
| "answer (Record_effect i effect) f = fst (record_effect i effect f)"
| "answer (Abandon_attempt i reason) f = fst (abandon_attempt i reason f)"
| "answer (Rollback i e) f = fst (rollback i e f)"
| "answer (Revert i target) f = (case fst (revert i target f) of Inl status \<Rightarrow> status | Inr _ \<Rightarrow> ok_status)"

text \<open>It succeeded, or it was refused with nothing but statistics changed.\<close>

definition clean :: "Call \<Rightarrow> Fabric \<Rightarrow> bool" where
  "clean c f \<longleftrightarrow> st_ok (answer c f) \<or>
     core f (perform c f) \<and> fb_active_attempt (perform c f) = fb_active_attempt f"

lemma refusals_fail:
  "begin_promotion incumbent c i f = (Inl status, g) \<Longrightarrow> \<not> st_ok status"
  "revert j target f = (Inl status, g) \<Longrightarrow> \<not> st_ok status"
  by (auto simp: begin_promotion_def claim_transition_def refuse_attempt_def issue_grant_def revert_def
      apply_reversion_def Let_def then_return_def unknown_attempt_def select_locked_def
      split: if_splits sum.splits option.splits prod.splits)

lemma answered:
  "st_ok (answer (Begin_promotion incumbent c i) f) \<Longrightarrow> begin_promotion incumbent c i f = (r, g) \<Longrightarrow> \<exists>x. r = Inr x"
  "st_ok (answer (Revert j target) f) \<Longrightarrow> revert j target f = (r', g) \<Longrightarrow> \<exists>x. r' = Inr x"
  using refusals_fail by (fastforce split: sum.splits)+

lemma perform_image:
  assumes "mirrored f" "clean c f"
  shows "mirrored (perform c f)"
proof (cases "st_ok (answer c f)")
  case True
  show ?thesis
  proof (cases c)
    case (Apply_policy p)
    then show ?thesis using True policy_image [OF assms(1)] by (cases "fabric_apply_policy p f") auto
  next
    case (Apply_obligations ob)
    then show ?thesis
      using True obligations_image [OF assms(1)] by (cases "fabric_apply_obligations ob f") auto
  next
    case (Apply_alternate_set st)
    then show ?thesis using True set_image [OF assms(1)] by (cases "fabric_apply_alternate_set st f") auto
  next
    case (Set_authority a)
    then show ?thesis using True authority_image [OF assms(1)] by (cases "fabric_set_authority a f") auto
  next
    case (Fence_path path reason)
    then show ?thesis
      using True fence_path_image [OF assms(1)] by (cases "fabric_fence_path path reason f") auto
  next
    case (Fence_all reason)
    then show ?thesis using True fence_all_image [OF assms(1)] by (cases "fabric_fence_all reason f") auto
  next
    case (Begin_promotion incumbent d i)
    then show ?thesis
      using True answered(1) begin_image [OF assms(1)] by (cases "begin_promotion incumbent d i f") fastforce
  next
    case (Record_effect i e)
    then show ?thesis
      using True effect_image [OF assms(1)] by (cases "record_effect i e f") (simp, blast)
  next
    case (Abandon_attempt i reason)
    then show ?thesis using True abandon_image [OF assms(1)] by (cases "abandon_attempt i reason f") auto
  next
    case (Rollback i e)
    then show ?thesis using True rollback_image [OF assms(1)] by (cases "rollback i e f") auto
  next
    case (Revert i target)
    then show ?thesis
      using True answered(2) revert_image [OF assms(1)] by (cases "revert i target f") fastforce
  qed (use assms(1) evidence_image evaluate_image in auto)
next
  case False
  then show ?thesis using assms core_image by (simp add: clean_def)
qed

section \<open>Starts\<close>

lemma loaded_table:
  assumes "distinct (map key xs)"
  shows "map_of (foldl (\<lambda>m x. map_emplace (key x) x m) [] xs) i = Some v \<longleftrightarrow> v \<in> set xs \<and> key v = i"
proof -
  let ?m = "foldl (\<lambda>m x. map_emplace (key x) x m) [] xs"
  have "map_of ?m (key v) = Some v" if "v \<in> set xs" using that assms by (intro fold_emplace_find) simp_all
  moreover have "v \<in> set xs \<and> key v = i" if "map_of ?m i = Some v"
    using that fold_emplace_mem [of key "[]" xs i v] keyed_fold_emplace [of "[]" key xs i v] by simp
  ultimately show ?thesis by blast
qed

lemma loaded_faithful:
  assumes "holds store state" "wf_state state" "unat (fo_max_retained_attempts options) \<le> max_attempts"
  shows "faithful (loaded_fabric options store state)"
proof (rule faithfulI)
  let ?f = "loaded_fabric options store state"
  have d: "distinct (map ar_id (ds_attempts state))" "distinct (map as_id (ds_sets state))"
    using assms(2) by (simp_all add: wf_state_def)
  show "mirrors state ?f"
    using assms(1) loaded_table [OF d(1)] d(1)
    by (auto simp: mirrors_def same_contents_def same_live_def loaded_fabric_def)
  have "length (fb_attempts ?f) \<le> length (ds_attempts state)"
    using length_fold_emplace [OF ordered_Nil, of ar_id "\<lambda>a. a" "ds_attempts state"]
    by (simp add: loaded_fabric_def)
  moreover have "wf_state (state\<lparr>ds_attempts := []\<rparr>)"
    using assms(2) by (simp add: wf_state_def cong: if_cong)
  ultimately show "fit ?f"
    using assms(2,3) keyed_loaded loaded_table [OF d(2)] ordered_fold_emplace [OF ordered_Nil, of as_id "\<lambda>s. s"]
    by (auto simp: fit_iff loaded_fabric_def wf_state_def)
qed

lemma restart_image:
  assumes "faithful f" "restart info f = (status, g)" "st_ok status"
  shows "mirrored g"
proof -
  let ?e = "advance_epoch info f"
  obtain st1 h where h: "append_locked RecordType_epoch_advance (epoch_payload (fb_state ?e)) ?e = (st1, h)"
    by fastforce
  obtain st2 k where k: "fence_each Reason_restart_fenced AttemptState_interrupted (active_ids h) h = (st2, k)"
    by fastforce
  have r: "st_ok st1" "st_ok st2" "compact_if_needed_locked (settled k) = (status, g)"
    using assms(2,3) h k
    by (auto simp: restart_def Let_def settled_def then_do_def split: if_splits)
  let ?v = "(ds_authority (fb_state f))\<lparr>av_epoch := av_epoch (ds_authority (fb_state f)) + 1, av_boot := pi_boot info\<rparr>"
  have u: "undisturbed f h"
    by (rule epoch_undisturbed [OF assms(1) _ refl _ _ h r(1), where n = "fb_identity ?e" and m = "fb_stats ?e"
          and c = "ds_restart_count (fb_state f) + 1" and v = ?v])
      (simp_all add: advance_epoch_def Let_def)
  have kh: "keyed h" by (rule faithful_keyed [OF undisturbedD(1) [OF u]])
  have "\<forall>i \<in> set (active_ids h). active_at h i" using active_ids_iff [OF kh] by blast
  note e = fence_each_image [OF undisturbedD(1) [OF u] this distinct_active_ids [OF kh] ends_simps(2) k r(2)]
  have c: "core k (settled k)"
    by (simp add: core_def same_contents_def settled_def sync_attempts_locked_def with_state_def)
  have "\<not> active_at (settled k) j" for j using e core_active [OF c] active_ids_iff [OF kh] by blast
  then have i: "mirrored (settled k)" using idle_image core_faithful [OF _ c] e by blast
  show ?thesis using undisturbed_image [OF i compact_undisturbed [OF imageD(1) [OF i] r(3) assms(3)]] .
qed

lemma reloaded:
  assumes "holds st s" "open_store (sr_journal st) (sr_snapshot st) default_store_options io aio sio = Inr s1"
    "load s1 = Inr (state, s2)"
  shows "state = s" "holds s2 s"
proof -
  obtain bytes base where st: "sr_journal st = Some bytes" "snapshot_holds (sr_snapshot st) base"
    "replays bytes base s" using assms(1) by (auto simp: holds_def)
  have s1: "sr_journal s1 = Some bytes" "sr_journal_open s1" "\<not> sr_inspection_only s1"
    "sr_snapshot s1 = sr_snapshot st"
    using assms(2) st(1) by (auto simp: open_store_def open_files_def default_store_options_def split: if_splits)
  obtain s3 where s3: "load_snapshot s1 = Inr (base, s3)" "sr_journal s3 = Some bytes" "sr_journal_open s3"
    using st(2) s1 by (auto simp: load_snapshot_def snapshot_holds_def split: option.splits)
  then have "replay_journal base s3 = Inr (state, s2)" using assms(3) by (auto simp: load_def split: if_splits)
  moreover obtain rep e where "replay_records bytes 0 base
      ((sr_recovery s3)\<lparr>rr_journal_bytes := word_of_nat (length bytes)\<rparr>) = Inr (s, rep, e)"
    using st(3) unfolding replays_def by blast
  ultimately show "state = s"
    using s3 st(3) by (cases "bytes = []"; cases e) (auto simp: replay_journal_def Let_def replays_def)
  then show "holds s2 s" using load_repaired [OF assms(3) s1(2,1,3)] by simp
qed

lemma mirrored_wf:
  assumes "fit f" "mirrors s f" "bounded_state s"
  shows "wf_state s"
proof -
  have "wf_state (s\<lparr>ds_attempts := []\<rparr>)"
    using wf_contents [of s "fb_state f"] assms(1,2) by (simp add: fit_iff mirrors_def)
  then show ?thesis using assms(3) by (simp add: wf_state_def bounded_state_def cong: if_cong)
qed

lemma open_image:
  assumes "holds store1 state" "wf_state state" "load store = Inr (state, store1)"
    "fabric_open options (Inr store) info = Inr f"
  shows "mirrored f"
  using assms(4)
proof (cases rule: open_cases)
  case (1 store' store2 state' status)
  then have "restart info (loaded_fabric options store1 state) = (status, f)" using assms(3) by simp
  then show ?thesis using restart_image [OF loaded_faithful [OF assms(1,2) 1(5)]] 1(4) by blast
qed

text \<open>
  A coordinator on a directory of its own: it starts on an absent or empty journal, its calls are
  clean, and the process may end between two calls and another one start on the files.
\<close>

inductive history :: "Fabric \<Rightarrow> bool" where
  begun: "history f" if "journal = None \<or> journal = Some []"
    "fabric_open options (open_store journal None default_store_options io aio sio) info = Inr f"
| served: "history (perform c f)" if "history f" "clean c f"
| restarted: "history g" if "history f" "fabric_open options (open_store (sr_journal (fb_store f))
    (sr_snapshot (fb_store f)) default_store_options io aio sio) info = Inr g"

lemma history_image: "history f \<Longrightarrow> mirrored f"
proof (induction rule: history.induct)
  case (begun journal options io aio sio info f)
  obtain s where s: "open_store journal None default_store_options io aio sio = Inr s"
    by (rule open_cases [OF begun(2)])
  have "sr_journal s = Some []" "sr_snapshot s = None" "sr_journal_open s" "\<not> sr_closed s"
    "\<not> sr_inspection_only s"
    using s begun(1)
    by (auto simp: open_store_def open_files_def default_store_options_def Let_def split: if_splits)
  then obtain s' where "load s = Inr (empty_state, s')" "holds s' empty_state"
    using replays_nil [of empty_state]
    by (simp add: load_def load_snapshot_def replay_journal_def holds_def snapshot_holds_def)
  moreover have "wf_state empty_state" by (simp add: wf_state_def empty_state_def)
  ultimately show ?case using open_image begun(2) s by simp
next
  case (served f c)
  then show ?case by (rule_tac perform_image)
next
  case (restarted f options io aio sio info g)
  obtain s where f: "fit f" "mirrors s f" using imageD(1) [OF restarted(3)] by (auto simp: faithful_def)
  obtain s1 state s2 where l: "open_store (sr_journal (fb_store f)) (sr_snapshot (fb_store f))
      default_store_options io aio sio = Inr s1" "load s1 = Inr (state, s2)"
    by (rule open_cases [OF restarted(2)])
  have r: "state = s" "holds s2 s" using reloaded [OF _ l] f(2) by (simp_all add: mirrors_def)
  have "wf_state s" using mirrored_wf [OF f] bounded.loaded [OF l(2)] r(1) by simp
  then show ?case using open_image [OF r(2) _ l(2) [unfolded r(1)]] restarted(2) l(1) by simp
qed

section \<open>A sample\<close>

text \<open>A directory with a snapshot of the sample state, and attempt 1 in flight on it.\<close>

definition sample_files :: Store where
  "sample_files = (fresh_store [] [])\<lparr>sr_snapshot := Some (encode_snapshot sample_state)\<rparr>"

definition in_flight :: Fabric where
  "in_flight = (snd (persist_attempt_locked sample_attempt True
     (loaded_fabric default_fabric_options sample_files sample_state)))\<lparr>fb_active_attempt := 1\<rparr>"

lemma sample_wf: "wf_state sample_state"
  by (simp add: wf_state_def sample_state_def empty_state_def sample_defs limit_defs validation valid_def
      max_alternate_sets_def)

lemma sample_files_hold: "holds sample_files sample_state"
  using encode_snapshot_size [OF sample_wf] decode_encode_snapshot [OF sample_wf] replays_nil
  by (auto simp: holds_def sample_files_def fresh_store_def snapshot_holds_def sample_state_def
      empty_state_def)

lemma in_flight_start:
  defines "l \<equiv> loaded_fabric default_fabric_options sample_files sample_state"
  shows "faithful l" "\<not> active_at l j" "ready 3 (fb_store l)" "has_room i l" "spare (155 + 298) l"
    "fb_attempts l = []" "fb_evidence l = []" "ds_authority (fb_state l) = sample_vector"
  unfolding l_def using loaded_faithful [OF sample_files_hold sample_wf]
  by (simp_all add: loaded_fabric_def sample_state_def empty_state_def active_at_def ready_def has_room_def
      spare_def sample_files_def fresh_store_def default_fabric_options_def max_attempts_def
      max_record_payload_def max_journal_bytes_def)

lemma persist_keeps:
  "fb_evidence (snd (persist_attempt_locked a w f)) = fb_evidence f"
  "ds_authority (fb_state (snd (persist_attempt_locked a w f))) = ds_authority (fb_state f)"
  using calm_append [of f]
  by (auto simp: persist_attempt_locked_def retain_attempt_locked_def then_do_def with_state_def tally_def
      store_attempt_def calm_defs Let_def split_beta split: option.split)

lemma in_flight_image:
  "mirrored in_flight" "map_of (fb_attempts in_flight) 1 = Some sample_attempt"
  "ready 2 (fb_store in_flight)" "spare 298 in_flight"
  "effect_refusal 1 sample_effect sample_attempt in_flight = None"
proof -
  let ?l = "loaded_fabric default_fabric_options sample_files sample_state"
  let ?p = "persist_attempt_locked sample_attempt True ?l"
  have id: "ar_id sample_attempt = 1" by (simp add: sample_attempt_def)
  have "ready (Suc 2) (fb_store ?l)" using in_flight_start(3) by simp
  note p = ready_persist [OF this in_flight_start(4,5)]
  have k: "faithful (snd ?p)" "map_of (fb_attempts (snd ?p)) 1 = Some sample_attempt"
    "\<And>j. j \<noteq> 1 \<Longrightarrow> \<not> active_at (snd ?p) j"
    using persisted [OF in_flight_start(1) _ _ prod.collapse [symmetric], of ?l sample_attempt True] p(1)
      in_flight_start(2) id by simp_all
  have c: "core (snd ?p) in_flight" by (simp add: core_def in_flight_def same_contents_def)
  have "lone in_flight"
    using k(3) core_active [OF c] by (auto simp: lone_def in_flight_def valid_def)
  then show "mirrored in_flight" using core_faithful [OF k(1) c] by (simp add: mirrored_def)
  show known: "map_of (fb_attempts in_flight) 1 = Some sample_attempt" "ready 2 (fb_store in_flight)"
    "spare 298 in_flight" using k(2) p(2,3) by (simp_all add: in_flight_def spare_def)
  have "fb_evidence (snd ?p) = [] \<and> ds_authority (fb_state (snd ?p)) = sample_vector"
    using persist_keeps in_flight_start(7,8) by simp
  then show "effect_refusal 1 sample_effect sample_attempt in_flight = None"
    by (simp add: effect_refusal_def in_flight_def sample_attempt_def sample_effect_def
        sample_vector_current validation valid_def)
qed

section \<open>Properties\<close>



text \<open>
  C5: An acknowledged commit survives the process. When the files mirror the coordinator and
  \<open>record_effect\<close> reports success, a process that starts on the files finds the attempt committed,
  as this one reports it, nothing in flight under its identity, and the same lineage, whose newest
  entry is the promotion.
\<close>

theorem commit_survives_crash:
  assumes "mirrored f" "record_effect i e f = (status, g)" "st_ok status"
  shows "\<exists>s a l entry. recovered (fb_store g) = Inr s \<and> query_attempt i g = Inr a \<and>
    ar_state a = AttemptState_committed \<and> a \<in> set (ds_attempts s) \<and>
    (\<forall>b \<in> set (ds_attempts s). ar_id b = i \<longrightarrow> b = a) \<and>
    ds_lineage s = l @ [entry] \<and> li_attempt entry = i \<and> li_outcome entry = PromotionOutcome_promoted"
proof -
  obtain b where b: "mirrored g" "map_of (fb_attempts f) i = Some b"
    "durable (ended AttemptState_committed Reason_none f b) g"
    by (rule effect_image [OF assms])
  let ?a = "ended AttemptState_committed Reason_none f b"
  obtain s where s: "mirrors s g" "?a \<in> set (ds_attempts s)" using b(3) by (auto simp: durable_def)
  have k: "keyed f" using imageD(1) [OF assms(1)] by (rule faithful_keyed)
  obtain b' where "map_of (fb_attempts f) i = Some b'" and r:
    "map_of (fb_attempts g) i = Some (ended AttemptState_committed Reason_none f b')" "promotion_entered i b' g"
    by (rule record_effect_result [OF k assms(2,3)])
  then have "b' = b" using b(2) by simp
  have id: "ar_id ?a = i" using keyedD(2) [OF k b(2)] by (simp add: ended_def)
  have d: "distinct (map ar_id (ds_attempts s))" "ds_lineage s = ds_lineage (fb_state g)"
    using s(1) by (simp_all add: mirrors_def same_live_def same_contents_def)
  have "c = ?a" if "c \<in> set (ds_attempts s)" "ar_id c = i" for c
    using d(1) that s(2) id by (metis distinct_map inj_onD)
  moreover have "recovered (fb_store g) = Inr s" using s(1) holds_recovered by (simp add: mirrors_def)
  moreover have "query_attempt i g = Inr ?a" "ar_state ?a = AttemptState_committed"
    using r(1) \<open>b' = b\<close> by (simp_all add: query_attempt_def ended_def)
  ultimately show ?thesis using s(2) r(2) d(2) unfolding promotion_entered_def by metis
qed

theorem commit_survives_crash_witness:
  "\<exists>s a. recovered (fb_store (snd (record_effect 1 sample_effect in_flight))) = Inr s \<and>
     a \<in> set (ds_attempts s) \<and> ar_id a = 1 \<and> ar_state a = AttemptState_committed"
proof -
  have k: "keyed in_flight" by (rule faithful_keyed [OF imageD(1) [OF in_flight_image(1)]])
  have "st_ok (fst (record_effect 1 sample_effect in_flight))"
    by (rule due_commit [OF k in_flight_image(2,5,3,4)])
  then obtain s a where s: "recovered (fb_store (snd (record_effect 1 sample_effect in_flight))) = Inr s"
    "query_attempt 1 (snd (record_effect 1 sample_effect in_flight)) = Inr a"
    "ar_state a = AttemptState_committed" "a \<in> set (ds_attempts s)"
    using commit_survives_crash [OF in_flight_image(1) prod.collapse [symmetric], of 1 sample_effect] by blast
  have "keyed (snd (record_effect 1 sample_effect in_flight))"
    using steps_keyed [OF steps_record_effect [OF k] k] .
  then have "ar_id a = 1" using s(2) keyedD(2) by (auto simp: query_attempt_def split: option.splits)
  then show ?thesis using s by blast
qed

end
