(* ===== verification/PFF_Host.thy ===== *)
theory PFF_Host
  imports PFF_Daemon PFF_Replica
begin

text \<open>
  The scenario worker \<open>apps/pff_host.cpp\<close>: it opens a state directory, supplies policy,
  obligations, a set and evidence the way the neighbouring systems do, promotes, completes or is
  killed at a requested stage. The result of a run is its exit code and its lines, and the
  coordinator as the process leaves it; a killed process leaves the files of that coordinator.
\<close>

section \<open>Supplying the inputs\<close>

record Prepared =
  pp_set :: AlternateSetId
  pp_set_generation :: Generation
  pp_authority :: AuthorityVector
  pp_paths :: "PathId list"
  pp_incumbent :: PathId

definition host_policy :: "Generation \<Rightarrow> FailoverPolicy" where
  "host_policy generation =
     \<lparr>fp_generation = generation, fp_w_health = 4, fp_w_cost = 1, fp_w_rank = 1, fp_w_capability = 1,
      fp_min_score = 0, fp_search_limit = default_search_limit, fp_max_retained_attempts = 256,
      fp_max_revalidations = 4, fp_allow_unknown_skip = False, fp_require_verified_effect = True\<rparr>"

definition host_obligations :: "Generation \<Rightarrow> ServiceObligations" where
  "host_obligations generation =
     \<lparr>so_generation = generation, so_required_capabilities = 0x3, so_min_health_ppm = 500000,
      so_max_cost_units = 5000000, so_require_reachable = True, so_require_capacity = True,
      so_require_fresh_evidence = True\<rparr>"

definition host_path :: "nat \<Rightarrow> PathId" where
  "host_path index = 1000 + word_of_nat index"

definition host_candidate :: "AuthorityVector \<Rightarrow> nat \<Rightarrow> AlternateCandidate" where
  "host_candidate authority index =
     \<lparr>ca_path = host_path index, ca_upstream_rank = word_of_nat index, ca_withdrawn = False,
      ca_evidence =
        \<lparr>pe_id = host_path index, pe_path = host_path index, pe_freshness = Freshness_fresh,
         pe_eligibility = Eligibility_eligible, pe_reachability = Reachability_reachable,
         pe_capacity = CapacityClass_sufficient, pe_capabilities = 0x3,
         pe_health_ppm = 900000 - word_of_nat index, pe_cost_units = 100 + word_of_nat index,
         pe_observation_seq = 1, pe_observed_under = authority,
         pe_provenance = Provenance_synthetic\<rparr>,
      ca_authority = authority\<rparr>"

definition host_indices :: "nat \<Rightarrow> PathId \<Rightarrow> nat list" where
  "host_indices path_count incumbent = filter (\<lambda>index. host_path index \<noteq> incumbent) [0..<path_count]"

primrec apply_evidence_each :: "AlternateCandidate list \<Rightarrow> Fabric \<Rightarrow> Status \<times> Fabric" where
  "apply_evidence_each [] f = (ok_status, f)"
| "apply_evidence_each (c # cs) f =
     then_do (fabric_apply_evidence (ca_evidence c) f) (apply_evidence_each cs)"

definition prepare_set :: "AlternateSetId \<Rightarrow> size_t \<Rightarrow> PathId \<Rightarrow> Fabric \<Rightarrow> AlternateSet" where
  "prepare_set set_id path_count incumbent f =
     \<lparr>as_id = set_id,
      as_generation =
        (case query_alternate_set set_id f of Inr existing \<Rightarrow> as_generation existing + 1 | Inl _ \<Rightarrow> 1),
      as_completeness = SetCompleteness_complete,
      as_candidates = map (host_candidate (fabric_authority f)) (host_indices path_count incumbent)\<rparr>"

definition prepare ::
  "AlternateSetId \<Rightarrow> size_t \<Rightarrow> PathId \<Rightarrow> Fabric \<Rightarrow> Prepared Result \<times> Fabric" where
  "prepare set_id path_count incumbent f =
     (let before = fabric_authority f in
      then_return (fabric_set_authority (av_absent\<lparr>av_topology := av_topology before + 1,
        av_path_authority := av_path_authority before + 1\<rparr>) f) (\<lambda>f.
      then_return (fabric_apply_policy (host_policy (av_policy before + 1)) f) (\<lambda>f.
      then_return (fabric_apply_obligations (host_obligations (av_obligations before + 1)) f) (\<lambda>f.
      (let st = prepare_set set_id path_count incumbent f;
           prepared =
             \<lparr>pp_set = set_id, pp_set_generation = as_generation st,
              pp_authority = fabric_authority f,
              pp_paths = map host_path (host_indices path_count incumbent),
              pp_incumbent = incumbent\<rparr>
       in then_return (fabric_apply_alternate_set st f) (\<lambda>f.
          then_return (apply_evidence_each (as_candidates st) f) (\<lambda>f. (Inr prepared, f))))))))"

section \<open>Printing\<close>

definition attempt_line :: "AttemptRecord \<Rightarrow> string" where
  "attempt_line a =
     ''ATTEMPT '' @ number (ar_id a) @ '' '' @ attempt_state_to_string (ar_state a) @ '' '' @
     reason_to_string (ar_terminal_reason a) @ '' selected='' @ id_hex (ar_selected a) @
     '' epoch='' @ number (ar_epoch a)"

definition summary_lineage :: "LineageEntry \<Rightarrow> string" where
  "summary_lineage e =
     ''LINEAGE '' @ outcome_to_string (li_outcome e) @ '' attempt='' @ number (li_attempt e) @
     '' selected='' @ id_hex (li_selected e) @ '' reason='' @ reason_to_string (li_reason e)"

definition fence_line :: "FenceRecord \<Rightarrow> string" where
  "fence_line r =
     ''FENCE attempt='' @ number (fr_attempt r) @ '' path='' @ id_hex (fr_path r) @
     '' reason='' @ reason_to_string (fr_reason r)"

definition print_summary :: "Fabric \<Rightarrow> string list" where
  "print_summary f =
     [''EPOCH '' @ number (fi_epoch (fabric_identity f)),
      ''BOOT '' @ id_hex (fi_boot (fabric_identity f)),
      ''INCARNATION '' @ id_hex (fi_incarnation (fabric_identity f)),
      ''RESTARTS '' @ number (fi_restart_count (fabric_identity f)),
      ''POLICY_INSTALLED '' @ flag (policy_installed f),
      ''OBLIGATIONS_INSTALLED '' @ flag (obligations_installed f),
      ''ACTIVE_ATTEMPTS '' @ decimal (active_attempt_count f),
      ''AUTHORIZED '' @ number (fs_promotions_authorized (fabric_stats f)),
      ''COMMITTED '' @ number (fs_promotions_committed (fabric_stats f)),
      ''STALE_COMPLETIONS_REJECTED '' @ number (fs_stale_completions_rejected (fabric_stats f)),
      ''RECOVERY snapshot='' @ flag (rr_snapshot_loaded (fabric_recovery f)) @
      '' torn='' @ flag (rr_torn_tail_present (fabric_recovery f)) @
      '' replayed='' @ decimal (rr_records_replayed (fabric_recovery f)) @
      '' truncated_bytes='' @ number (rr_truncated_bytes (fabric_recovery f))] @
     map attempt_line (query_attempts f) @ map summary_lineage (query_lineage max_lineage f) @
     map fence_line (query_fences f)"

definition status_words :: "Status \<Rightarrow> string" where
  "status_words s = code_to_string (st_code s) @ '' '' @ reason_to_string (st_reason s)"

definition decision_words :: "PromotionDecision \<Rightarrow> string" where
  "decision_words d = outcome_to_string (pd_outcome d) @ '' '' @ reason_to_string (pd_reason d)"

section \<open>Commands\<close>

text \<open>A verified effect on a path as the worker reports it.\<close>

definition host_effect :: "EvidenceId \<Rightarrow> u64 \<Rightarrow> PathId \<Rightarrow> Fabric \<Rightarrow> EffectEvidence" where
  "host_effect evidence_id seq path f =
     \<lparr>ee_id = evidence_id, ee_path = path, ee_observation_seq = seq, ee_effect_verified = True,
      ee_observed_under = fabric_authority f, ee_provenance = Provenance_synthetic\<rparr>"

definition probe_lines :: "u64 \<Rightarrow> PathId \<Rightarrow> Fabric \<Rightarrow> string list \<times> Fabric" where
  "probe_lines probe_set probe_incumbent f =
     (if probe_set = 0 then ([], f)
      else
     (case begin_promotion probe_incumbent IncumbentCondition_failed probe_set f of
        (Inl status, f) \<Rightarrow> ([''PROBE error '' @ status_words status], f)
      | (Inr probe, f) \<Rightarrow>
          (if authorized probe then
             [''PROBE AUTHORIZED selected='' @ id_hex (gr_path (pa_grant probe)) @
              '' attempt='' @ number (gr_attempt (pa_grant probe))]
           else [''PROBE refused '' @ decision_words (pa_decision probe)], f)))"

definition late_effect :: "PathId \<Rightarrow> AttemptId \<Rightarrow> Fabric \<Rightarrow> Report \<times> Fabric" where
  "late_effect path attempt f =
     (case record_effect attempt (host_effect (path + 500000) 77 path f) f of
        (status, f) \<Rightarrow> (exits 0 [''LATE-EFFECT '' @ status_words status] [], f))"

text \<open>From the grant on: complete it, or be killed before or after the effect is recorded.\<close>

definition granted_line :: "AttemptId \<Rightarrow> PathId \<Rightarrow> string" where
  "granted_line attempt selected =
     ''GRANTED attempt='' @ number attempt @ '' selected='' @ id_hex selected"

definition promoted_line :: "AttemptId \<Rightarrow> PathId \<Rightarrow> string" where
  "promoted_line attempt selected =
     ''PROMOTED attempt='' @ number attempt @ '' selected='' @ id_hex selected"

definition complete_grant :: "string \<Rightarrow> AttemptId \<Rightarrow> PathId \<Rightarrow> Fabric \<Rightarrow> Report \<times> Fabric" where
  "complete_grant crash_stage attempt selected f =
     (let granted = granted_line attempt selected in
      if crash_stage = ''after-grant'' then (exits 9 [granted] [], f)
      else
     (case record_effect attempt (host_effect (selected + 900000) 2 selected f) f of
        (status, f) \<Rightarrow>
          (if \<not> st_ok status then exits 5 [granted, ''EFFECT failed '' @ status_words status] []
           else if crash_stage = ''after-effect'' \<or> crash_stage = ''before-ack'' then exits 9 [granted] []
           else exits 0 [granted, promoted_line attempt selected] [], f)))"

definition host_promote ::
  "string \<Rightarrow> AlternateSetId \<Rightarrow> size_t \<Rightarrow> PathId \<Rightarrow> Fabric \<Rightarrow> Report \<times> Fabric" where
  "host_promote crash_stage set_id paths incumbent f =
     (case prepare set_id paths incumbent f of
        (Inl status, f) \<Rightarrow> (exits 4 [] [''prepare: '' @ status_describe status], f)
      | (Inr _, f) \<Rightarrow>
     (case begin_promotion incumbent IncumbentCondition_failed set_id f of
        (Inl status, f) \<Rightarrow> (exits 6 [''PROMOTE error '' @ status_words status] [], f)
      | (Inr authorization, f) \<Rightarrow>
          if \<not> authorized authorization then
            (exits 0 [''PROMOTE refused '' @ decision_words (pa_decision authorization)] [], f)
          else complete_grant crash_stage (gr_attempt (pa_grant authorization))
            (gr_path (pa_grant authorization)) f))"

definition host_prepare :: "AlternateSetId \<Rightarrow> size_t \<Rightarrow> PathId \<Rightarrow> Fabric \<Rightarrow> Report \<times> Fabric" where
  "host_prepare set_id paths incumbent f =
     (case prepare set_id paths incumbent f of
        (Inl status, f) \<Rightarrow> (exits 4 [] [''prepare: '' @ status_describe status], f)
      | (Inr prepared, f) \<Rightarrow>
          (exits 0 [''PREPARED set='' @ number (pp_set prepared) @
             '' generation='' @ number (pp_set_generation prepared) @
             '' paths='' @ decimal (length (pp_paths prepared))] [], f))"

definition run_host :: "string \<Rightarrow> string list \<Rightarrow> Fabric \<Rightarrow> Report \<times> Fabric" where
  "run_host cmd argv f =
     (let set_id = arg_u64 argv ''--set'' 1;
          paths = unat (arg_u64 argv ''--paths'' 4);
          incumbent = arg_u64 argv ''--incumbent'' 1
      in if cmd = ''try-open'' then (exits 0 [''OPEN ok''] [], f)
         else if cmd = ''hold'' then
           (exits 0 [''HELD epoch='' @ number (fi_epoch (fabric_identity f)) @
              '' boot='' @ id_hex (fi_boot (fabric_identity f))] [], f)
         else if cmd = ''prepare'' then host_prepare set_id paths incumbent f
         else if cmd = ''verify'' then
           (case probe_lines (arg_u64 argv ''--probe-set'' 0) (arg_u64 argv ''--probe-incumbent'' 1) f of
              (lines, f') \<Rightarrow> (exits 0 (print_summary f @ lines) [], f'))
         else if cmd = ''late-effect'' then
           late_effect (arg_u64 argv ''--path'' 1000) (arg_u64 argv ''--attempt'' 1) f
         else if cmd = ''promote'' then
           host_promote (arg_or argv ''--crash'' ''none'') set_id paths incumbent f
         else (exits 2 [] [''pff_host: unknown command '' @ cmd], f))"

definition host_usage :: "string list" where
  "host_usage =
     [''usage: pff_host --dir D <command> [args]'',
      ''  prepare --set S [--paths N] [--incumbent I]'',
      ''  promote --set S [--paths N] [--incumbent I] [--crash stage]'',
      ''  verify [--probe-set S] [--probe-incumbent I]'',
      ''  late-effect --attempt A --path P'',
      ''  hold'',
      ''  try-open'']"

definition host_main ::
  "(string \<Rightarrow> Store Result) \<Rightarrow> ProcessInfo \<Rightarrow> string list \<Rightarrow> Report \<times> Fabric option" where
  "host_main stores info argv =
     (case (command argv, arg_value argv ''--dir'') of
        (Some cmd, Some directory) \<Rightarrow>
          (case fabric_open (fabric_arguments argv) (stores directory) info of
             Inl status \<Rightarrow>
               (if cmd = ''try-open'' then exits 0 [''OPEN denied '' @ status_words status] []
                else exits 3 [] [''pff_host: cannot open: '' @ status_describe status], None)
           | Inr f \<Rightarrow> apsnd Some (run_host cmd argv f))
      | _ \<Rightarrow> (exits 2 [] host_usage, None))"

section \<open>What a run leaves behind\<close>

lemma evidence_each_image: "mirrored f \<Longrightarrow> mirrored (snd (apply_evidence_each cs f))"
proof (induction cs arbitrary: f)
  case (Cons c cs)
  note step = evidence_image [OF Cons.prems, of "ca_evidence c"]
  show ?case using Cons.IH [OF step] step by (simp add: then_do_def split_beta)
qed simp

text \<open>A prepared coordinator is still mirrored by its files.\<close>

lemma prepare_image:
  assumes "mirrored f" "prepare set_id paths incumbent f = (Inr prepared, g)"
  shows "mirrored g"
proof -
  let ?b = "fabric_authority f"
  let ?v = "av_absent\<lparr>av_topology := av_topology ?b + 1, av_path_authority := av_path_authority ?b + 1\<rparr>"
  obtain st1 f1 where f1: "fabric_set_authority ?v f = (st1, f1)" by fastforce
  note r1 = then_return_ok [OF assms(2) [unfolded prepare_def Let_def f1], simplified]
  obtain st2 f2 where f2: "fabric_apply_policy (host_policy (av_policy ?b + 1)) f1 = (st2, f2)" by fastforce
  note r2 = then_return_ok [OF r1(2) [unfolded f2], simplified]
  obtain st3 f3 where f3: "fabric_apply_obligations (host_obligations (av_obligations ?b + 1)) f2 = (st3, f3)"
    by fastforce
  note r3 = then_return_ok [OF r2(2) [unfolded f3], simplified]
  let ?s = "prepare_set set_id paths incumbent f3"
  obtain st4 f4 where f4: "fabric_apply_alternate_set ?s f3 = (st4, f4)" by fastforce
  have r4: "st_ok st4" "g = snd (apply_evidence_each (as_candidates ?s) f4)"
    using r3(2) f4 by (auto simp: then_return_def split: if_splits prod.splits)
  have "mirrored f1" by (rule authority_image [OF assms(1) f1 r1(1)])
  then have "mirrored f2" by (rule policy_image [OF _ f2 r2(1)])
  then have "mirrored f3" by (rule obligations_image [OF _ f3 r3(1)])
  then have "mirrored f4" by (rule set_image [OF _ f4 r4(1)])
  then show ?thesis using evidence_each_image r4(2) by blast
qed

text \<open>Killed after the effect was recorded, or after \<open>PROMOTED\<close> was printed: the files know of it.\<close>

lemma completed_durable:
  assumes "mirrored f" "complete_grant stage i selected f = (report, g)"
    "stage \<noteq> ''after-grant''" "rp_exit report \<noteq> Some 5"
  obtains a s where "recovered (fb_store g) = Inr s" "a \<in> set (ds_attempts s)" "ar_id a = i"
    "ar_state a = AttemptState_committed"
proof -
  let ?e = "host_effect (selected + 900000) 2 selected f"
  obtain status where r: "record_effect i ?e f = (status, g)" "st_ok status"
    using assms(2-4) by (auto simp: complete_grant_def exits_def Let_def split: prod.splits if_splits)
  obtain b where b: "map_of (fb_attempts f) i = Some b"
    "durable (ended AttemptState_committed Reason_none f b) g"
    by (rule effect_image [OF assms(1) r])
  obtain s where s: "mirrors s g" "ended AttemptState_committed Reason_none f b \<in> set (ds_attempts s)"
    using b(2) by (auto simp: durable_def)
  have "ar_id b = i" using keyedD(2) [OF faithful_keyed [OF imageD(1) [OF assms(1)]] b(1)] .
  then show thesis
    using that [of s, OF _ s(2)] s(1) holds_recovered by (simp add: mirrors_def ended_def)
qed

lemma idle_effect:
  assumes "\<And>j. \<not> active_at f j"
  shows "\<not> st_ok (fst (record_effect i e f)) \<and>
    snd (record_effect i e f) \<in> {f, tally fs_stale_completions_rejected_update f}"
proof (cases "map_of (fb_attempts f) i")
  case None
  then show ?thesis by (simp add: record_effect_def find_attempt_locked_def unknown_attempt_def)
next
  case (Some b)
  obtain status x where r: "effect_refusal i e b f = Some (status, x)"
    using effect_accepted(1) [of i e b f] assms [of i] active_iff [OF Some]
    by (cases "effect_refusal i e b f") auto
  then show ?thesis
    using Some effect_refusal_fails [OF r] by (simp add: record_effect_def find_attempt_locked_def)
qed

section \<open>Properties\<close>

text \<open>
  C14: A completion that arrives after a restart is refused. Whatever state directory the worker
  opens and whatever attempt and path \<open>late-effect\<close> is given, the line it prints carries an error,
  and the journal, the attempts and the durable state are what the start left.
\<close>

theorem late_effect_rejected:
  assumes "command argv = Some ''late-effect''" "arg_value argv ''--dir'' = Some directory"
    and "fabric_open (fabric_arguments argv) (stores directory) info = Inr f"
  shows "\<exists>status g. host_main stores info argv = (exits 0 [''LATE-EFFECT '' @ status_words status] [], Some g) \<and>
    \<not> st_ok status \<and> fb_store g = fb_store f \<and> query_attempts g = query_attempts f \<and>
    fb_state g = fb_state f"
proof -
  define i where "i = arg_u64 argv ''--attempt'' 1"
  define path where "path = arg_u64 argv ''--path'' 1000"
  obtain status g where r: "record_effect i (host_effect (path + 500000) 77 path f) f = (status, g)"
    by fastforce
  have run: "host_main stores info argv = (exits 0 [''LATE-EFFECT '' @ status_words status] [], Some g)"
    using assms r by (simp add: host_main_def run_host_def late_effect_def flip: i_def path_def)
  have "\<not> st_ok status \<and> g \<in> {f, tally fs_stale_completions_rejected_update f}"
    using idle_effect [OF opened_idle(1) [OF assms(3)], of i "host_effect (path + 500000) 77 path f"] r by simp
  then show ?thesis using run by (auto simp: query_attempts_def tally_def)
qed

theorem late_effect_rejected_witness:
  "\<exists>status g. host_main (\<lambda>d. Inr (fresh_store [] [])) first_process
       [''pff_host'', ''--dir'', ''state'', ''late-effect''] =
     (exits 0 [''LATE-EFFECT '' @ status_words status] [], Some g) \<and> \<not> st_ok status"
proof -
  let ?argv = "[''pff_host'', ''--dir'', ''state'', ''late-effect'']"
  have "fabric_arguments ?argv = default_fabric_options"
    by (simp add: fabric_arguments_def arg_or_def arg_value_def provenance_option_def
        default_fabric_options_def)
  then show ?thesis
    using late_effect_rejected [of ?argv "''state''" "\<lambda>d. Inr (fresh_store [] [])" first_process first_fabric]
      first_start by (auto simp: command_def dashed_def arg_value_def)
qed

end
