(* ===== verification/Spec2Isabelle.thy ===== *)
theory Spec2Isabelle
  imports PFF_Control PFF_Host
begin

text \<open>
  \<^bold>\<open>Verification of the Path Failover Fabric.\<close>

  The Path Failover Fabric decides, records and serves the promotion of an alternate network path
  when the incumbent path fails. A \<^emph>\<open>selector\<close> (\<open>src/selector.cpp\<close>) evaluates a set of candidate
  paths against a policy, service obligations and the current authority vector and produces a
  decision document. The \<^emph>\<open>coordinator\<close> (\<open>Fabric\<close>, \<open>src/fabric.cpp\<close>) owns the transition: it turns
  an authorised decision into a grant held by one attempt, commits it on a verified effect, fences
  paths and attempts, and rolls back or reverts. Every change is a record of an append-only
  \<^emph>\<open>journal\<close> with snapshots (\<open>src/store.cpp\<close>), from which a restarted process recovers. A
  \<^emph>\<open>service\<close> (\<open>src/server.cpp\<close>) offers the coordinator to \<^emph>\<open>clients\<close> (\<open>src/client.cpp\<close>) over a framed
  socket protocol (\<open>src/protocol.cpp\<close>). The programs under \<open>apps/\<close> run the service (\<open>pffd\<close>), call it
  from a command line (\<open>pffctl\<close>) and drive a coordinator through scenarios (\<open>pff_host\<close>).

  \<^bold>\<open>Conventions.\<close> An enumerator \<open>E::x\<close> is the constructor \<open>E_x\<close>, a struct is a record whose fields
  carry a short prefix, unsigned fixed-width integers are words, \<open>Result<T>\<close> is \<open>Status + T\<close>, an
  operation on an object takes the object and returns it next to its result, also when it fails.
  System calls (files, sockets, clock, entropy, thread start) are arguments: their answers are
  universally quantified in the theorems. \<open>std::bad_alloc\<close> is not modelled.

  \<^bold>\<open>Theories and sources.\<close>

  \<^item> \<open>PFF_Prelude\<close>: machine types, theorem collections, list and word facts.
  \<^item> \<open>PFF_Status\<close> (\<open>status.hpp/.cpp\<close>), \<open>PFF_Checked\<close> (\<open>ids.hpp\<close>, \<open>limits.hpp\<close>, \<open>checked.hpp\<close>),
    \<open>PFF_Authority\<close> (\<open>authority.hpp/.cpp\<close>), \<open>PFF_Model\<close> (\<open>model.hpp/.cpp\<close>), \<open>PFF_Records\<close>
    (\<open>records.hpp/.cpp\<close>): codes and reasons with their stable numbers, identities and bounds,
    overflow-checked arithmetic, the authority vector and its classification, the validated input
    values, the durable records.
  \<^item> \<open>PFF_Sort\<close>, \<open>PFF_Decision\<close> (\<open>decision.hpp/.cpp\<close>), \<open>PFF_Selector\<close> (\<open>selector.hpp/.cpp\<close>),
    \<open>PFF_Selection\<close>: the merge sort, the decision document, the gates, scores, ranking and
    conclusion of \<open>evaluate\<close>; soundness, optimality, permutation invariance, fail-closed treatment
    of unknowns, what a proof of no alternate means, and that a legal member is found.
  \<^item> \<open>PFF_Canonical\<close> (\<open>canonical.hpp/.cpp\<close>), \<open>PFF_Wire\<close> (\<open>wire.hpp/.cpp\<close>), \<open>PFF_Codec\<close>, \<open>PFF_Crc\<close>
    (\<open>crc32c.hpp/.cpp\<close>), \<open>PFF_Document\<close>: byte writers and readers with sticky status, the codecs of
    the domain values, the contract \<open>codec\<close> with its interpretation for each, CRC-32C against
    bit-serial division, the canonical decision document.
  \<^item> \<open>PFF_Journal\<close>, \<open>PFF_Store\<close>, \<open>PFF_Recovery\<close>, \<open>PFF_Snapshot\<close>, \<open>PFF_Durability\<close>
    (\<open>store.hpp/.cpp\<close>): record frames, application of records, the files, append, compaction, opening
    and replay; crash atomicity of append and compaction for every answer of the file system,
    detection of damage, repair, bounds of a recovered state.
  \<^item> \<open>PFF_Map\<close>, \<open>PFF_Fabric\<close> (\<open>fabric.hpp/.cpp\<close>): \<open>std::map\<close> as an ordered association list
    (locale \<open>ordered_map\<close>) and every operation of the coordinator.
  \<^item> \<open>PFF_Machine\<close>, \<open>PFF_Operations\<close>, \<open>PFF_Start\<close>, \<open>PFF_Invariants\<close>, \<open>PFF_Coordinator\<close>,
    \<open>PFF_Promotion\<close>, \<open>PFF_Progress\<close>, \<open>PFF_Guarantees\<close>: each operation as a sequence of elementary
    steps of an inductive relation, reachable coordinators, invariants as interpretations of the
    locales \<open>fabric_invariant\<close>, \<open>opened_invariant\<close> and \<open>fabric_order\<close>, the refinement of a lock, and the
    guarantees: exclusive grants, sound grants and commits, permanence of fences, interruption at
    restart, finality of terminal attempts, bounded tables, progress when the journal has room.
  \<^item> \<open>PFF_Mirror\<close>, \<open>PFF_Replica\<close>: coordinator and store together. The files are an image of the
    coordinator after every call that succeeds or is refused without effect, across compactions and
    restarts; an acknowledged commit survives the process.
  \<^item> \<open>PFF_Protocol\<close>, \<open>PFF_Message\<close> (\<open>protocol.hpp/.cpp\<close>): frames, the streaming decoder, the payloads;
    delivery independent of chunking, fatality of damage, bounded buffering, a codec
    interpretation for every payload.
  \<^item> \<open>PFF_Server\<close> (\<open>server.hpp/.cpp\<close>), \<open>PFF_Client\<close> (\<open>client.cpp\<close>): dispatch, handshake, request loop,
    session table and accept loop; connect, the request exchange and every client method.
  \<^item> \<open>PFF_Service\<close>, \<open>PFF_Remote\<close>: the interleaving of session threads as an inductive step relation
    with its invariants (locale \<open>service_invariant\<close>), requests bound to their session, and the
    contract \<open>remote_operation\<close> between a client method and the branch of \<open>dispatch\<close> that serves it,
    from which a call through client, protocol and service is a call on the coordinator.
  \<^item> \<open>PFF_Net\<close> (\<open>net.cpp\<close>, \<open>platform.cpp\<close>), \<open>PFF_Tools\<close> (\<open>apps/args.hpp\<close>), \<open>PFF_Daemon\<close> (\<open>apps/pffd.cpp\<close>
    and \<open>Server::run\<close>), \<open>PFF_Control\<close> (\<open>apps/pffctl.cpp\<close>), \<open>PFF_Host\<close> (\<open>apps/pff_host.cpp\<close>): the send and
    receive loops over what the kernel answers, the command line, the life of the daemon from its
    arguments to its exit code, the commands of the control tool and of the scenario worker;
    termination of a send, a daemon that exits with 0 only after its last session, a fence command
    that is exactly \<open>fence_path\<close> on the coordinator, an inspection that prints what the next start
    recovers, a late completion that is refused.

  \<^bold>\<open>Composition.\<close> The coordinator calls the selector through \<open>select_locked\<close> and the store through
  \<open>append_locked\<close> and \<open>compact_if_needed_locked\<close>; all its operations run under one mutex, so an
  execution is a sequence of calls (\<open>run\<close>) from a state \<open>fabric_open\<close> returned. The service performs at
  most one such call per frame, so the threads of the sessions interleave at frames. The server's
  own mutex protects only its counters and its session table.

  \<^bold>\<open>Bounds, fuel and termination.\<close> No definition uses fuel. Loops are structural recursions, or
  functions with a measure: \<open>decode_snapshot_records\<close> and the replay of the journal shorten the rest
  of the input, \<open>drain\<close> and \<open>serve_requests\<close> the bytes a decoder holds. A receive loop runs over the
  list of the results its receives give; when the list is used up the loop is still waiting, which
  is a value of its own (\<^const>\<open>None\<close> or the live session). Counters wrap at their width; the
  theorems that need a counter below its maximum say so.

  \<^bold>\<open>Not modelled.\<close> The Windows branches of \<open>src/net.cpp\<close> and \<open>src/platform.cpp\<close>, and of their POSIX
  branches the bare system calls (socket set-up, directory and file calls, clock and entropy
  sources), whose answers are arguments here. Destructors, the ownership of socket handles, the
  condition variable that waits for the session threads and the wake-up connection of \<open>request_stop\<close>
  have no counterpart in the state; what they cause shows in the answers of accept and receive. Of
  the programs, the exception handlers of \<open>main\<close> (exit code 70) and the sleep of \<open>pff_host hold\<close>;
  the programs under \<open>examples/\<close> are tutorials that call the modelled operations.
\<close>

end
